(* ===== verification/Gateway_Prelude.thy ===== *)
theory Gateway_Prelude
  imports Complex_Main "HOL-Library.Char_ord" "HOL-Library.List_Lexorder"
begin

text \<open>
  What every component shares: the byte strings of Go with the operations of the packages
  \<^verbatim>\<open>strings\<close> and \<^verbatim>\<open>unicode/utf8\<close> the sources call, the collections of simplification rules
  the component proofs use, and generic facts on lists.

  A Go \<^verbatim>\<open>string\<close> is a sequence of bytes, so it is an Isabelle \<^typ>\<open>string\<close>, whose characters are
  bytes; \<^verbatim>\<open>len\<close> is \<^const>\<open>length\<close>. A decoded rune is a \<^typ>\<open>nat\<close>. A pair of a value and an
  \<^verbatim>\<open>error\<close> is a sum where the source drops the value on error, and a pair with an optional
  error where it does not.
\<close>

named_theorems go_simps \<open>evaluation of the string operations\<close>
named_theorems fsm_simps \<open>unfolding of the lifecycle tables\<close>
named_theorems gate_simps \<open>unfolding of the gate evaluation\<close>
named_theorems ledger_simps \<open>unfolding of the ledger programs\<close>

type_synonym rune = nat
type_synonym bytes = string

abbreviation byte_of :: "char \<Rightarrow> nat" where
  "byte_of c \<equiv> of_char c"

section \<open>The package strings\<close>

definition has_prefix :: "string \<Rightarrow> string \<Rightarrow> bool" where
  "has_prefix s p \<longleftrightarrow> take (length p) s = p"

definition has_suffix :: "string \<Rightarrow> string \<Rightarrow> bool" where
  "has_suffix s p \<longleftrightarrow> length p \<le> length s \<and> drop (length s - length p) s = p"

definition trim_prefix :: "string \<Rightarrow> string \<Rightarrow> string" where
  "trim_prefix s p = (if has_prefix s p then drop (length p) s else s)"

fun contains_sub :: "string \<Rightarrow> string \<Rightarrow> bool" where
  "contains_sub [] p = (p = [])"
| "contains_sub (c # s) p = (has_prefix (c # s) p \<or> contains_sub s p)"

definition contains_byte :: "string \<Rightarrow> char \<Rightarrow> bool" where
  "contains_byte s c \<longleftrightarrow> List.member s c"

definition contains_any :: "string \<Rightarrow> string \<Rightarrow> bool" where
  "contains_any s cs \<longleftrightarrow> list_ex (\<lambda>c. List.member cs c) s"

text \<open>\<^verbatim>\<open>strings.Split\<close> with a separator of one byte: one part more than separators.\<close>

fun split_on :: "char \<Rightarrow> string \<Rightarrow> string list" where
  "split_on sep [] = [[]]"
| "split_on sep (c # s) =
     (if c = sep then [] # split_on sep s
      else case split_on sep s of [] \<Rightarrow> [[c]] | p # ps \<Rightarrow> (c # p) # ps)"

definition trim_left_byte :: "char \<Rightarrow> string \<Rightarrow> string" where
  "trim_left_byte c s = dropWhile (\<lambda>x. x = c) s"

definition trim_right_byte :: "char \<Rightarrow> string \<Rightarrow> string" where
  "trim_right_byte c s = rev (dropWhile (\<lambda>x. x = c) (rev s))"

definition trim_byte :: "char \<Rightarrow> string \<Rightarrow> string" where
  "trim_byte c s = trim_right_byte c (trim_left_byte c s)"

text \<open>
  \<^verbatim>\<open>strings.TrimSpace\<close> removes the runes for which \<^verbatim>\<open>unicode.IsSpace\<close> holds; their UTF-8
  encodings are listed by their bytes.
\<close>

definition space_encodings :: "string list" where
  "space_encodings = map (map char_of)
     ([[9], [10], [11], [12], [13], [32], [194, 133], [194, 160], [225, 154, 128],
       [226, 128, 168], [226, 128, 169], [226, 128, 175], [226, 129, 159], [227, 128, 128]]
      @ map (\<lambda>n. [226, 128, n]) [128..<139::nat])"

function trim_space_left :: "string \<Rightarrow> string" where
  "trim_space_left s =
     (case List.find (has_prefix s) space_encodings of
        None \<Rightarrow> s
      | Some w \<Rightarrow> if w = [] \<or> s = [] then s else trim_space_left (drop (length w) s))"
  by pat_completeness auto
termination by (relation "measure length") auto

function trim_space_right :: "string \<Rightarrow> string" where
  "trim_space_right s =
     (case List.find (has_suffix s) space_encodings of
        None \<Rightarrow> s
      | Some w \<Rightarrow> if w = [] \<or> s = [] then s else trim_space_right (take (length s - length w) s))"
  by pat_completeness auto
termination by (relation "measure length") auto

declare trim_space_left.simps [simp del] trim_space_right.simps [simp del]

definition trim_space :: "string \<Rightarrow> string" where
  "trim_space s = trim_space_right (trim_space_left s)"

section \<open>The package unicode/utf8\<close>

definition utf8_cont :: "nat \<Rightarrow> bool" where
  "utf8_cont b \<longleftrightarrow> 128 \<le> b \<and> b \<le> 191"

definition utf8_second3 :: "nat \<Rightarrow> nat \<Rightarrow> bool" where
  "utf8_second3 b c \<longleftrightarrow>
     (if b = 224 then 160 \<le> c \<and> c \<le> 191
      else if b = 237 then 128 \<le> c \<and> c \<le> 159
      else 225 \<le> b \<and> b \<le> 239 \<and> utf8_cont c)"

definition utf8_second4 :: "nat \<Rightarrow> nat \<Rightarrow> bool" where
  "utf8_second4 b c \<longleftrightarrow>
     (if b = 240 then 144 \<le> c \<and> c \<le> 191
      else if b = 244 then 128 \<le> c \<and> c \<le> 143
      else 241 \<le> b \<and> b \<le> 243 \<and> utf8_cont c)"

fun utf8_decode :: "nat list \<Rightarrow> rune list option" where
  "utf8_decode [] = Some []"
| "utf8_decode (b # bs) =
     (if b < 128 then map_option ((#) b) (utf8_decode bs)
      else case bs of
        [] \<Rightarrow> None
      | c1 # bs1 \<Rightarrow>
          if 194 \<le> b \<and> b \<le> 223 \<and> utf8_cont c1
          then map_option ((#) ((b - 192) * 64 + (c1 - 128))) (utf8_decode bs1)
          else (case bs1 of
            [] \<Rightarrow> None
          | c2 # bs2 \<Rightarrow>
              if utf8_second3 b c1 \<and> utf8_cont c2
              then map_option ((#) ((b - 224) * 4096 + (c1 - 128) * 64 + (c2 - 128)))
                     (utf8_decode bs2)
              else (case bs2 of
                [] \<Rightarrow> None
              | c3 # bs3 \<Rightarrow>
                  if utf8_second4 b c1 \<and> utf8_cont c2 \<and> utf8_cont c3
                  then map_option ((#) ((b - 240) * 262144 + (c1 - 128) * 4096
                                        + (c2 - 128) * 64 + (c3 - 128))) (utf8_decode bs3)
                  else None)))"

definition utf8_valid :: "string \<Rightarrow> bool" where
  "utf8_valid s \<longleftrightarrow> utf8_decode (map byte_of s) \<noteq> None"

text \<open>\<^verbatim>\<open>[]rune(s)\<close> for a valid string; the sources convert only strings they have validated.\<close>

definition runes_of :: "string \<Rightarrow> rune list" where
  "runes_of s = (case utf8_decode (map byte_of s) of None \<Rightarrow> [] | Some rs \<Rightarrow> rs)"

section \<open>Decimal text\<close>

definition is_digit :: "char \<Rightarrow> bool" where
  "is_digit c \<longleftrightarrow> 48 \<le> byte_of c \<and> byte_of c \<le> 57"

definition digit_char :: "nat \<Rightarrow> char" where
  "digit_char d = char_of (48 + d)"

function nat_digits :: "nat \<Rightarrow> string" where
  "nat_digits n = (if n < 10 then [digit_char n] else nat_digits (n div 10) @ [digit_char (n mod 10)])"
  by pat_completeness auto
termination by (relation "measure id") auto

declare nat_digits.simps [simp del]

text \<open>\<^verbatim>\<open>%03d\<close> of a number that is not negative.\<close>

definition pad3 :: "nat \<Rightarrow> string" where
  "pad3 n = replicate (3 - length (nat_digits n)) (CHR ''0'') @ nat_digits n"

section \<open>Shared facts\<close>

lemma has_prefix_iff [go_simps]: "has_prefix s p \<longleftrightarrow> (\<exists>t. s = p @ t)"
  unfolding has_prefix_def by (metis append_eq_conv_conj append_take_drop_id)

lemma has_suffix_iff [go_simps]: "has_suffix s p \<longleftrightarrow> (\<exists>t. s = t @ p)"
proof
  assume "has_suffix s p"
  then have "s = take (length s - length p) s @ p"
    unfolding has_suffix_def by (metis append_take_drop_id)
  then show "\<exists>t. s = t @ p" by blast
next
  assume "\<exists>t. s = t @ p"
  then show "has_suffix s p" by (auto simp: has_suffix_def)
qed

lemma contains_sub_iff [go_simps]: "contains_sub s p \<longleftrightarrow> (\<exists>u v. s = u @ p @ v)"
proof (induction s)
  case Nil
  then show ?case by simp
next
  case (Cons c s)
  show ?case
  proof
    assume "contains_sub (c # s) p"
    then consider "has_prefix (c # s) p" | "contains_sub s p" by auto
    then show "\<exists>u v. c # s = u @ p @ v"
    proof cases
      case 1
      then show ?thesis unfolding has_prefix_iff by (metis append_Nil)
    next
      case 2
      then show ?thesis using Cons.IH by (metis append_Cons)
    qed
  next
    assume "\<exists>u v. c # s = u @ p @ v"
    then obtain u v where uv: "c # s = u @ p @ v" by blast
    show "contains_sub (c # s) p"
    proof (cases u)
      case Nil
      with uv have "has_prefix (c # s) p" by (auto simp: has_prefix_iff)
      then show ?thesis by simp
    next
      case (Cons d u')
      with uv have "s = u' @ p @ v" by simp
      then show ?thesis using Cons.IH by auto
    qed
  qed
qed

lemma contains_byte_iff [go_simps]: "contains_byte s c \<longleftrightarrow> c \<in> set s"
  by (simp add: contains_byte_def)

lemma contains_any_iff [go_simps]: "contains_any s cs \<longleftrightarrow> set s \<inter> set cs \<noteq> {}"
  by (auto simp: contains_any_def list_ex_iff)

lemma split_on_nonempty [simp]: "split_on sep s \<noteq> []"
  by (cases s) (auto split: list.splits)

lemma split_on_join:
  "concat (map (\<lambda>p. p @ [sep]) (split_on sep s)) = s @ [sep]"
proof (induction s)
  case Nil
  then show ?case by simp
next
  case (Cons c s)
  obtain p ps where "split_on sep s = p # ps" by (meson list.exhaust split_on_nonempty)
  with Cons show ?case by auto
qed

lemma split_on_no_sep: "p \<in> set (split_on sep s) \<Longrightarrow> sep \<notin> set p"
  by (induction s arbitrary: p) (auto split: if_splits list.splits)

lemma space_encodings_bytes:
  assumes "w \<in> set space_encodings"
  shows "w \<noteq> []" and "c \<in> set w \<Longrightarrow> \<not> (33 \<le> byte_of c \<and> byte_of c < (127 :: nat))"
proof -
  let ?L = "[[9], [10], [11], [12], [13], [32], [194, 133], [194, 160], [225, 154, 128],
       [226, 128, 168], [226, 128, 169], [226, 128, 175], [226, 129, 159], [227, 128, 128]]
      @ map (\<lambda>n. [226, 128, n]) [128..<139::nat]"
  have all: "\<forall>ns\<in>set ?L. ns \<noteq> [] \<and> (\<forall>n\<in>set ns. n < 256 \<and> \<not> (33 \<le> n \<and> n < 127))" by auto
  from assms have "w \<in> map char_of ` set ?L" unfolding space_encodings_def set_map .
  then obtain ns where ns: "w = map char_of ns" "ns \<in> set ?L" by (rule imageE)
  show "w \<noteq> []" using bspec [OF all ns(2)] ns(1) by simp
  assume "c \<in> set w"
  then obtain n where "n \<in> set ns" "c = char_of n" using ns(1) by auto
  then show "\<not> (33 \<le> byte_of c \<and> byte_of c < (127 :: nat))" using bspec [OF all ns(2)] by auto
qed

lemma trim_space_graphic:
  assumes "list_all (\<lambda>c. 33 \<le> byte_of c \<and> byte_of c < (127 :: nat)) s"
  shows "trim_space s = s"
proof -
  have no: "\<not> has_prefix s w \<and> \<not> has_suffix s w" if w: "w \<in> set space_encodings" for w
  proof -
    obtain c where "c \<in> set w" "\<not> (33 \<le> byte_of c \<and> byte_of c < (127 :: nat))"
      using space_encodings_bytes [OF w] by (metis list.set_sel(1))
    then have "\<not> set w \<subseteq> set s" using assms by (auto simp: list_all_iff)
    then show ?thesis
      using set_take_subset [of "length w" s] set_drop_subset [of "length s - length w" s]
      by (auto simp: has_prefix_def has_suffix_def)
  qed
  then have "List.find (has_prefix s) space_encodings = None" "List.find (has_suffix s) space_encodings = None"
    by (auto simp: find_None_iff)
  then show ?thesis
    by (simp add: trim_space_def trim_space_left.simps trim_space_right.simps)
qed

text \<open>Sequencing of fallible code: a guard that returns early, and a call whose error is passed on.\<close>

lemma guard_Inr:
  "(case e of Some err \<Rightarrow> Inl err | None \<Rightarrow> r) = Inr x \<longleftrightarrow> e = None \<and> r = Inr x"
  by (cases e) auto

lemma bind_Inr:
  "(case e of Inl err \<Rightarrow> Inl (f err) | Inr v \<Rightarrow> r v) = Inr x \<longleftrightarrow> (\<exists>v. e = Inr v \<and> r v = Inr x)"
  by (cases e) auto

end
