(* ===== verification/Agent_Run_FSM.thy ===== *)
theory Agent_Run_FSM
  imports Gateway_Prelude
begin

text \<open>
  The AgentRun lifecycle of \<^verbatim>\<open>v3/internal/fsm\<close> (\<^verbatim>\<open>agentrun.go\<close>, \<^verbatim>\<open>fsm.go\<close>) over the phases of
  \<^verbatim>\<open>v3/api/v1alpha1/types.go\<close>: the event table as data, with the rows the package's \<^verbatim>\<open>init\<close>
  appends, the functions that read it, and the in-memory \<^verbatim>\<open>Machine\<close>. A Go phase or event is a
  string, so each datatype has a constructor for the strings that are none of the constants.
\<close>

datatype phase =
    Pending | Cloning | Working | Capturing | Verifying | Gated | Publishing
  | Succeeded | Rejected | Failed | Cancelled | UnknownEffect
  | OtherPhase string

datatype event =
    EventStartCloning | EventCloneSucceeded | EventWorkSucceeded | EventCaptureSucceeded
  | EventVerifySucceeded | EventGateAccepted | EventGateRejected | EventShadowRejected
  | EventSucceededNoPublish | EventPublishSucceeded | EventShadowPublished
  | EventFailed | EventCancelled | EventUnknownEffect
  | OtherEvent string

datatype fsm_error =
    ErrInvalidPhase phase
  | ErrTerminalPhase phase
  | ErrUnknownEvent event
  | ErrInvalidTransition phase event
  | ErrInvalidPhaseTransition phase phase
  | UnknownPhases phase phase
  | TerminalCannotMove phase phase
  | PhaseCannotMove phase phase
  | NilMachine

record event_transition =
  From :: phase
  Event :: event
  To :: phase

abbreviation row :: "phase \<Rightarrow> event \<Rightarrow> phase \<Rightarrow> event_transition" where
  "row p e q \<equiv> \<lparr>From = p, Event = e, To = q\<rparr>"

section \<open>The transition table\<close>

definition declared_rows :: "event_transition list" where
  "declared_rows =
     [row Pending EventStartCloning Cloning,
      row Cloning EventCloneSucceeded Working,
      row Working EventWorkSucceeded Capturing,
      row Capturing EventCaptureSucceeded Verifying,
      row Verifying EventVerifySucceeded Gated,
      row Verifying EventGateRejected Rejected,
      row Gated EventGateAccepted Publishing,
      row Gated EventGateRejected Rejected,
      row Gated EventShadowRejected Publishing,
      row Gated EventSucceededNoPublish Succeeded,
      row Publishing EventPublishSucceeded Succeeded,
      row Publishing EventShadowPublished Rejected,
      row Publishing EventUnknownEffect UnknownEffect]"

definition activePhases :: "phase list" where
  "activePhases = [Pending, Cloning, Working, Capturing, Verifying, Gated, Publishing]"

definition init_rows :: "phase \<Rightarrow> event_transition list" where
  "init_rows p =
     [row p EventFailed Failed, row p EventCancelled Cancelled]
     @ (if p \<noteq> Publishing then [row p EventUnknownEffect UnknownEffect] else [])"

definition transitionTable :: "event_transition list" where
  "transitionTable = declared_rows @ concat (map init_rows activePhases)"

section \<open>Reading the table\<close>

fun IsTerminal :: "phase \<Rightarrow> bool" where
  "IsTerminal Succeeded = True"
| "IsTerminal Rejected = True"
| "IsTerminal Failed = True"
| "IsTerminal Cancelled = True"
| "IsTerminal UnknownEffect = True"
| "IsTerminal _ = False"

fun IsKnownPhase :: "phase \<Rightarrow> bool" where
  "IsKnownPhase (OtherPhase _) = False"
| "IsKnownPhase _ = True"

fun knownEvent :: "event \<Rightarrow> bool" where
  "knownEvent (OtherEvent _) = False"
| "knownEvent _ = True"

definition ValidatePhase :: "phase \<Rightarrow> fsm_error option" where
  "ValidatePhase p = (if \<not> IsKnownPhase p then Some (ErrInvalidPhase p) else None)"

definition IsActive :: "phase \<Rightarrow> bool" where
  "IsActive p \<longleftrightarrow> IsKnownPhase p \<and> \<not> IsTerminal p"

definition Apply :: "phase \<Rightarrow> event \<Rightarrow> phase \<times> fsm_error option" where
  "Apply p e =
     (case ValidatePhase p of
        Some err \<Rightarrow> (p, Some err)
      | None \<Rightarrow>
          if IsTerminal p then (p, Some (ErrTerminalPhase p))
          else case List.find (\<lambda>t. From t = p \<and> Event t = e) transitionTable of
                 Some t \<Rightarrow> (To t, None)
               | None \<Rightarrow>
                   if \<not> knownEvent e then (p, Some (ErrUnknownEvent e))
                   else (p, Some (ErrInvalidTransition p e)))"

definition CanTransition :: "phase \<Rightarrow> phase \<Rightarrow> bool" where
  "CanTransition p q \<longleftrightarrow>
     (if \<not> IsKnownPhase p \<or> \<not> IsKnownPhase q then False
      else if p = q then \<not> IsTerminal p
      else list_ex (\<lambda>t. From t = p \<and> To t = q) transitionTable)"

definition ValidateTransition :: "phase \<Rightarrow> phase \<Rightarrow> fsm_error option" where
  "ValidateTransition p q =
     (if \<not> IsKnownPhase p \<or> \<not> IsKnownPhase q then Some (UnknownPhases p q)
      else if CanTransition p q then None
      else if IsTerminal p then Some (TerminalCannotMove p q)
      else Some (PhaseCannotMove p q))"

definition Transition :: "phase \<Rightarrow> phase \<Rightarrow> phase \<times> fsm_error option" where
  "Transition p q =
     (case ValidateTransition p q of Some err \<Rightarrow> (p, Some err) | None \<Rightarrow> (q, None))"

definition TransitionTo :: "phase \<Rightarrow> phase \<Rightarrow> fsm_error option" where
  "TransitionTo p q =
     (case ValidatePhase p of
        Some err \<Rightarrow> Some err
      | None \<Rightarrow>
          (case ValidatePhase q of
             Some err \<Rightarrow> Some err
           | None \<Rightarrow>
               (case ValidateTransition p q of
                  Some err \<Rightarrow>
                    if IsTerminal p then Some (ErrTerminalPhase p)
                    else Some (ErrInvalidPhaseTransition p q)
                | None \<Rightarrow> None)))"

section \<open>The machine\<close>

record machine =
  phase_of :: phase

definition New_machine :: "phase \<Rightarrow> fsm_error + machine" where
  "New_machine p =
     (case ValidatePhase p of Some err \<Rightarrow> Inl err | None \<Rightarrow> Inr \<lparr>phase_of = p\<rparr>)"

text \<open>A nil \<^verbatim>\<open>*Machine\<close> receiver is \<^term>\<open>None\<close>.\<close>

definition Machine_Phase :: "machine option \<Rightarrow> phase" where
  "Machine_Phase m = (case m of None \<Rightarrow> OtherPhase [] | Some m' \<Rightarrow> phase_of m')"

definition Machine_Apply :: "machine option \<Rightarrow> event \<Rightarrow> machine option \<times> fsm_error option" where
  "Machine_Apply m e =
     (case m of
        None \<Rightarrow> (None, Some NilMachine)
      | Some m' \<Rightarrow>
          (case Apply (phase_of m') e of
             (q, Some err) \<Rightarrow> (Some m', Some err)
           | (q, None) \<Rightarrow> (Some (m'\<lparr>phase_of := q\<rparr>), None)))"

definition Machine_Cancel :: "machine option \<Rightarrow> machine option \<times> fsm_error option" where
  "Machine_Cancel m = Machine_Apply m EventCancelled"

definition Machine_MarkUnknownEffect :: "machine option \<Rightarrow> machine option \<times> fsm_error option" where
  "Machine_MarkUnknownEffect m = Machine_Apply m EventUnknownEffect"

text \<open>A run of the machine over the events its owner observes, whatever each of them returned.\<close>

fun observe :: "machine option \<Rightarrow> event list \<Rightarrow> machine option" where
  "observe m [] = m"
| "observe m (e # es) = observe (fst (Machine_Apply m e)) es"

text \<open>The accepted histories: the events the table took, in order, and the phase they led to.\<close>

inductive lifecycle :: "phase \<Rightarrow> event list \<Rightarrow> phase \<Rightarrow> bool" for p where
  start: "lifecycle p [] p"
| accept: "lifecycle p es q \<Longrightarrow> Apply q e = (r, None) \<Longrightarrow> lifecycle p (es @ [e]) r"

inductive_simps lifecycle_snoc: "lifecycle p (es @ [e]) r"
inductive_simps lifecycle_Nil: "lifecycle p [] r"

section \<open>What the table says\<close>

lemmas table_defs [fsm_simps] =
  transitionTable_def declared_rows_def init_rows_def activePhases_def

lemma Apply_unknown [simp]: "\<not> IsKnownPhase p \<Longrightarrow> Apply p e = (p, Some (ErrInvalidPhase p))"
  by (simp add: Apply_def ValidatePhase_def)

lemma Apply_terminal [simp]: "IsTerminal p \<Longrightarrow> Apply p e = (p, Some (ErrTerminalPhase p))"
  by (cases p) (simp_all add: Apply_def ValidatePhase_def)

text \<open>The table has no two rows for one phase and event, so the search order is immaterial.\<close>

lemma table_functional:
  "t \<in> set transitionTable \<Longrightarrow> u \<in> set transitionTable \<Longrightarrow>
   From t = From u \<Longrightarrow> Event t = Event u \<Longrightarrow> t = u"
proof -
  have "distinct (map (\<lambda>t. (From t, Event t)) transitionTable)"
    by (simp add: fsm_simps)
  then show "t \<in> set transitionTable \<Longrightarrow> u \<in> set transitionTable \<Longrightarrow>
      From t = From u \<Longrightarrow> Event t = Event u \<Longrightarrow> t = u"
    by (auto simp: distinct_map inj_on_def)
qed

lemma table_active: "t \<in> set transitionTable \<Longrightarrow> IsActive (From t) \<and> IsKnownPhase (To t)"
  by (auto simp: fsm_simps IsActive_def)

lemma row_mem:
  assumes "t \<in> set transitionTable" "From t = p" "Event t = e" "To t = q"
  shows "row p e q \<in> set transitionTable"
proof -
  have "row p e q = t" using assms(2-4) by auto
  with assms(1) show ?thesis by simp
qed

lemma Apply_Some_iff: "Apply p e = (q, None) \<longleftrightarrow> row p e q \<in> set transitionTable"
proof
  assume "Apply p e = (q, None)"
  then obtain t where "List.find (\<lambda>t. From t = p \<and> Event t = e) transitionTable = Some t"
    and "To t = q"
    by (auto simp: Apply_def split: option.splits if_splits)
  then have "t \<in> set transitionTable" and "From t = p" and "Event t = e" and "To t = q"
    by (auto simp: find_Some_iff)
  then show "row p e q \<in> set transitionTable" by (rule row_mem)
next
  assume r: "row p e q \<in> set transitionTable"
  from table_active [OF r] have act: "IsKnownPhase p" "\<not> IsTerminal p"
    by (auto simp: IsActive_def)
  obtain t where t: "List.find (\<lambda>t. From t = p \<and> Event t = e) transitionTable = Some t"
  proof (cases "List.find (\<lambda>t. From t = p \<and> Event t = e) transitionTable")
    case None
    with r show ?thesis by (force simp: find_None_iff)
  qed blast
  then have "t \<in> set transitionTable" and "From t = p" and "Event t = e"
    by (auto simp: find_Some_iff)
  with r have "t = row p e q" by (intro table_functional) auto
  with t act show "Apply p e = (q, None)" by (simp add: Apply_def ValidatePhase_def)
qed

lemma Apply_error_keeps: "snd (Apply p e) \<noteq> None \<Longrightarrow> fst (Apply p e) = p"
  by (auto simp: Apply_def split: option.splits if_splits)

fun rank :: "phase \<Rightarrow> nat" where
  "rank Pending = 0"
| "rank Cloning = 1"
| "rank Working = 2"
| "rank Capturing = 3"
| "rank Verifying = 4"
| "rank Gated = 5"
| "rank Publishing = 6"
| "rank _ = 7"

lemma Apply_rank: "Apply p e = (q, None) \<Longrightarrow> rank p < rank q"
  unfolding Apply_Some_iff by (auto simp: fsm_simps)

lemma rank_le [simp]: "rank p \<le> 7"
  by (cases p) simp_all

lemma lifecycle_rank: "lifecycle p es q \<Longrightarrow> rank p + length es \<le> rank q"
  by (induction rule: lifecycle.induct) (auto dest!: Apply_rank)

text \<open>The histories from Pending that the table accepts, phase by phase.\<close>

abbreviation to_verifying :: "event list" where
  "to_verifying \<equiv>
     [EventStartCloning, EventCloneSucceeded, EventWorkSucceeded, EventCaptureSucceeded]"

abbreviation to_gated :: "event list" where
  "to_gated \<equiv> to_verifying @ [EventVerifySucceeded]"

fun histories :: "phase \<Rightarrow> event list set" where
  "histories Pending = {[]}"
| "histories Cloning = {[EventStartCloning]}"
| "histories Working = {[EventStartCloning, EventCloneSucceeded]}"
| "histories Capturing = {[EventStartCloning, EventCloneSucceeded, EventWorkSucceeded]}"
| "histories Verifying = {to_verifying}"
| "histories Gated = {to_gated}"
| "histories Publishing =
     {to_gated @ [EventGateAccepted], to_gated @ [EventShadowRejected]}"
| "histories Succeeded =
     {to_gated @ [EventSucceededNoPublish],
      to_gated @ [EventGateAccepted, EventPublishSucceeded],
      to_gated @ [EventShadowRejected, EventPublishSucceeded]}"
| "histories Rejected =
     {to_verifying @ [EventGateRejected], to_gated @ [EventGateRejected],
      to_gated @ [EventGateAccepted, EventShadowPublished],
      to_gated @ [EventShadowRejected, EventShadowPublished]}"
| "histories _ = UNIV"

lemma lifecycle_histories: "lifecycle Pending es q \<Longrightarrow> es \<in> histories q"
proof (induction rule: lifecycle.induct)
  case start
  show ?case by simp
next
  case (accept es q e r)
  then show ?case unfolding Apply_Some_iff by (auto simp: fsm_simps)
qed

fun advance :: "phase \<Rightarrow> event list \<Rightarrow> phase option" where
  "advance p [] = Some p"
| "advance p (e # es) = (case Apply p e of (q, None) \<Rightarrow> advance q es | _ \<Rightarrow> None)"

lemma advance_append:
  "advance p (es @ fs) = (case advance p es of None \<Rightarrow> None | Some q \<Rightarrow> advance q fs)"
  by (induction es arbitrary: p) (auto split: prod.split option.split)

lemma lifecycle_advance: "lifecycle p es q \<longleftrightarrow> advance p es = Some q"
proof (induction es arbitrary: q rule: rev_induct)
  case Nil
  then show ?case by (auto simp: lifecycle_Nil)
next
  case (snoc e es)
  then show ?case
    by (auto simp: lifecycle_snoc advance_append split: option.splits prod.splits)
qed

lemma advance_row:
  "row p e q \<in> set transitionTable \<Longrightarrow> advance p (e # es) = advance q es"
  by (simp flip: Apply_Some_iff)

lemmas advance_rows =
  advance_row [of Pending EventStartCloning Cloning]
  advance_row [of Cloning EventCloneSucceeded Working]
  advance_row [of Working EventWorkSucceeded Capturing]
  advance_row [of Capturing EventCaptureSucceeded Verifying]
  advance_row [of Verifying EventVerifySucceeded Gated]
  advance_row [of Gated EventGateAccepted Publishing]
  advance_row [of Gated EventShadowRejected Publishing]
  advance_row [of Gated EventSucceededNoPublish Succeeded]
  advance_row [of Publishing EventPublishSucceeded Succeeded]

lemma observe_terminal:
  "IsTerminal (phase_of m) \<Longrightarrow> observe (Some m) es = Some m"
  by (induction es) (simp_all add: Machine_Apply_def)

section \<open>Properties\<close>

text \<open>
  C1. A run is recorded as Succeeded only after every stage: the accepted events leading from
  Pending to Succeeded are exactly clone, work, capture and verify in that order, then either
  the success without publication, or a gate outcome that allows publication followed by a
  successful publication.
\<close>

theorem succeeded_histories:
  "lifecycle Pending es Succeeded \<longleftrightarrow>
     es \<in> {[EventStartCloning, EventCloneSucceeded, EventWorkSucceeded, EventCaptureSucceeded,
            EventVerifySucceeded, EventSucceededNoPublish],
           [EventStartCloning, EventCloneSucceeded, EventWorkSucceeded, EventCaptureSucceeded,
            EventVerifySucceeded, EventGateAccepted, EventPublishSucceeded],
           [EventStartCloning, EventCloneSucceeded, EventWorkSucceeded, EventCaptureSucceeded,
            EventVerifySucceeded, EventShadowRejected, EventPublishSucceeded]}"
    (is "_ \<longleftrightarrow> es \<in> ?words")
proof
  assume "lifecycle Pending es Succeeded"
  then show "es \<in> ?words" using lifecycle_histories by fastforce
next
  assume "es \<in> ?words"
  then show "lifecycle Pending es Succeeded"
    unfolding lifecycle_advance by (auto simp: advance_rows fsm_simps simp del: advance.simps(2))
qed


text \<open>
  C8. A terminal outcome is final: whatever events are observed afterwards, the machine keeps
  its phase, and every single event is refused with the terminal-phase error.
\<close>

theorem terminal_is_final:
  assumes "IsTerminal (phase_of m)"
  shows "observe (Some m) es = Some m \<and>
         Machine_Apply (Some m) e = (Some m, Some (ErrTerminalPhase (phase_of m)))"
  using assms observe_terminal by (simp add: Machine_Apply_def)

theorem terminal_is_final_witness:
  "observe (Some \<lparr>phase_of = UnknownEffect\<rparr>) [EventPublishSucceeded, EventFailed]
     = Some \<lparr>phase_of = UnknownEffect\<rparr> \<and>
   Machine_Apply (Some \<lparr>phase_of = UnknownEffect\<rparr>) EventPublishSucceeded
     = (Some \<lparr>phase_of = UnknownEffect\<rparr>,
        Some (ErrTerminalPhase (phase_of \<lparr>phase_of = UnknownEffect\<rparr>)))"
  by (rule terminal_is_final) simp


text \<open>
  C10. No run can be held open by events: an accepted history has at most seven events, and in
  every active phase the failure, cancellation and unknown-effect events are accepted and lead
  to their own terminal phase.
\<close>

theorem lifecycle_bounded:
  assumes "lifecycle p es q"
  shows "length es \<le> 7 \<and>
         (IsActive q \<longrightarrow> Apply q EventFailed = (Failed, None) \<and>
            Apply q EventCancelled = (Cancelled, None) \<and>
            Apply q EventUnknownEffect = (UnknownEffect, None))"
proof -
  have "rank p + length es \<le> 7"
    using lifecycle_rank [OF assms] rank_le order_trans by blast
  moreover have "IsActive q \<Longrightarrow> q \<in> set activePhases"
    by (cases q) (auto simp: IsActive_def activePhases_def)
  ultimately show ?thesis by (auto simp: Apply_Some_iff fsm_simps)
qed

theorem lifecycle_bounded_witness:
  "length [EventStartCloning] \<le> 7 \<and>
   Apply Cloning EventFailed = (Failed, None) \<and>
   Apply Cloning EventCancelled = (Cancelled, None) \<and>
   Apply Cloning EventUnknownEffect = (UnknownEffect, None)"
proof -
  have "lifecycle Pending [EventStartCloning] Cloning"
    unfolding lifecycle_advance by (simp add: advance_rows fsm_simps del: advance.simps(2))
  moreover have "IsActive Cloning" by code_simp
  ultimately show ?thesis using lifecycle_bounded [of Pending "[EventStartCloning]" Cloning] by blast
qed

end
