(* ===== verification/Scope_Glob.thy ===== *)
theory Scope_Glob
  imports Gateway_Prelude
begin

text \<open>
  The repository path contract and the scope globs of \<^verbatim>\<open>v3/internal/gate/glob.go\<close>. The matcher
  keeps the shape of the Go code: a recursive \<^verbatim>\<open>walk\<close> over a pattern index and a value index
  that records visited states and their results. It is proved equal to a matcher without the
  table, and both to a declarative meaning of the pattern's tokens.
\<close>

abbreviation slash :: rune where "slash \<equiv> 47"
abbreviation star :: rune where "star \<equiv> 42"
abbreviation question :: rune where "question \<equiv> 63"
abbreviation open_bracket :: rune where "open_bracket \<equiv> 91"
abbreviation close_bracket :: rune where "close_bracket \<equiv> 93"
abbreviation bang :: rune where "bang \<equiv> 33"
abbreviation caret :: rune where "caret \<equiv> 94"
abbreviation dash :: rune where "dash \<equiv> 45"

definition MaxPathBytes :: nat where "MaxPathBytes = 512"
definition MaxPatternBytes :: nat where "MaxPatternBytes = 512"

section \<open>Repository paths\<close>

definition isASCIIAlpha :: "char \<Rightarrow> bool" where
  "isASCIIAlpha c \<longleftrightarrow>
     (byte_of CHR ''a'' \<le> byte_of c \<and> byte_of c \<le> byte_of CHR ''z'') \<or>
     (byte_of CHR ''A'' \<le> byte_of c \<and> byte_of c \<le> byte_of CHR ''Z'')"

definition has_drive :: "string \<Rightarrow> bool" where
  "has_drive s \<longleftrightarrow> 2 \<le> length s \<and> isASCIIAlpha (s ! 0) \<and> s ! 1 = CHR '':''"

definition validRepoPath :: "string \<Rightarrow> bool" where
  "validRepoPath s \<longleftrightarrow>
     (if s = [] \<or> length s > MaxPathBytes \<or> \<not> utf8_valid s then False
      else if contains_byte s (CHR 0x00) \<or> contains_byte s (CHR 0x5C) then False
      else if has_prefix s ''/'' \<or> has_drive s then False
      else if has_suffix s ''/'' \<or> contains_sub s ''//'' then False
      else list_all (\<lambda>c. c \<noteq> [] \<and> c \<noteq> ''.'' \<and> c \<noteq> ''..'') (split_on (CHR ''/'') s))"

definition ValidateRepoPath :: "string \<Rightarrow> bool" where
  "ValidateRepoPath s = validRepoPath s"

section \<open>Bracket classes\<close>

text \<open>The index of the next closing bracket from an index on, or the pattern's length.\<close>

function close_from :: "rune list \<Rightarrow> nat \<Rightarrow> nat" where
  "close_from pat i =
     (if i < length pat \<and> pat ! i \<noteq> close_bracket then close_from pat (Suc i) else i)"
  by pat_completeness auto
termination by (relation "measure (\<lambda>(pat, i). length pat - i)") auto

declare close_from.simps [simp del]

definition classEnd :: "rune list \<Rightarrow> nat \<Rightarrow> nat \<times> bool" where
  "classEnd pat start =
     (if start \<ge> length pat \<or> pat ! start \<noteq> open_bracket then (0, False)
      else
        let index = start + 1;
            negated = index < length pat \<and> (pat ! index = bang \<or> pat ! index = caret);
            index = (if negated then index + 1 else index);
            leading = index < length pat \<and> pat ! index = close_bracket
        in if leading \<and> close_from pat (index + 1) = length pat then (0, False)
           else
             let end = close_from pat (if leading then index + 1 else index);
                 contentStart = (if negated then start + 2 else start + 1)
             in if end < length pat then (end, end > contentStart) else (0, False))"

text \<open>The members of a class: single runes, and ranges written with a dash between two runes.\<close>

fun class_found :: "rune list \<Rightarrow> rune \<Rightarrow> bool" where
  "class_found (a # b # c # cs) v =
     (if b = dash \<and> c \<noteq> close_bracket then (a \<le> v \<and> v \<le> c) \<or> class_found cs v
      else a = v \<or> class_found (b # c # cs) v)"
| "class_found (a # cs) v = (a = v \<or> class_found cs v)"
| "class_found [] v = False"

definition classMatches :: "rune list \<Rightarrow> rune \<Rightarrow> bool" where
  "classMatches cls v =
     (case cls of
        [] \<Rightarrow> False
      | c # cs \<Rightarrow>
          let negated = (c = bang \<or> c = caret);
              cls = (if negated then cs else c # cs)
          in case cls of
               [] \<Rightarrow> (if negated then True else False)
             | d # ds \<Rightarrow>
                 if d = close_bracket then
                   (if v = close_bracket then \<not> negated
                    else if negated then \<not> class_found ds v else class_found ds v)
                 else if negated then \<not> class_found (d # ds) v else class_found (d # ds) v)"

section \<open>Compiling a pattern\<close>

datatype glob_error =
  InvalidGlob | ForbiddenCharacter | NotRepositoryRelative | NegationUnsupported
  | Traversal | UnterminatedClass | ContainsNUL

lemma close_from_ge: "i \<le> close_from pat i"
proof (induction pat i rule: close_from.induct)
  case (1 pat i)
  then show ?case by (subst close_from.simps) auto
qed

lemma classEnd_gt: "classEnd pat start = (end, True) \<Longrightarrow> start < end \<and> end < length pat"
  using close_from_ge [of "start + 1" pat] close_from_ge [of "start + 2" pat]
    close_from_ge [of "start + 3" pat]
  by (auto simp: classEnd_def Let_def split: if_splits)

function scan_pattern :: "rune list \<Rightarrow> nat \<Rightarrow> glob_error option" where
  "scan_pattern pat i =
     (if i < length pat then
        if pat ! i = open_bracket then
          (case classEnd pat i of
             (end, ok) \<Rightarrow> if \<not> ok then Some UnterminatedClass else scan_pattern pat (Suc end))
        else if pat ! i = close_bracket \<or> pat ! i = star \<or> pat ! i = question \<or> pat ! i = slash
        then scan_pattern pat (Suc i)
        else if pat ! i = 0 then Some ContainsNUL
        else scan_pattern pat (Suc i)
      else None)"
  by pat_completeness auto
termination
  by (relation "measure (\<lambda>(pat, i). length pat - i)") (auto dest: classEnd_gt [OF sym])

declare scan_pattern.simps [simp del]

definition compileGlob :: "string \<Rightarrow> glob_error + rune list" where
  "compileGlob p =
     (if p = [] \<or> length p > MaxPatternBytes \<or> \<not> utf8_valid p then Inl InvalidGlob
      else if contains_byte p (CHR 0x00) \<or> contains_byte p (CHR 0x5C) then Inl ForbiddenCharacter
      else if has_prefix p ''/'' \<or> has_drive p \<or> has_suffix p ''/'' \<or> contains_sub p ''//''
      then Inl NotRepositoryRelative
      else if has_prefix p ''!'' then Inl NegationUnsupported
      else if list_ex (\<lambda>c. c = ''.'' \<or> c = ''..'' \<or> c = []) (split_on (CHR ''/'') p)
      then Inl Traversal
      else case scan_pattern (runes_of p) 0 of
             Some err \<Rightarrow> Inl err
           | None \<Rightarrow> Inr (runes_of p))"

section \<open>Matching\<close>

function star_end :: "rune list \<Rightarrow> nat \<Rightarrow> nat" where
  "star_end pat i = (if i < length pat \<and> pat ! i = star then star_end pat (Suc i) else i)"
  by pat_completeness auto
termination by (relation "measure (\<lambda>(pat, i). length pat - i)") auto

declare star_end.simps [simp del]

lemma star_end_ge: "i \<le> star_end pat i"
proof (induction pat i rule: star_end.induct)
  case (1 pat i)
  then show ?case by (subst star_end.simps) auto
qed

lemma star_end_gt: "i < length pat \<Longrightarrow> pat ! i = star \<Longrightarrow> i < star_end pat i"
  using star_end_ge [of "Suc i" pat] by (subst star_end.simps) simp

definition doubleStarComponent :: "rune list \<Rightarrow> nat \<Rightarrow> nat \<Rightarrow> bool" where
  "doubleStarComponent pat start end \<longleftrightarrow>
     (start = 0 \<or> pat ! (start - 1) = slash) \<and> (end = length pat \<or> pat ! end = slash)"

definition deep_star :: "rune list \<Rightarrow> nat \<Rightarrow> nat \<Rightarrow> bool" where
  "deep_star pat start end \<longleftrightarrow> end - start \<ge> 2 \<and> doubleStarComponent pat start end"

text \<open>
  The tables \<^verbatim>\<open>seen\<close> and \<^verbatim>\<open>memo\<close>; a missing entry of \<^verbatim>\<open>memo\<close> reads as \<^term>\<open>False\<close>.
\<close>

record walk_table =
  seen :: "nat \<times> nat \<Rightarrow> bool"
  memo :: "nat \<times> nat \<Rightarrow> bool"

definition empty_table :: walk_table where
  "empty_table = \<lparr>seen = (\<lambda>_. False), memo = (\<lambda>_. False)\<rparr>"

text \<open>A loop that tries one candidate index after another and stops at the first success.\<close>

fun first_match :: "(nat \<Rightarrow> walk_table \<Rightarrow> bool \<times> walk_table) \<Rightarrow> nat list \<Rightarrow> walk_table \<Rightarrow> bool \<times> walk_table"
where
  "first_match f [] t = (False, t)"
| "first_match f (n # ns) t =
     (case f n t of (True, t') \<Rightarrow> (True, t') | (False, t') \<Rightarrow> first_match f ns t')"

lemma first_match_cong [fundef_cong]:
  "ns = ms \<Longrightarrow> t = u \<Longrightarrow> (\<And>n v. n \<in> set ms \<Longrightarrow> f n v = g n v) \<Longrightarrow>
   first_match f ns t = first_match g ms u"
proof (induction ns arbitrary: ms t u)
  case Nil
  then show ?case by auto
next
  case (Cons n ns)
  then show ?case by (auto split: prod.split bool.split)
qed

text \<open>
  The value indices the three loops of \<^verbatim>\<open>walk\<close> try: after each separator, every index to the
  end, and every index up to and including the next separator.
\<close>

definition after_slashes :: "rune list \<Rightarrow> nat \<Rightarrow> nat list" where
  "after_slashes val v = map Suc (filter (\<lambda>n. val ! n = slash) [v..<length val])"

definition all_ends :: "rune list \<Rightarrow> nat \<Rightarrow> nat list" where
  "all_ends val v = [v..<Suc (length val)]"

definition segment_ends :: "rune list \<Rightarrow> nat \<Rightarrow> nat list" where
  "segment_ends val v =
     takeWhile (\<lambda>n. n = v \<or> val ! (n - 1) \<noteq> slash) [v..<Suc (length val)]"

text \<open>
  \<^verbatim>\<open>walk\<close>. The pattern index never passes the pattern's length; the comparison with \<open>\<ge>\<close>
  only makes the recursion total.
\<close>

function walk ::
  "rune list \<Rightarrow> rune list \<Rightarrow> nat \<Rightarrow> nat \<Rightarrow> walk_table \<Rightarrow> bool \<times> walk_table" where
  "walk pat val p v t =
     (if seen t (p, v) then (memo t (p, v), t)
      else
        let t = t\<lparr>seen := (seen t)((p, v) := True)\<rparr>;
            (result, t) =
              (if p \<ge> length pat then (v = length val, t)
               else if pat ! p = star then
                 (let starEnd = star_end pat p;
                      double = deep_star pat p starEnd
                  in if double \<and> starEnd < length pat \<and> pat ! starEnd = slash then
                       first_match (walk pat val (starEnd + 1)) (v # after_slashes val v) t
                     else if double then first_match (walk pat val starEnd) (all_ends val v) t
                     else first_match (walk pat val starEnd) (segment_ends val v) t)
               else if v \<ge> length val then (False, t)
               else if pat ! p = question then
                 (if val ! v \<noteq> slash then walk pat val (p + 1) (v + 1) t else (False, t))
               else if pat ! p = open_bracket then
                 (case classEnd pat p of
                    (end, ok) \<Rightarrow>
                      if ok \<and> val ! v \<noteq> slash \<and>
                         classMatches (take (end - (p + 1)) (drop (p + 1) pat)) (val ! v)
                      then walk pat val (end + 1) (v + 1) t else (False, t))
               else if pat ! p = val ! v then walk pat val (p + 1) (v + 1) t
               else (False, t))
        in (result, t\<lparr>memo := (memo t)((p, v) := result)\<rparr>))"
  by pat_completeness auto
termination
  by (relation "measure (\<lambda>(pat, val, p, v, t). length pat - p)")
    (auto dest: classEnd_gt [OF sym] intro!: diff_less_mono2 star_end_gt less_SucI)

declare walk.simps [simp del]

definition glob_match :: "rune list \<Rightarrow> rune list \<Rightarrow> bool" where
  "glob_match pat val = fst (walk pat val 0 0 empty_table)"

definition matchGlob :: "string \<Rightarrow> string \<Rightarrow> bool" where
  "matchGlob pattern value =
     (if \<not> validRepoPath value then False
      else case compileGlob pattern of
             Inl err \<Rightarrow> False
           | Inr pat \<Rightarrow> glob_match pat (runes_of value))"

definition MatchGlob :: "string \<Rightarrow> string \<Rightarrow> bool" where
  "MatchGlob pattern value = matchGlob pattern value"

section \<open>The matcher without its table\<close>

function walk_plain :: "rune list \<Rightarrow> rune list \<Rightarrow> nat \<Rightarrow> nat \<Rightarrow> bool" where
  "walk_plain pat val p v =
     (if p \<ge> length pat then v = length val
      else if pat ! p = star then
        (let starEnd = star_end pat p;
             double = deep_star pat p starEnd
         in if double \<and> starEnd < length pat \<and> pat ! starEnd = slash then
              list_ex (walk_plain pat val (starEnd + 1)) (v # after_slashes val v)
            else if double then list_ex (walk_plain pat val starEnd) (all_ends val v)
            else list_ex (walk_plain pat val starEnd) (segment_ends val v))
      else if v \<ge> length val then False
      else if pat ! p = question then
        (if val ! v \<noteq> slash then walk_plain pat val (p + 1) (v + 1) else False)
      else if pat ! p = open_bracket then
        (case classEnd pat p of
           (end, ok) \<Rightarrow>
             if ok \<and> val ! v \<noteq> slash \<and>
                classMatches (take (end - (p + 1)) (drop (p + 1) pat)) (val ! v)
             then walk_plain pat val (end + 1) (v + 1) else False)
      else if pat ! p = val ! v then walk_plain pat val (p + 1) (v + 1)
      else False)"
  by pat_completeness auto
termination
  by (relation "measure (\<lambda>(pat, val, p, v). length pat - p)")
    (auto dest: classEnd_gt [OF sym] intro!: diff_less_mono2 star_end_gt less_SucI)

declare walk_plain.simps [simp del]

text \<open>
  A table is sound from a pattern index on when every result it holds there is the plain one;
  a walk from an index leaves the entries below that index alone.
\<close>

definition table_sound :: "rune list \<Rightarrow> rune list \<Rightarrow> nat \<Rightarrow> walk_table \<Rightarrow> bool" where
  "table_sound pat val k t \<longleftrightarrow>
     (\<forall>p v. k \<le> p \<longrightarrow> seen t (p, v) \<longrightarrow> memo t (p, v) = walk_plain pat val p v)"

definition table_frame :: "nat \<Rightarrow> walk_table \<Rightarrow> walk_table \<Rightarrow> bool" where
  "table_frame k t u \<longleftrightarrow>
     (\<forall>p v. p < k \<longrightarrow> seen u (p, v) = seen t (p, v) \<and> memo u (p, v) = memo t (p, v))"

definition walks_to :: "rune list \<Rightarrow> rune list \<Rightarrow> nat \<Rightarrow> walk_table \<Rightarrow> bool \<Rightarrow> bool \<times> walk_table \<Rightarrow> bool"
where
  "walks_to pat val k t r res \<longleftrightarrow>
     fst res = r \<and> table_sound pat val k (snd res) \<and> table_frame k t (snd res)"

lemma table_frame_refl [simp]: "table_frame k t t"
  by (simp add: table_frame_def)

lemma table_frame_trans: "table_frame k t u \<Longrightarrow> table_frame k u w \<Longrightarrow> table_frame k t w"
  by (simp add: table_frame_def)

lemma walks_to_same: "table_sound pat val k t \<Longrightarrow> walks_to pat val k t r (r, t)"
  by (simp add: walks_to_def)

lemma first_match_walks:
  assumes "table_sound pat val k t"
    and "\<And>n u. n \<in> set ns \<Longrightarrow> table_sound pat val k u \<Longrightarrow> walks_to pat val k u (P n) (f n u)"
  shows "walks_to pat val k t (list_ex P ns) (first_match f ns t)"
  using assms
proof (induction ns arbitrary: t)
  case Nil
  then show ?case by (simp add: walks_to_same)
next
  case (Cons n ns)
  obtain r u where fn: "f n t = (r, u)" by fastforce
  have step: "walks_to pat val k t (P n) (r, u)"
    using Cons.prems fn by (metis list.set_intros(1))
  show ?case
  proof (cases r)
    case True
    with step fn show ?thesis by (simp add: walks_to_def)
  next
    case False
    have "walks_to pat val k u (list_ex P ns) (first_match f ns u)"
      using Cons.prems(2) step by (intro Cons.IH) (auto simp: walks_to_def)
    with step False fn show ?thesis
      by (auto simp: walks_to_def intro: table_frame_trans)
  qed
qed

lemma table_sound_mark:
  "table_sound pat val p t \<Longrightarrow> p < k \<Longrightarrow>
   table_sound pat val k (t\<lparr>seen := (seen t)((p, v) := True)\<rparr>)"
  by (simp add: table_sound_def)

lemma walks_to_record:
  assumes "table_sound pat val p t" and "p < k"
    and "walks_to pat val k (t\<lparr>seen := (seen t)((p, v) := True)\<rparr>) (walk_plain pat val p v) (r, u)"
  shows "walks_to pat val p t (walk_plain pat val p v) (r, u\<lparr>memo := (memo u)((p, v) := r)\<rparr>)"
proof -
  have r: "r = walk_plain pat val p v" and u: "table_sound pat val k u"
    and f: "table_frame k (t\<lparr>seen := (seen t)((p, v) := True)\<rparr>) u"
    using assms(3) by (auto simp: walks_to_def)
  have "table_sound pat val p (u\<lparr>memo := (memo u)((p, v) := r)\<rparr>)"
    unfolding table_sound_def
  proof (intro allI impI)
    fix q w
    assume "p \<le> q" and s: "seen (u\<lparr>memo := (memo u)((p, v) := r)\<rparr>) (q, w)"
    show "memo (u\<lparr>memo := (memo u)((p, v) := r)\<rparr>) (q, w) = walk_plain pat val q w"
    proof (cases "(q, w) = (p, v)")
      case True
      then show ?thesis using r by simp
    next
      case False
      then show ?thesis
        using s u f assms(1) \<open>p \<le> q\<close>
        by (cases "k \<le> q") (auto simp: table_sound_def table_frame_def)
    qed
  qed
  moreover have "table_frame p t (u\<lparr>memo := (memo u)((p, v) := r)\<rparr>)"
    using f assms(2) by (auto simp: table_frame_def)
  ultimately show ?thesis using r by (simp add: walks_to_def)
qed

lemma walk_records:
  assumes "\<not> seen t (p, v)" and "table_sound pat val p t" and "p < k"
    and "walk pat val p v t = (case X of (r, u) \<Rightarrow> (r, u\<lparr>memo := (memo u)((p, v) := r)\<rparr>))"
    and "walks_to pat val k (t\<lparr>seen := (seen t)((p, v) := True)\<rparr>) (walk_plain pat val p v) X"
  shows "walks_to pat val p t (walk_plain pat val p v) (walk pat val p v t)"
  using assms walks_to_record [of pat val p t k v] by (cases X) simp

text \<open>One unfolding of \<^const>\<open>walk\<close>, given what it does for later pattern indices.\<close>

abbreviation walk_ih :: "rune list \<Rightarrow> rune list \<Rightarrow> nat \<Rightarrow> bool" where
  "walk_ih pat val p \<equiv>
     \<forall>q w u. p < q \<longrightarrow> table_sound pat val q u \<longrightarrow>
       walks_to pat val q u (walk_plain pat val q w) (walk pat val q w u)"

lemma walk_star_walks:
  assumes unseen: "\<not> seen t (p, v)" and sound: "table_sound pat val p t"
    and IH: "walk_ih pat val p" and len: "p < length pat" and st: "pat ! p = star"
  shows "walks_to pat val p t (walk_plain pat val p v) (walk pat val p v t)"
proof -
  define t1 where "t1 = t\<lparr>seen := (seen t)((p, v) := True)\<rparr>"
  have t1: "table_sound pat val k t1" if "p < k" for k
    using table_sound_mark [OF sound that] by (simp add: t1_def)
  note recorded = walk_records [OF unseen sound, folded t1_def]
  note unfold = walk.simps [of pat val p v t] walk_plain.simps [of pat val p v]
  let ?e = "star_end pat p"
  have e: "p < ?e" using star_end_gt len st by blast
  consider (dir) "deep_star pat p ?e" "?e < length pat" "pat ! ?e = slash"
    | (deep) "deep_star pat p ?e" "length pat \<le> ?e"
    | (seg) "\<not> deep_star pat p ?e"
    unfolding deep_star_def doubleStarComponent_def by (metis not_le order_refl)
  then show ?thesis
  proof cases
    case dir
    then show ?thesis
      using st len e IH
      by (intro recorded [of "Suc ?e" "first_match (walk pat val (?e + 1)) (v # after_slashes val v) t1"])
        (simp_all add: unfold unseen t1_def [symmetric] Let_def first_match_walks t1
          del: first_match.simps list_ex_Cons_iff)
  next
    case deep
    then show ?thesis
      using st len e IH
      by (intro recorded [of ?e "first_match (walk pat val ?e) (all_ends val v) t1"])
        (simp_all add: unfold unseen t1_def [symmetric] Let_def first_match_walks t1)
  next
    case seg
    then show ?thesis
      using st len e IH
      by (intro recorded [of ?e "first_match (walk pat val ?e) (segment_ends val v) t1"])
        (simp_all add: unfold unseen t1_def [symmetric] Let_def first_match_walks t1)
  qed
qed

lemma walk_token_walks:
  assumes unseen: "\<not> seen t (p, v)" and sound: "table_sound pat val p t"
    and IH: "walk_ih pat val p" and len: "p < length pat" and st: "pat ! p \<noteq> star"
  shows "walks_to pat val p t (walk_plain pat val p v) (walk pat val p v t)"
proof -
  define t1 where "t1 = t\<lparr>seen := (seen t)((p, v) := True)\<rparr>"
  have t1: "table_sound pat val k t1" if "p < k" for k
    using table_sound_mark [OF sound that] by (simp add: t1_def)
  note recorded = walk_records [OF unseen sound, folded t1_def]
  note unfold = walk.simps [of pat val p v t] walk_plain.simps [of pat val p v]
  let ?rec = "\<lambda>(r, u). (r, u\<lparr>memo := (memo u)((p, v) := r)\<rparr>)"
  obtain e ok where ce: "classEnd pat p = (e, ok)" by fastforce
  have "(\<exists>q>p. walk pat val p v t = ?rec (walk pat val q (v + 1) t1) \<and>
           walk_plain pat val p v = walk_plain pat val q (v + 1)) \<or>
        (walk pat val p v t = ?rec (False, t1) \<and> \<not> walk_plain pat val p v)"
    using st len ce classEnd_gt [of pat p e]
    by (cases ok; cases "length val \<le> v")
      (auto simp: unfold unseen t1_def [symmetric] intro: less_SucI)
  then consider (step) q where "p < q"
      "walk pat val p v t = ?rec (walk pat val q (v + 1) t1)"
      "walk_plain pat val p v = walk_plain pat val q (v + 1)"
    | (stuck) "walk pat val p v t = ?rec (False, t1)" "\<not> walk_plain pat val p v"
    by blast
  then show ?thesis
  proof cases
    case step
    then show ?thesis
      using IH t1 [OF step(1)] by (intro recorded [OF step(1,2)]) simp
  next
    case stuck
    then show ?thesis
      using recorded [OF lessI stuck(1)] t1 [OF lessI] by (simp add: walks_to_same)
  qed
qed

lemma walk_walks_to:
  "table_sound pat val p t \<Longrightarrow> walks_to pat val p t (walk_plain pat val p v) (walk pat val p v t)"
proof (induction "length pat - p" arbitrary: p v t rule: less_induct)
  case less
  show ?case
  proof (cases "seen t (p, v)")
    case True
    with less.prems show ?thesis
      by (subst walk.simps) (simp add: table_sound_def walks_to_def)
  next
    case unseen: False
    show ?thesis
    proof (cases "p < length pat")
      case True
      then have "walk_ih pat val p" using less.hyps by simp
      then show ?thesis
        using walk_star_walks walk_token_walks unseen less.prems True by blast
    next
      case False
      then show ?thesis
        using walk_records [OF unseen less.prems lessI, of "(v = length val, t\<lparr>seen := (seen t)((p, v) := True)\<rparr>)"]
          table_sound_mark [OF less.prems lessI]
        by (simp add: walk.simps [of pat val p v t] walk_plain.simps [of pat val p v] unseen walks_to_same)
    qed
  qed
qed

lemma glob_match_plain: "glob_match pat val = walk_plain pat val 0 0"
proof -
  have "table_sound pat val 0 empty_table" by (simp add: table_sound_def empty_table_def)
  then show ?thesis
    using walk_walks_to [of pat val 0 empty_table 0] by (simp add: glob_match_def walks_to_def)
qed

section \<open>What a pattern means\<close>

datatype glob_token = Literal rune | AnyRune | Bracket "rune list" | Star | Deep | DeepDir

function tokens_from :: "rune list \<Rightarrow> nat \<Rightarrow> glob_token list" where
  "tokens_from pat p =
     (if p \<ge> length pat then []
      else if pat ! p = star then
        (let e = star_end pat p
         in if deep_star pat p e \<and> e < length pat \<and> pat ! e = slash
            then DeepDir # tokens_from pat (e + 1)
            else if deep_star pat p e then Deep # tokens_from pat e
            else Star # tokens_from pat e)
      else if pat ! p = question then AnyRune # tokens_from pat (p + 1)
      else if pat ! p = open_bracket then
        (case classEnd pat p of
           (e, ok) \<Rightarrow>
             if ok then Bracket (take (e - (p + 1)) (drop (p + 1) pat)) # tokens_from pat (e + 1)
             else [Bracket []])
      else Literal (pat ! p) # tokens_from pat (p + 1))"
  by pat_completeness auto
termination
  by (relation "measure (\<lambda>(pat, p). length pat - p)")
    (auto dest: classEnd_gt [OF sym] intro!: diff_less_mono2 star_end_gt less_SucI)

declare tokens_from.simps [simp del]

fun denotes :: "glob_token list \<Rightarrow> rune list \<Rightarrow> bool" where
  "denotes [] w \<longleftrightarrow> w = []"
| "denotes (Literal c # ts) w \<longleftrightarrow> (\<exists>w'. w = c # w' \<and> denotes ts w')"
| "denotes (AnyRune # ts) w \<longleftrightarrow> (\<exists>c w'. w = c # w' \<and> c \<noteq> slash \<and> denotes ts w')"
| "denotes (Bracket cls # ts) w \<longleftrightarrow>
     (\<exists>c w'. w = c # w' \<and> c \<noteq> slash \<and> classMatches cls c \<and> denotes ts w')"
| "denotes (Star # ts) w \<longleftrightarrow> (\<exists>u w'. w = u @ w' \<and> slash \<notin> set u \<and> denotes ts w')"
| "denotes (Deep # ts) w \<longleftrightarrow> (\<exists>u w'. w = u @ w' \<and> denotes ts w')"
| "denotes (DeepDir # ts) w \<longleftrightarrow>
     (\<exists>u w'. w = u @ w' \<and> (u = [] \<or> last u = slash) \<and> denotes ts w')"

lemma mem_takeWhile_upt:
  "x \<in> set (takeWhile P [a..<b]) \<longleftrightarrow> a \<le> x \<and> x < b \<and> (\<forall>m. a \<le> m \<and> m \<le> x \<longrightarrow> P m)"
proof (induction "b - a" arbitrary: a)
  case 0
  then show ?case by auto
next
  case (Suc n)
  then have "[a..<b] = a # [Suc a..<b]" and "n = b - Suc a" and "a < b"
    by (auto simp: upt_conv_Cons)
  with Suc.hyps(1) [of "Suc a"] show ?case
    by (auto simp: less_eq_Suc_le) (metis Suc_leI le_neq_implies_less)+
qed

lemma ex_split_at:
  assumes "v \<le> length val"
  shows "(\<exists>u w. drop v val = u @ w \<and> P u \<and> Q w) \<longleftrightarrow>
         (\<exists>n. v \<le> n \<and> n \<le> length val \<and> P (take (n - v) (drop v val)) \<and> Q (drop n val))"
proof
  assume "\<exists>u w. drop v val = u @ w \<and> P u \<and> Q w"
  then obtain u w where d: "drop v val = u @ w" and pq: "P u" "Q w" by blast
  have "length u + length w = length val - v" using arg_cong [OF d, of length] by simp
  moreover have "drop (v + length u) val = w"
    using d by (metis add.commute append_eq_conv_conj drop_drop)
  ultimately show "\<exists>n. v \<le> n \<and> n \<le> length val \<and> P (take (n - v) (drop v val)) \<and> Q (drop n val)"
    using d pq assms by (intro exI [of _ "v + length u"]) auto
next
  assume "\<exists>n. v \<le> n \<and> n \<le> length val \<and> P (take (n - v) (drop v val)) \<and> Q (drop n val)"
  then obtain n where n: "v \<le> n" "n \<le> length val" "P (take (n - v) (drop v val))" "Q (drop n val)"
    by blast
  have "drop v val = take (n - v) (drop v val) @ drop n val"
    using n(1) by (metis append_take_drop_id drop_drop le_add_diff_inverse2)
  with n show "\<exists>u w. drop v val = u @ w \<and> P u \<and> Q w" by blast
qed

lemma mem_segment_ends:
  "n \<in> set (segment_ends val v) \<longleftrightarrow>
     v \<le> n \<and> n \<le> length val \<and> slash \<notin> set (take (n - v) (drop v val))"
proof -
  have "(\<forall>m. v \<le> m \<and> m \<le> n \<longrightarrow> m = v \<or> val ! (m - 1) \<noteq> slash) \<longleftrightarrow>
        slash \<notin> set (take (n - v) (drop v val))" if "v \<le> n" "n \<le> length val"
  proof
    assume L: "\<forall>m. v \<le> m \<and> m \<le> n \<longrightarrow> m = v \<or> val ! (m - 1) \<noteq> slash"
    show "slash \<notin> set (take (n - v) (drop v val))"
    proof
      assume "slash \<in> set (take (n - v) (drop v val))"
      then obtain i where i: "i < n - v" "val ! (v + i) = slash"
        using that by (auto simp: in_set_conv_nth)
      then have "Suc (v + i) \<le> n" by linarith
      with L [rule_format, of "Suc (v + i)"] i show False by simp
    qed
  next
    assume R: "slash \<notin> set (take (n - v) (drop v val))"
    show "\<forall>m. v \<le> m \<and> m \<le> n \<longrightarrow> m = v \<or> val ! (m - 1) \<noteq> slash"
    proof (intro allI impI)
      fix m
      assume m: "v \<le> m \<and> m \<le> n"
      show "m = v \<or> val ! (m - 1) \<noteq> slash"
      proof (rule ccontr)
        assume "\<not> (m = v \<or> val ! (m - 1) \<noteq> slash)"
        with m that have "take (n - v) (drop v val) ! (m - 1 - v) = slash"
          and "m - 1 - v < length (take (n - v) (drop v val))" by auto
        with R show False by (metis nth_mem)
      qed
    qed
  qed
  then show ?thesis
    unfolding segment_ends_def mem_takeWhile_upt by (auto simp: less_Suc_eq_le)
qed

lemma mem_dir_ends:
  assumes "v \<le> length val"
  shows "n \<in> set (v # after_slashes val v) \<longleftrightarrow>
     v \<le> n \<and> n \<le> length val \<and>
     (take (n - v) (drop v val) = [] \<or> last (take (n - v) (drop v val)) = slash)"
proof (cases "v < n \<and> n \<le> length val")
  case True
  then have "take (n - v) (drop v val) \<noteq> []" by simp
  moreover have "last (take (n - v) (drop v val)) = val ! (n - 1)"
    using True by (subst last_conv_nth) auto
  moreover have "n \<in> set (after_slashes val v) \<longleftrightarrow> val ! (n - 1) = slash"
    using True by (cases n) (auto simp: after_slashes_def)
  ultimately show ?thesis using True by auto
next
  case False
  then show ?thesis using assms by (auto simp: after_slashes_def)
qed

lemma mem_all_ends: "n \<in> set (all_ends val v) \<longleftrightarrow> v \<le> n \<and> n \<le> length val"
  by (auto simp: all_ends_def)

lemma list_ex_ends:
  assumes "v \<le> length val" and "\<And>n. n \<le> length val \<Longrightarrow> W n \<longleftrightarrow> Q (drop n val)"
  shows "list_ex W (v # after_slashes val v) \<longleftrightarrow>
           (\<exists>u w. drop v val = u @ w \<and> (u = [] \<or> last u = slash) \<and> Q w)"
    and "list_ex W (all_ends val v) \<longleftrightarrow> (\<exists>u w. drop v val = u @ w \<and> Q w)"
    and "list_ex W (segment_ends val v) \<longleftrightarrow>
           (\<exists>u w. drop v val = u @ w \<and> slash \<notin> set u \<and> Q w)"
proof -
  note sp = ex_split_at [OF assms(1)]
  show "list_ex W (v # after_slashes val v) \<longleftrightarrow>
           (\<exists>u w. drop v val = u @ w \<and> (u = [] \<or> last u = slash) \<and> Q w)"
    unfolding list_ex_iff sp [where P = "\<lambda>u. u = [] \<or> last u = slash"] Bex_def
      mem_dir_ends [OF assms(1)] using assms(2) by blast
  show "list_ex W (all_ends val v) \<longleftrightarrow> (\<exists>u w. drop v val = u @ w \<and> Q w)"
    unfolding list_ex_iff sp [where P = "\<lambda>u. True", simplified] Bex_def mem_all_ends
    using assms(2) by blast
  show "list_ex W (segment_ends val v) \<longleftrightarrow>
           (\<exists>u w. drop v val = u @ w \<and> slash \<notin> set u \<and> Q w)"
    unfolding list_ex_iff sp [where P = "\<lambda>u. slash \<notin> set u"] Bex_def mem_segment_ends
    using assms(2) by blast
qed

lemma classMatches_Nil [simp]: "\<not> classMatches [] c"
  by (simp add: classMatches_def)

lemma walk_plain_denotes:
  "v \<le> length val \<Longrightarrow> walk_plain pat val p v \<longleftrightarrow> denotes (tokens_from pat p) (drop v val)"
proof (induction "length pat - p" arbitrary: p v rule: less_induct)
  case less
  note unfold = walk_plain.simps [of pat val p v] tokens_from.simps [of pat p]
  show ?case
  proof (cases "p < length pat")
    case False
    then show ?thesis using less.prems by (auto simp: unfold)
  next
    case len: True
    then have IH: "walk_plain pat val q n \<longleftrightarrow> denotes (tokens_from pat q) (drop n val)"
      if "p < q" "n \<le> length val" for q n
      using less.hyps [of q n] that by simp
    show ?thesis
    proof (cases "pat ! p = star")
      case st: True
      let ?e = "star_end pat p"
      have e: "p < ?e" using star_end_gt len st by blast
      note ends =
        list_ex_ends [where W = "walk_plain pat val ?e" and Q = "denotes (tokens_from pat ?e)",
          OF less.prems IH [OF e]]
        list_ex_ends [where W = "walk_plain pat val (Suc ?e)"
          and Q = "denotes (tokens_from pat (Suc ?e))", OF less.prems IH [OF less_SucI [OF e]]]
      show ?thesis
        using st len by (simp add: unfold Let_def ends del: list_ex_Cons_iff)
    next
      case tok: False
      show ?thesis
      proof (cases "v < length val")
        case True
        then have "drop v val = val ! v # drop (v + 1) val" by (simp add: Cons_nth_drop_Suc)
        then show ?thesis
          using tok len True classEnd_gt [of pat p]
          by (auto simp: unfold IH split: prod.split)
      next
        case False
        then have "length val \<le> v" and "drop v val = []" by simp_all
        then show ?thesis using tok len by (simp add: unfold split: prod.split)
      qed
    qed
  qed
qed

lemma denotes_separators:
  "denotes ts w \<Longrightarrow> Deep \<notin> set ts \<Longrightarrow> DeepDir \<notin> set ts \<Longrightarrow>
   count_list w slash = count_list ts (Literal slash)"
proof (induction ts w rule: denotes.induct)
  case (5 ts w)
  then obtain u w' where "w = u @ w'" "slash \<notin> set u" "denotes ts w'" by auto
  with 5 show ?case by (simp add: count_list_0_iff)
qed auto

section \<open>Properties\<close>

text \<open>
  C11. The table of visited states changes no answer: the matcher with its \<^verbatim>\<open>seen\<close> and \<^verbatim>\<open>memo\<close>
  maps returns what plain backtracking over pattern and value returns.
\<close>

theorem glob_match_memo_transparent: "glob_match pat val = walk_plain pat val 0 0"
  by (rule glob_match_plain)

text \<open>
  C12. A scope glob matches a value exactly when the value is a valid repository path, the
  pattern compiles, and the value is in the language of the pattern's tokens, where \<^verbatim>\<open>*\<close> and
  \<^verbatim>\<open>?\<close> and classes stay inside a path component and a component \<^verbatim>\<open>**\<close> crosses components.
\<close>

theorem matchGlob_meaning:
  "matchGlob pattern value \<longleftrightarrow>
     validRepoPath value \<and>
     (\<exists>pat. compileGlob pattern = Inr pat \<and> denotes (tokens_from pat 0) (runes_of value))"
  using walk_plain_denotes [of 0]
  by (auto simp: matchGlob_def glob_match_plain split: sum.splits)

text \<open>
  C13. A pattern without a component \<^verbatim>\<open>**\<close> cannot reach into other directories: the paths it
  matches have exactly the separators the pattern spells out.
\<close>

theorem matchGlob_same_depth:
  assumes "matchGlob pattern value" and "compileGlob pattern = Inr pat"
    and "Deep \<notin> set (tokens_from pat 0)" and "DeepDir \<notin> set (tokens_from pat 0)"
  shows "count_list (runes_of value) slash = count_list (tokens_from pat 0) (Literal slash)"
proof -
  have "denotes (tokens_from pat 0) (runes_of value)"
    using assms(1,2) walk_plain_denotes [of 0]
    by (auto simp: matchGlob_def glob_match_plain split: if_splits)
  then show ?thesis using assms(3,4) by (rule denotes_separators)
qed

theorem matchGlob_same_depth_witness:
  "matchGlob ''a/*.go'' ''a/b.go'' \<and>
   count_list (runes_of ''a/b.go'') slash = count_list (tokens_from (runes_of ''a/*.go'') 0) (Literal slash)"
proof -
  have m: "matchGlob ''a/*.go'' ''a/b.go''" by code_simp
  have c: "compileGlob ''a/*.go'' = Inr (runes_of ''a/*.go'')" by code_simp
  have d: "Deep \<notin> set (tokens_from (runes_of ''a/*.go'') 0)" by code_simp
  have e: "DeepDir \<notin> set (tokens_from (runes_of ''a/*.go'') 0)" by code_simp
  show ?thesis using m matchGlob_same_depth [OF m c d e] by blast
qed

end
