(* ===== verification/Coverage_Policy.thy ===== *)
theory Coverage_Policy
  imports Gateway_Prelude
begin

text \<open>
  The coverage requirement of \<^verbatim>\<open>v3/internal/gate/coverage.go\<close>: bounded decimal text, its exact
  rational value, the five comparison operators, and the canonical decimal text the signed
  report carries. \<^verbatim>\<open>big.Rat\<close> is \<^typ>\<open>rat\<close>; the regular expression \<^verbatim>\<open>decimalPattern\<close> is the
  predicate \<open>decimal_shape\<close>.
\<close>

datatype coverageOperator =
  coverageGreaterEqual | coverageGreater | coverageEqual | coverageLessEqual | coverageLess

section \<open>Decimal text\<close>

text \<open>\<^verbatim>\<open>0|[1-9][0-9]*\<close>\<close>

definition integer_shape :: "string \<Rightarrow> bool" where
  "integer_shape s \<longleftrightarrow> s = ''0'' \<or> (s \<noteq> [] \<and> list_all is_digit s \<and> hd s \<noteq> CHR ''0'')"

text \<open>\<^verbatim>\<open>^-?(0|[1-9][0-9]*)(\.[0-9]+)?$\<close>\<close>

definition strip_minus :: "string \<Rightarrow> string" where
  "strip_minus s = (if has_prefix s ''-'' then drop 1 s else s)"

definition int_part :: "string \<Rightarrow> string" where
  "int_part s = takeWhile (\<lambda>c. c \<noteq> CHR ''.'') s"

definition frac_part :: "string \<Rightarrow> string option" where
  "frac_part s =
     (case dropWhile (\<lambda>c. c \<noteq> CHR ''.'') s of [] \<Rightarrow> None | _ # f \<Rightarrow> Some f)"

definition decimal_shape :: "string \<Rightarrow> bool" where
  "decimal_shape s \<longleftrightarrow>
     integer_shape (int_part (strip_minus s)) \<and>
     (case frac_part (strip_minus s) of None \<Rightarrow> True | Some f \<Rightarrow> f \<noteq> [] \<and> list_all is_digit f)"

definition digit_value :: "char \<Rightarrow> nat" where
  "digit_value c = byte_of c - 48"

definition digits_value :: "string \<Rightarrow> nat" where
  "digits_value s = foldl (\<lambda>n c. 10 * n + digit_value c) 0 s"

text \<open>The value \<^verbatim>\<open>big.Rat.SetString\<close> gives to text of that shape.\<close>

definition decimal_value :: "string \<Rightarrow> rat" where
  "decimal_value s =
     (let body = strip_minus s;
          frac = (case frac_part body of None \<Rightarrow> [] | Some f \<Rightarrow> f);
          magnitude = of_nat (digits_value (int_part body @ frac)) / 10 ^ length frac
      in if has_prefix s ''-'' then - magnitude else magnitude)"

definition parseDecimal :: "string \<Rightarrow> rat option" where
  "parseDecimal s =
     (if s = [] \<or> length s > 64 \<or> \<not> decimal_shape s then None else Some (decimal_value s))"

section \<open>Requirements\<close>

definition coverage_operators :: "(string \<times> coverageOperator) list" where
  "coverage_operators =
     [(''>='', coverageGreaterEqual), (''<='', coverageLessEqual), (''=='', coverageEqual),
      (''>'', coverageGreater), (''<'', coverageLess)]"

definition parseCoverageRequirement :: "string \<Rightarrow> (coverageOperator \<times> rat) option" where
  "parseCoverageRequirement s =
     (if s = [] \<or> length s > 64 then None
      else
        let value = trim_space s
        in case List.find (\<lambda>(prefix, op). has_prefix value prefix) coverage_operators of
             None \<Rightarrow> None
           | Some (prefix, op) \<Rightarrow>
               (case parseDecimal (trim_space (trim_prefix value prefix)) of
                  None \<Rightarrow> None
                | Some parsed \<Rightarrow> Some (op, parsed)))"

definition validCoverageRequirement :: "string \<Rightarrow> bool" where
  "validCoverageRequirement s \<longleftrightarrow> parseCoverageRequirement s \<noteq> None"

fun operator_holds :: "coverageOperator \<Rightarrow> rat \<Rightarrow> rat \<Rightarrow> bool" where
  "operator_holds coverageGreaterEqual actual expected = (actual \<ge> expected)"
| "operator_holds coverageGreater actual expected = (actual > expected)"
| "operator_holds coverageEqual actual expected = (actual = expected)"
| "operator_holds coverageLessEqual actual expected = (actual \<le> expected)"
| "operator_holds coverageLess actual expected = (actual < expected)"

definition coverageSatisfies :: "string \<Rightarrow> string \<Rightarrow> bool" where
  "coverageSatisfies requirement observed =
     (case parseCoverageRequirement requirement of
        None \<Rightarrow> False
      | Some (operator, expected) \<Rightarrow>
          (case parseDecimal observed of
             None \<Rightarrow> False
           | Some actual \<Rightarrow> operator_holds operator actual expected))"

section \<open>Canonical text\<close>

definition normalizeDecimal :: "string \<Rightarrow> string option" where
  "normalizeDecimal s =
     (if parseDecimal s = None then None
      else
        let negative = has_prefix s ''-'';
            body = strip_minus s;
            integer = trim_left_byte (CHR ''0'') (int_part body);
            integer = (if integer = [] then ''0'' else integer);
            fraction = (case frac_part body of
                          None \<Rightarrow> [] | Some f \<Rightarrow> trim_right_byte (CHR ''0'') f)
        in if fraction = [] then
             (if integer = ''0'' then Some ''0''
              else if negative then Some (''-'' @ integer) else Some integer)
           else
             let result = integer @ ''.'' @ fraction
             in if negative \<and> result \<noteq> ''0'' then Some (''-'' @ result) else Some result)"

section \<open>Digit strings\<close>

lemma digits_value_Nil [simp]: "digits_value [] = 0"
  by (simp add: digits_value_def)

lemma digits_value_snoc [simp]: "digits_value (s @ [c]) = 10 * digits_value s + digit_value c"
  by (simp add: digits_value_def)

lemma digits_value_append:
  "digits_value (s @ t) = digits_value s * 10 ^ length t + digits_value t"
proof (induction t rule: rev_induct)
  case (snoc c t)
  then show ?case
    using digits_value_snoc [of "s @ t" c] by (simp add: algebra_simps)
qed simp

lemma digit_value_less: "is_digit c \<Longrightarrow> digit_value c < 10"
  by (auto simp: is_digit_def digit_value_def)

lemma digit_value_inj: "is_digit c \<Longrightarrow> is_digit d \<Longrightarrow> digit_value c = digit_value d \<Longrightarrow> c = d"
  by (auto simp: is_digit_def digit_value_def) (metis diff_diff_cancel diff_is_0_eq le_antisym
      le_add_diff_inverse2 char_of_char)

lemma digits_value_less: "list_all is_digit s \<Longrightarrow> digits_value s < 10 ^ length s"
proof (induction s rule: rev_induct)
  case (snoc c s)
  then have "digits_value s + 1 \<le> 10 ^ length s" "digit_value c < 10"
    by (auto simp: digit_value_less)
  then show ?case by simp
qed simp

lemma digits_value_inj:
  "length s = length t \<Longrightarrow> list_all is_digit s \<Longrightarrow> list_all is_digit t \<Longrightarrow>
   digits_value s = digits_value t \<Longrightarrow> s = t"
proof (induction s arbitrary: t rule: rev_induct)
  case (snoc c s)
  then obtain d t' where t: "t = t' @ [d]"
    by (metis append_butlast_last_id length_0_conv snoc_eq_iff_butlast)
  with snoc.prems have eq: "10 * digits_value s + digit_value c = 10 * digits_value t' + digit_value d"
    and lt: "digit_value c < 10" "digit_value d < 10"
    by (simp_all add: digit_value_less)
  then have "digits_value s = digits_value t'" and "digit_value c = digit_value d" by presburger+
  with snoc t show ?case using digit_value_inj by auto
qed simp

lemma digits_value_ge:
  assumes "list_all is_digit s" and "s \<noteq> []" and "hd s \<noteq> CHR ''0''"
  shows "10 ^ (length s - 1) \<le> digits_value s"
proof -
  obtain c r where s: "s = c # r" using assms(2) by (cases s) auto
  have "digit_value c \<noteq> 0"
    using assms(1,3) s digit_value_inj [of c "CHR ''0''"] by (auto simp: is_digit_def digit_value_def)
  then have "1 * 10 ^ length r \<le> digit_value c * 10 ^ length r" by (intro mult_le_mono1) simp
  then have "10 ^ length r \<le> digit_value c * 10 ^ length r + digits_value r" by linarith
  then show ?thesis
    using s digits_value_append [of "[c]" r] digits_value_snoc [of "[]" c] by simp
qed

lemma digits_zero: "is_digit (CHR ''0'')" "digit_value (CHR ''0'') = 0" "digits_value ''0'' = 0"
  using digits_value_snoc [of "[]" "CHR ''0''"] by (simp_all add: is_digit_def digit_value_def)

lemma integer_shape_digits: "integer_shape s \<Longrightarrow> list_all is_digit s"
  using digits_zero by (auto simp: integer_shape_def)

lemma integer_shape_inj:
  assumes "integer_shape s" and "integer_shape t" and "digits_value s = digits_value t"
  shows "s = t"
proof -
  have pos: "r = ''0'' \<or> (0 < digits_value r \<and> 10 ^ (length r - 1) \<le> digits_value r \<and>
        digits_value r < 10 ^ length r)" if "integer_shape r" for r
    using that digits_value_ge [of r] digits_value_less [of r]
    by (auto simp: integer_shape_def intro: less_le_trans [of 0 "10 ^ (length r - 1)"])
  have "length s = length t"
  proof (rule ccontr)
    assume "length s \<noteq> length t"
    moreover have False if "integer_shape a" "integer_shape b" "digits_value a = digits_value b"
      "length a < length b" for a b
    proof -
      have b: "b \<noteq> ''0''" using that(1,4) by (auto simp: integer_shape_def)
      then have a: "a \<noteq> ''0''" using pos [OF that(2)] that(3) digits_zero(3) by auto
      have "(10::nat) ^ length a \<le> 10 ^ (length b - 1)" using that(4) by (intro power_increasing) auto
      moreover have "digits_value a < 10 ^ length a" "10 ^ (length b - 1) \<le> digits_value b"
        using pos [OF that(1)] pos [OF that(2)] a b by blast+
      ultimately show False using that(3) by linarith
    qed
    ultimately show False using assms by (metis nat_neq_iff)
  qed
  then show ?thesis using assms integer_shape_digits digits_value_inj by blast
qed

section \<open>The parts of a decimal\<close>

definition has_minus :: "string \<Rightarrow> bool" where
  "has_minus s \<longleftrightarrow> has_prefix s ''-''"

definition fraction_digits :: "string \<Rightarrow> string" where
  "fraction_digits s = (case frac_part (strip_minus s) of None \<Rightarrow> [] | Some f \<Rightarrow> f)"

definition render_decimal :: "bool \<Rightarrow> string \<Rightarrow> string \<Rightarrow> string" where
  "render_decimal negative i f =
     (if negative then ''-'' else []) @ i @ (if f = [] then [] else ''.'' @ f)"

lemma digits_no_dot: "list_all is_digit s \<Longrightarrow> CHR ''.'' \<notin> set s"
  by (auto simp: list_all_iff is_digit_def)

lemma digits_no_minus: "list_all is_digit s \<Longrightarrow> s \<noteq> [] \<Longrightarrow> hd s \<noteq> CHR ''-''"
  by (cases s) (auto simp: is_digit_def)

lemma render_parts:
  assumes "integer_shape i" and "list_all is_digit f"
  shows "has_minus (render_decimal n i f) = n"
    and "int_part (strip_minus (render_decimal n i f)) = i"
    and "frac_part (strip_minus (render_decimal n i f)) = (if f = [] then None else Some f)"
    and "fraction_digits (render_decimal n i f) = f"
    and "decimal_shape (render_decimal n i f)"
proof -
  have i: "list_all is_digit i" "i \<noteq> []"
    using assms(1) integer_shape_digits by (auto simp: integer_shape_def)
  obtain c r where c: "i = c # r" using i(2) by (cases i) auto
  have nd: "\<forall>x\<in>set i. x \<noteq> CHR ''.''" using digits_no_dot [OF i(1)] by auto
  have m: "c \<noteq> CHR ''-''" using digits_no_minus [OF i] c by simp
  show min: "has_minus (render_decimal n i f) = n"
    using m c by (auto simp: has_minus_def render_decimal_def has_prefix_def)
  have body: "strip_minus (render_decimal n i f) = i @ (if f = [] then [] else ''.'' @ f)"
    using min by (auto simp: strip_minus_def has_minus_def render_decimal_def)
  show ip: "int_part (strip_minus (render_decimal n i f)) = i"
    unfolding body int_part_def using nd by (auto simp: takeWhile_append takeWhile_eq_all_conv)
  show fp: "frac_part (strip_minus (render_decimal n i f)) = (if f = [] then None else Some f)"
    unfolding body frac_part_def using nd by (auto simp: dropWhile_append)
  show "fraction_digits (render_decimal n i f) = f"
    by (auto simp: fraction_digits_def fp)
  show "decimal_shape (render_decimal n i f)"
    unfolding decimal_shape_def ip fp using assms by auto
qed

lemma decimal_value_parts:
  "decimal_value s =
     (if has_minus s then -1 else 1) *
     (of_nat (digits_value (int_part (strip_minus s) @ fraction_digits s)) / 10 ^ length (fraction_digits s))"
  by (simp add: decimal_value_def has_minus_def fraction_digits_def Let_def)

lemma length_decimal_parts:
  "length u = length (int_part u) + (case frac_part u of None \<Rightarrow> 0 | Some f \<Rightarrow> 1 + length f)"
proof (induction u)
  case (Cons c u)
  then show ?case by (cases "c = CHR ''.''") (simp_all add: int_part_def frac_part_def)
qed (simp add: int_part_def frac_part_def)

lemma length_strip_minus: "length s = (if has_minus s then 1 else 0) + length (strip_minus s)"
  by (cases s) (simp_all add: strip_minus_def has_minus_def has_prefix_def)

lemma decimal_split:
  assumes "decimal_shape s"
  shows "integer_shape (int_part (strip_minus s))" and "list_all is_digit (fraction_digits s)"
  using assms by (auto simp: decimal_shape_def fraction_digits_def split: option.splits)

lemma length_decimal:
  "length s = (if has_minus s then 1 else 0) + length (int_part (strip_minus s)) +
     (if frac_part (strip_minus s) = None then 0 else 1 + length (fraction_digits s))"
proof -
  have "length (strip_minus s) = length (int_part (strip_minus s)) +
      (if frac_part (strip_minus s) = None then 0 else 1 + length (fraction_digits s))"
    using length_decimal_parts [of "strip_minus s"]
    by (cases "frac_part (strip_minus s)") (simp_all only: fraction_digits_def option.simps simp_thms if_True if_False)
  then show ?thesis using length_strip_minus [of s] by linarith
qed

lemma normalizeDecimal_render:
  assumes "decimal_shape s" and "s \<noteq> []" and "length s \<le> 64"
  defines "i \<equiv> int_part (strip_minus s)"
    and "f \<equiv> trim_right_byte (CHR ''0'') (fraction_digits s)"
  shows "normalizeDecimal s = Some (render_decimal (has_minus s \<and> \<not> (i = ''0'' \<and> f = [])) i f)"
proof -
  have sh: "integer_shape i" using decimal_split(1) [OF assms(1)] by (simp add: i_def)
  then have int: "(if trim_left_byte (CHR ''0'') i = [] then ''0'' else trim_left_byte (CHR ''0'') i) = i"
    by (cases i) (auto simp: integer_shape_def trim_left_byte_def)
  have frac: "(case frac_part (strip_minus s) of None \<Rightarrow> [] | Some f \<Rightarrow> trim_right_byte (CHR ''0'') f) = f"
    by (auto simp: f_def fraction_digits_def trim_right_byte_def split: option.split)
  have "normalizeDecimal s =
     (let result = i @ ''.'' @ f
      in if f = [] then
           (if i = ''0'' then Some ''0'' else if has_minus s then Some (''-'' @ i) else Some i)
         else if has_minus s \<and> result \<noteq> ''0'' then Some (''-'' @ result) else Some result)"
    unfolding normalizeDecimal_def Let_def frac i_def [symmetric] int has_minus_def [symmetric]
    using assms(1-3) by (simp add: parseDecimal_def)
  moreover have "i @ ''.'' @ f \<noteq> ''0''"
    using sh by (cases i) (auto simp: integer_shape_def)
  ultimately show ?thesis by (auto simp: render_decimal_def Let_def)
qed

lemma trim_right_zeros:
  "list_all is_digit f \<Longrightarrow>
   \<exists>k. f = trim_right_byte (CHR ''0'') f @ replicate k (CHR ''0'')"
proof -
  have "rev f = takeWhile (\<lambda>x. x = CHR ''0'') (rev f) @ dropWhile (\<lambda>x. x = CHR ''0'') (rev f)" by simp
  moreover have "takeWhile (\<lambda>x. x = CHR ''0'') (rev f) =
      replicate (length (takeWhile (\<lambda>x. x = CHR ''0'') (rev f))) (CHR ''0'')"
    by (intro replicate_eqI) (auto dest: set_takeWhileD)
  ultimately have "f = rev (dropWhile (\<lambda>x. x = CHR ''0'') (rev f)) @
      replicate (length (takeWhile (\<lambda>x. x = CHR ''0'') (rev f))) (CHR ''0'')"
    by (metis rev_append rev_replicate rev_rev_ident)
  then show ?thesis unfolding trim_right_byte_def by blast
qed

lemma trim_right_last:
  "trim_right_byte (CHR ''0'') f \<noteq> [] \<Longrightarrow> last (trim_right_byte (CHR ''0'') f) \<noteq> CHR ''0''"
  unfolding trim_right_byte_def
  by (metis (mono_tags, lifting) hd_dropWhile last_rev rev.simps(1))

lemma digits_value_zeros: "digits_value (s @ replicate k (CHR ''0'')) = digits_value s * 10 ^ k"
proof -
  have "digits_value (replicate k (CHR ''0'')) = 0"
  proof (induction k)
    case (Suc k)
    then show ?case
      using digits_value_snoc [of "replicate k (CHR ''0'')" "CHR ''0''"]
      by (simp add: digits_zero replicate_append_same)
  qed simp
  then show ?thesis by (simp add: digits_value_append)
qed

lemma decimal_value_trim:
  assumes "f = g @ replicate k (CHR ''0'')"
  shows "of_nat (digits_value (i @ f)) / 10 ^ length f =
         (of_nat (digits_value (i @ g)) / 10 ^ length g :: rat)"
  using assms digits_value_zeros [of "i @ g" k] by (simp add: power_add)

lemma render_value:
  assumes "integer_shape i" and "list_all is_digit f"
  shows "decimal_value (render_decimal n i f) =
    (if n then -1 else 1) * (of_nat (digits_value (i @ f)) / 10 ^ length f)"
  using assms by (simp add: decimal_value_parts render_parts)

lemma list_all_trim_right: "list_all P s \<Longrightarrow> list_all P (trim_right_byte c s)"
  unfolding trim_right_byte_def list_all_iff by (auto dest: set_dropWhileD)

lemma normalizeDecimal_value:
  assumes "normalizeDecimal s = Some t"
  shows "parseDecimal t = Some (decimal_value s)"
proof -
  have sh: "decimal_shape s" "s \<noteq> []" "length s \<le> 64"
    using assms by (auto simp: normalizeDecimal_def parseDecimal_def split: if_splits)
  define i where "i = int_part (strip_minus s)"
  define f where "f = trim_right_byte (CHR ''0'') (fraction_digits s)"
  define n where "n \<longleftrightarrow> has_minus s \<and> \<not> (i = ''0'' \<and> f = [])"
  have t: "t = render_decimal n i f"
    using normalizeDecimal_render [OF sh] assms by (simp add: i_def f_def n_def)
  have i: "integer_shape i" and f: "list_all is_digit f"
    using decimal_split [OF sh(1)] by (simp_all add: i_def f_def list_all_trim_right)
  obtain k where k: "fraction_digits s = f @ replicate k (CHR ''0'')"
    using trim_right_zeros decimal_split(2) [OF sh(1)] unfolding f_def by blast
  have "decimal_value t = decimal_value s"
    unfolding t render_value [OF i f] decimal_value_parts [of s] decimal_value_trim [OF k]
    using digits_zero(3) by (auto simp: i_def n_def)
  moreover have "length t \<le> length s"
    unfolding t using length_decimal [of s] k
    by (auto simp: render_decimal_def n_def i_def fraction_digits_def split: option.splits)
  moreover have "t \<noteq> []" using i by (auto simp: t render_decimal_def integer_shape_def)
  ultimately show ?thesis using render_parts(5) [OF i f] t sh(3) by (simp add: parseDecimal_def)
qed

lemma scaled_eq:
  assumes "(of_nat a / 10 ^ k :: rat) = of_nat b / 10 ^ l"
    and "k = 0 \<or> a mod 10 \<noteq> 0" and "l = 0 \<or> b mod 10 \<noteq> 0"
  shows "k = l \<and> a = b"
proof -
  have "(of_nat (a * 10 ^ l) :: rat) = of_nat (b * 10 ^ k)"
    using assms(1) by (simp add: field_simps)
  then have eq: "a * 10 ^ l = b * 10 ^ k" by (simp only: of_nat_eq_iff)
  have no: "\<not> k < l" if "a * 10 ^ l = b * 10 ^ k" "l = 0 \<or> b mod 10 \<noteq> 0" for a b k l :: nat
  proof
    assume "k < l"
    then obtain m where m: "l = k + Suc m" by (metis less_iff_Suc_add add_Suc_right)
    with that(1) have "b = 10 * (a * 10 ^ m)" by (simp add: power_add)
    with that(2) \<open>k < l\<close> show False by simp
  qed
  have "k = l" using no [OF eq assms(3)] no [OF eq [symmetric] assms(2)] by linarith
  with eq show ?thesis by simp
qed

lemma digits_value_last:
  "f \<noteq> [] \<Longrightarrow> list_all is_digit f \<Longrightarrow> last f \<noteq> CHR ''0'' \<Longrightarrow> digits_value (i @ f) mod 10 \<noteq> 0"
proof -
  assume f: "f \<noteq> []" "list_all is_digit f" "last f \<noteq> CHR ''0''"
  then obtain g c where g: "f = g @ [c]" by (metis append_butlast_last_id)
  then have "digits_value (i @ f) mod 10 = digit_value c"
    using f(2) digit_value_less [of c] digits_value_snoc [of "i @ g" c] by simp
  moreover have "digit_value c \<noteq> 0"
    using f(2,3) g digit_value_inj [of c "CHR ''0''"] digits_zero by auto
  ultimately show ?thesis by simp
qed

text \<open>The canonical texts: no trailing zero in the fraction and no sign on zero.\<close>

definition canonical_parts :: "bool \<Rightarrow> string \<Rightarrow> string \<Rightarrow> bool" where
  "canonical_parts n i f \<longleftrightarrow>
     integer_shape i \<and> list_all is_digit f \<and> (f = [] \<or> last f \<noteq> CHR ''0'') \<and>
     (n \<longrightarrow> \<not> (i = ''0'' \<and> f = []))"

lemma canonical_last_digit:
  "canonical_parts n i f \<Longrightarrow> length f = 0 \<or> digits_value (i @ f) mod 10 \<noteq> 0"
  using digits_value_last unfolding canonical_parts_def length_0_conv by blast

lemma canonical_magnitude_inj:
  assumes "canonical_parts n i f" and "canonical_parts m j g"
    and "(of_nat (digits_value (i @ f)) / 10 ^ length f :: rat) =
         of_nat (digits_value (j @ g)) / 10 ^ length g"
  shows "i = j \<and> f = g"
proof -
  have F: "list_all is_digit f" "list_all is_digit g" "integer_shape i" "integer_shape j"
    using assms(1,2) by (auto simp: canonical_parts_def)
  have "length f = length g \<and> digits_value (i @ f) = digits_value (j @ g)"
    by (rule scaled_eq [OF assms(3) canonical_last_digit [OF assms(1)] canonical_last_digit [OF assms(2)]])
  then have len: "length f = length g"
    and eq: "digits_value i * 10 ^ length g + digits_value f = digits_value j * 10 ^ length g + digits_value g"
    by (auto simp: digits_value_append)
  have lt: "digits_value f < 10 ^ length g" "digits_value g < 10 ^ length g"
    using digits_value_less F(1,2) len by metis+
  have "digits_value i = digits_value j"
    using arg_cong [OF eq, of "\<lambda>x. x div 10 ^ length g"] lt by simp
  moreover have "digits_value f = digits_value g"
    using arg_cong [OF eq, of "\<lambda>x. x mod 10 ^ length g"] lt by simp
  ultimately show ?thesis using integer_shape_inj digits_value_inj F len by blast
qed

lemma canonical_zero:
  assumes "canonical_parts n i f" and "digits_value (i @ f) = 0"
  shows "i = ''0'' \<and> f = []"
proof -
  have f: "f = []" using canonical_last_digit [OF assms(1)] assms(2) by simp
  have "integer_shape ''0''" by code_simp
  moreover have "digits_value ''0'' = 0" by code_simp
  ultimately have "i = ''0''"
    using integer_shape_inj [of i "''0''"] assms f by (simp add: canonical_parts_def)
  with f show ?thesis by simp
qed

lemma canonical_render_inj:
  assumes "canonical_parts n i f" and "canonical_parts m j g"
    and "decimal_value (render_decimal n i f) = decimal_value (render_decimal m j g)"
  shows "render_decimal n i f = render_decimal m j g"
proof -
  have F: "integer_shape i" "list_all is_digit f" "integer_shape j" "list_all is_digit g"
    using assms(1,2) by (auto simp: canonical_parts_def)
  let ?x = "of_nat (digits_value (i @ f)) / 10 ^ length f :: rat"
  let ?y = "of_nat (digits_value (j @ g)) / 10 ^ length g :: rat"
  have v: "(if n then -1 else 1) * ?x = (if m then -1 else 1) * ?y"
    using assms(3) F by (simp add: render_value)
  have pos: "0 \<le> ?x" "0 \<le> ?y" by simp_all
  show ?thesis
  proof (cases "n = m")
    case True
    then have "?x = ?y" using v by (simp split: if_splits)
    then show ?thesis using canonical_magnitude_inj [OF assms(1,2)] True by simp
  next
    case False
    then have "?x = - ?y" using v by (auto simp: minus_equation_iff split: if_splits)
    then have "?x = 0" "?y = 0" using pos by linarith+
    then have "digits_value (i @ f) = 0" "digits_value (j @ g) = 0" by simp_all
    then have "i = ''0'' \<and> f = []" "j = ''0'' \<and> g = []"
      using canonical_zero assms(1,2) by blast+
    then show ?thesis using assms(1,2) by (auto simp: canonical_parts_def)
  qed
qed

lemma normalizeDecimal_canonical_parts:
  assumes "normalizeDecimal s = Some t"
  obtains n i f where "canonical_parts n i f" and "t = render_decimal n i f"
proof -
  have sh: "decimal_shape s" "s \<noteq> []" "length s \<le> 64"
    using assms by (auto simp: normalizeDecimal_def parseDecimal_def split: if_splits)
  define i f where "i = int_part (strip_minus s)"
    and "f = trim_right_byte (CHR ''0'') (fraction_digits s)"
  have "canonical_parts (has_minus s \<and> \<not> (i = ''0'' \<and> f = [])) i f"
    using decimal_split [OF sh(1)] trim_right_last list_all_trim_right
    unfolding canonical_parts_def i_def f_def by blast
  moreover have "t = render_decimal (has_minus s \<and> \<not> (i = ''0'' \<and> f = [])) i f"
    using normalizeDecimal_render [OF sh] assms unfolding i_def f_def by simp
  ultimately show ?thesis by (rule that)
qed

section \<open>Properties\<close>

text \<open>
  C14. The decimal written into a signed report is canonical: whenever two observed decimals
  normalize, they normalize to the same text exactly when they are the same number, and the
  text parses back to that number.
\<close>

theorem normalizeDecimal_canonical:
  assumes "normalizeDecimal s = Some t" and "normalizeDecimal s' = Some t'"
  shows "(t = t' \<longleftrightarrow> decimal_value s = decimal_value s') \<and> parseDecimal t = Some (decimal_value s)"
proof -
  have p: "parseDecimal t = Some (decimal_value s)" "parseDecimal t' = Some (decimal_value s')"
    using assms normalizeDecimal_value by blast+
  obtain n i f where a: "canonical_parts n i f" "t = render_decimal n i f"
    using normalizeDecimal_canonical_parts assms(1) by blast
  obtain m j g where b: "canonical_parts m j g" "t' = render_decimal m j g"
    using normalizeDecimal_canonical_parts assms(2) by blast
  have "decimal_value s = decimal_value s' \<Longrightarrow> t = t'"
    using canonical_render_inj [OF a(1) b(1)] a b p by (auto simp: parseDecimal_def split: if_splits)
  then show ?thesis using p by auto
qed



lemmas decimal_code_simps = normalizeDecimal_def parseDecimal_def decimal_shape_def integer_shape_def
  int_part_def frac_part_def strip_minus_def has_prefix_def is_digit_def
  trim_left_byte_def trim_right_byte_def

theorem normalizeDecimal_canonical_witness:
  "(''-1.5'' = ''-1.5'' \<longleftrightarrow> decimal_value ''-1.50'' = decimal_value ''-1.500'') \<and>
   parseDecimal ''-1.5'' = Some (decimal_value ''-1.50'')"
proof -
  have a: "normalizeDecimal ''-1.50'' = Some ''-1.5''" by (simp add: decimal_code_simps)
  have b: "normalizeDecimal ''-1.500'' = Some ''-1.5''" by (simp add: decimal_code_simps)
  show ?thesis by (rule normalizeDecimal_canonical [OF a b])
qed

text \<open>
  C15. The verdict can be replayed from the signed report: the report carries the normalized
  decimal, and every coverage requirement gives the same answer on the normalized text as on
  the text that was observed.
\<close>

theorem coverageSatisfies_normalized:
  assumes "normalizeDecimal observed = Some t"
  shows "coverageSatisfies requirement t = coverageSatisfies requirement observed"
proof -
  have "parseDecimal observed = Some (decimal_value observed)"
    using assms by (auto simp: normalizeDecimal_def parseDecimal_def split: if_splits)
  then show ?thesis
    using normalizeDecimal_value [OF assms] unfolding coverageSatisfies_def by presburger
qed

theorem coverageSatisfies_normalized_witness:
  "coverageSatisfies ''>= 80'' ''80'' = coverageSatisfies ''>= 80'' ''80.00''"
proof -
  have "normalizeDecimal ''80.00'' = Some ''80''" by (simp add: decimal_code_simps)
  then show ?thesis by (rule coverageSatisfies_normalized)
qed

end
