(* ===== verification/Content_Digest.thy ===== *)
theory Content_Digest
  imports Gateway_Prelude "HOL-Library.Word"
begin

text \<open>
  The digests the gateway addresses content by: SHA-256 as \<^verbatim>\<open>crypto/sha256\<close> computes it, on
  words of 32 bits, its lowercase hexadecimal text, the format check
  \<^verbatim>\<open>ValidDigest\<close> of \<^verbatim>\<open>v3/internal/canonical/resolved_spec.go\<close>, and the text
  \<^verbatim>\<open>encoding/json\<close> writes for a string.
\<close>

unbundle bit_operations_syntax

section \<open>SHA-256\<close>

type_synonym sha_word = "32 word"
type_synonym sha_state = "sha_word list"

text \<open>
  The constants of FIPS 180-4: the first 32 bits of the fractional parts of the cube roots of the
  primes up to 311, and of the square roots of the first eight. A root of \<^term>\<open>p * 2 ^ (32 * k)\<close>
  is found bit by bit; the conversion to a word drops its integer part.
\<close>

definition root_bit :: "nat \<Rightarrow> int \<Rightarrow> int \<Rightarrow> nat \<Rightarrow> int" where
  "root_bit k n r b = (if (r + 2 ^ b) ^ k \<le> n then r + 2 ^ b else r)"

definition int_root :: "nat \<Rightarrow> int \<Rightarrow> int" where
  "int_root k n = foldl (root_bit k n) 0 (rev [0..<37])"

definition root_word :: "nat \<Rightarrow> int \<Rightarrow> sha_word" where
  "root_word k p = of_int (int_root k (p * 2 ^ (32 * k)))"

definition sha_k :: "sha_word list" where
  "sha_k = map (root_word 3) (filter (\<lambda>p. list_all (\<lambda>d. p mod d \<noteq> 0) [2..p - 1]) [2..311])"

definition sha_initial :: sha_state where
  "sha_initial = map (root_word 2) [2, 3, 5, 7, 11, 13, 17, 19]"

definition rotr :: "nat \<Rightarrow> sha_word \<Rightarrow> sha_word" where
  "rotr n x = drop_bit n x OR push_bit (32 - n) x"

definition small_sigma0 :: "sha_word \<Rightarrow> sha_word" where
  "small_sigma0 x = rotr 7 x XOR rotr 18 x XOR drop_bit 3 x"

definition small_sigma1 :: "sha_word \<Rightarrow> sha_word" where
  "small_sigma1 x = rotr 17 x XOR rotr 19 x XOR drop_bit 10 x"

definition big_sigma0 :: "sha_word \<Rightarrow> sha_word" where
  "big_sigma0 x = rotr 2 x XOR rotr 13 x XOR rotr 22 x"

definition big_sigma1 :: "sha_word \<Rightarrow> sha_word" where
  "big_sigma1 x = rotr 6 x XOR rotr 11 x XOR rotr 25 x"

text \<open>The message schedule, held with its latest word first.\<close>

fun sha_extend :: "nat \<Rightarrow> sha_word list \<Rightarrow> sha_word list" where
  "sha_extend 0 w = w"
| "sha_extend (Suc n) w =
     sha_extend n ((small_sigma1 (w ! 1) + w ! 6 + small_sigma0 (w ! 14) + w ! 15) # w)"

definition sha_schedule :: "sha_word list \<Rightarrow> sha_word list" where
  "sha_schedule block = rev (sha_extend 48 (rev block))"

fun sha_round :: "sha_state \<Rightarrow> sha_word \<times> sha_word \<Rightarrow> sha_state" where
  "sha_round [a, b, c, d, e, f, g, h] (k, w) =
     (let t1 = h + big_sigma1 e + ((e AND f) XOR (NOT e AND g)) + k + w;
          t2 = big_sigma0 a + ((a AND b) XOR (a AND c) XOR (b AND c))
      in [t1 + t2, a, b, c, d + t1, e, f, g])"
| "sha_round s _ = s"

definition sha_block :: "sha_state \<Rightarrow> sha_word list \<Rightarrow> sha_state" where
  "sha_block s block = map2 (+) s (foldl sha_round s (zip sha_k (sha_schedule block)))"

fun be_bytes :: "nat \<Rightarrow> nat \<Rightarrow> nat list" where
  "be_bytes 0 n = []"
| "be_bytes (Suc k) n = be_bytes k (n div 256) @ [n mod 256]"

definition sha_pad :: "nat list \<Rightarrow> nat list" where
  "sha_pad m = m @ [128] @ replicate ((119 - length m mod 64) mod 64) 0 @ be_bytes 8 (8 * length m)"

definition be_word :: "nat list \<Rightarrow> sha_word" where
  "be_word bs = foldl (\<lambda>w b. push_bit 8 w OR of_nat b) 0 bs"

definition word_bytes :: "sha_word \<Rightarrow> nat list" where
  "word_bytes w = map (\<lambda>k. unat (take_bit 8 (drop_bit k w))) [24, 16, 8, 0]"

function chunks :: "nat \<Rightarrow> 'a list \<Rightarrow> 'a list list" where
  "chunks k xs = (if k = 0 \<or> xs = [] then [] else take k xs # chunks k (drop k xs))"
  by pat_completeness auto
termination by (relation "measure (\<lambda>(k, xs). length xs)") auto

declare chunks.simps [simp del]

definition sha256_state :: "nat list \<Rightarrow> sha_state" where
  "sha256_state m = foldl sha_block sha_initial (map (map be_word \<circ> chunks 4) (chunks 64 (sha_pad m)))"

definition hex_char :: "nat \<Rightarrow> char" where
  "hex_char d = char_of (if d < 10 then 48 + d else 87 + d)"

definition hex_byte :: "nat \<Rightarrow> string" where
  "hex_byte b = [hex_char (b div 16), hex_char (b mod 16)]"

text \<open>\<^verbatim>\<open>sha256.Sum256\<close> as its 32 bytes, and \<^verbatim>\<open>hex.EncodeToString\<close> of them.\<close>

definition sha256_sum :: "string \<Rightarrow> nat list" where
  "sha256_sum s = concat (map word_bytes (sha256_state (map byte_of s)))"

definition sha256_hex :: "string \<Rightarrow> string" where
  "sha256_hex s = concat (map hex_byte (sha256_sum s))"

section \<open>Digest text\<close>

abbreviation DigestPrefix :: string where
  "DigestPrefix \<equiv> ''sha256:''"

definition lower_hex :: "char \<Rightarrow> bool" where
  "lower_hex c \<longleftrightarrow> (48 \<le> byte_of c \<and> byte_of c \<le> 57) \<or> (97 \<le> byte_of c \<and> byte_of c \<le> 102)"

definition ValidDigest :: "string \<Rightarrow> bool" where
  "ValidDigest v \<longleftrightarrow>
     length v = length DigestPrefix + 64 \<and> has_prefix v DigestPrefix \<and>
     list_all lower_hex (drop (length DigestPrefix) v)"

definition sha256_digest :: "string \<Rightarrow> string" where
  "sha256_digest s = DigestPrefix @ sha256_hex s"

section \<open>JSON text of a string\<close>

text \<open>
  \<^verbatim>\<open>utf8.DecodeRune\<close>: the first rune and its width, the replacement rune with width 1 where
  the bytes are not well formed.
\<close>

definition decode_rune :: "nat list \<Rightarrow> rune \<times> nat" where
  "decode_rune bs =
     (case bs of
        [] \<Rightarrow> (65533, 0)
      | b # bs1 \<Rightarrow>
          if b < 128 then (b, 1)
          else if list_all utf8_cont (take 1 bs1) \<and> 1 \<le> length bs1 \<and> 194 \<le> b \<and> b \<le> 223
          then ((b - 192) * 64 + (bs1 ! 0 - 128), 2)
          else if 2 \<le> length bs1 \<and> utf8_second3 b (bs1 ! 0) \<and> utf8_cont (bs1 ! 1)
          then ((b - 224) * 4096 + (bs1 ! 0 - 128) * 64 + (bs1 ! 1 - 128), 3)
          else if 3 \<le> length bs1 \<and> utf8_second4 b (bs1 ! 0) \<and> utf8_cont (bs1 ! 1) \<and> utf8_cont (bs1 ! 2)
          then ((b - 240) * 262144 + (bs1 ! 0 - 128) * 4096 + (bs1 ! 1 - 128) * 64 + (bs1 ! 2 - 128), 4)
          else (65533, 1))"

lemma decode_rune_width: "bs \<noteq> [] \<Longrightarrow> 0 < snd (decode_rune bs)"
  by (auto simp: decode_rune_def split: list.split)

text \<open>\<^verbatim>\<open>for _, r := range s\<close>\<close>

function range_runes :: "nat list \<Rightarrow> rune list" where
  "range_runes bs =
     (if bs = [] then []
      else fst (decode_rune bs) # range_runes (drop (snd (decode_rune bs)) bs))"
  by pat_completeness auto
termination by (relation "measure length") (auto simp: decode_rune_width)

declare range_runes.simps [simp del]

text \<open>
  \<^verbatim>\<open>encoding/json\<close> with HTML escaping, as \<^verbatim>\<open>json.Marshal\<close> uses it: short escapes where JSON
  has them, \<^verbatim>\<open>u00xx\<close> for the other control bytes and for the three HTML bytes, the
  replacement rune for bytes that are not UTF-8, and the two line separators escaped.
\<close>

definition json_ascii :: "nat \<Rightarrow> string" where
  "json_ascii b =
     (if b = 34 \<or> b = 92 then [CHR 0x5C, char_of b]
      else if b = 8 then CHR 0x5C # ''b''
      else if b = 12 then CHR 0x5C # ''f''
      else if b = 10 then CHR 0x5C # ''n''
      else if b = 13 then CHR 0x5C # ''r''
      else if b = 9 then CHR 0x5C # ''t''
      else if b < 32 \<or> b = 60 \<or> b = 62 \<or> b = 38 then CHR 0x5C # ''u00'' @ hex_byte b
      else [char_of b])"

definition json_rune :: "nat list \<Rightarrow> string" where
  "json_rune bs =
     (let (r, w) = decode_rune bs
      in if r < 128 then json_ascii r
         else if r = 65533 \<and> w = 1 then CHR 0x5C # ''ufffd''
         else if r = 8232 then CHR 0x5C # ''u2028''
         else if r = 8233 then CHR 0x5C # ''u2029''
         else map char_of (take w bs))"

function json_escape :: "nat list \<Rightarrow> string" where
  "json_escape bs =
     (if bs = [] then [] else json_rune bs @ json_escape (drop (snd (decode_rune bs)) bs))"
  by pat_completeness auto
termination by (relation "measure length") (auto simp: decode_rune_width)

declare json_escape.simps [simp del]

definition json_string :: "string \<Rightarrow> string" where
  "json_string s = [CHR 0x22] @ json_escape (map byte_of s) @ [CHR 0x22]"

fun json_join :: "string list \<Rightarrow> string" where
  "json_join [] = []"
| "json_join [x] = x"
| "json_join (x # xs) = x @ '','' @ json_join xs"

definition json_int :: "int \<Rightarrow> string" where
  "json_int i = (if i < 0 then ''-'' @ nat_digits (nat (- i)) else nat_digits (nat i))"

definition json_array :: "string list \<Rightarrow> string" where
  "json_array xs = ''['' @ json_join xs @ '']''"

definition json_object :: "(string \<times> string) list \<Rightarrow> string" where
  "json_object fields = ''{'' @ json_join (map (\<lambda>(k, v). json_string k @ '':'' @ v) fields) @ ''}''"

section \<open>Facts\<close>

lemma length_be_bytes [simp]: "length (be_bytes k n) = k"
  by (induction k n rule: be_bytes.induct) auto

lemma length_word_bytes [simp]: "length (word_bytes w) = 4"
  by (simp add: word_bytes_def)

lemma word_bytes_less: "b \<in> set (word_bytes w) \<Longrightarrow> b < 256"
  by (auto simp: word_bytes_def unsigned_take_bit_eq take_bit_nat_less_exp [of 8, simplified])

lemma length_sha_round [simp]: "length s = 8 \<Longrightarrow> length (sha_round s kw) = 8"
  by (cases "(s, kw)" rule: sha_round.cases) (auto simp: Let_def)

lemma length_sha_rounds [simp]: "length s = 8 \<Longrightarrow> length (foldl sha_round s kws) = 8"
  by (induction kws arbitrary: s) auto

lemma length_sha256_state [simp]: "length (sha256_state m) = 8"
proof -
  have "length (foldl sha_block s bs) = 8" if "length s = 8" for s bs
    using that by (induction bs arbitrary: s) (auto simp: sha_block_def)
  then show ?thesis by (simp add: sha256_state_def sha_initial_def)
qed

lemma length_concat_const: "(\<And>x. x \<in> set xs \<Longrightarrow> length (f x) = k) \<Longrightarrow> length (concat (map f xs)) = k * length xs"
  by (induction xs) auto

lemma length_sha256_sum [simp]: "length (sha256_sum s) = 32"
  by (simp add: sha256_sum_def length_concat_const [where k = 4])

lemma length_sha256_hex [simp]: "length (sha256_hex s) = 64"
  by (simp add: sha256_hex_def hex_byte_def length_concat_const [where k = 2])

lemma hex_char_lower: "d < 16 \<Longrightarrow> lower_hex (hex_char d)"
  by (auto simp: lower_hex_def hex_char_def)

lemma sha256_hex_lower: "list_all lower_hex (sha256_hex s)"
proof -
  have "b < 256 \<Longrightarrow> list_all lower_hex (hex_byte b)" for b
    by (auto simp: hex_byte_def intro!: hex_char_lower)
  moreover have "b < 256" if "b \<in> set (sha256_sum s)" for b
    using that word_bytes_less by (auto simp: sha256_sum_def)
  ultimately show ?thesis by (auto simp: sha256_hex_def list_all_iff)
qed

lemma ValidDigest_sha256 [simp]: "ValidDigest (sha256_digest s)"
  using sha256_hex_lower by (simp add: ValidDigest_def sha256_digest_def has_prefix_def)

section \<open>Bytes below 128\<close>

lemma ascii_byte: "\<not> digit7 c \<Longrightarrow> byte_of c < (128 :: nat)"
  by (cases c) (simp add: of_char_def)

lemma utf8_valid_ascii: "list_all (\<lambda>c. \<not> digit7 c) s \<Longrightarrow> utf8_valid s"
proof -
  have "list_all (\<lambda>c. \<not> digit7 c) s \<Longrightarrow> utf8_decode (map byte_of s) \<noteq> None"
    using ascii_byte by (induction s) auto
  then show "list_all (\<lambda>c. \<not> digit7 c) s \<Longrightarrow> utf8_valid s" by (simp add: utf8_valid_def)
qed

lemma range_runes_ascii: "list_all (\<lambda>c. \<not> digit7 c) s \<Longrightarrow> range_runes (map byte_of s) = map byte_of s"
proof (induction s)
  case Nil
  then show ?case by (simp add: range_runes.simps)
next
  case (Cons c s)
  then have "decode_rune (map byte_of (c # s)) = (byte_of c, 1)"
    using ascii_byte by (simp add: decode_rune_def)
  with Cons show ?case by (subst range_runes.simps) simp
qed

end
