(* ===== verification/Go_Sort.thy ===== *)
theory Go_Sort
  imports Gateway_Prelude "HOL-Library.Multiset" "HOL-Library.Option_ord" "HOL-Library.Product_Lexorder"
begin

text \<open>
  \<^verbatim>\<open>sort.Slice\<close> with the comparison the caller passes. The algorithm of the Go library is not
  stable; the sources pass comparisons whose ties are equal elements, or refuse a result in
  which two neighbours tie, so the insertion sort below gives the answer of every sorting
  algorithm. The interface of a comparison is a locale: its laws are those of a strict weak
  order, and of a total one where ties are equal.
\<close>

fun insert_slice :: "('a \<Rightarrow> 'a \<Rightarrow> bool) \<Rightarrow> 'a \<Rightarrow> 'a list \<Rightarrow> 'a list" where
  "insert_slice lt x [] = [x]"
| "insert_slice lt x (y # ys) = (if lt y x then y # insert_slice lt x ys else x # y # ys)"

definition sort_slice :: "('a \<Rightarrow> 'a \<Rightarrow> bool) \<Rightarrow> 'a list \<Rightarrow> 'a list" where
  "sort_slice lt xs = foldr (insert_slice lt) xs []"

lemma sort_slice_simps [simp]:
  "sort_slice lt [] = []" "sort_slice lt (x # xs) = insert_slice lt x (sort_slice lt xs)"
  by (simp_all add: sort_slice_def)

lemma mset_insert_slice [simp]: "mset (insert_slice lt x xs) = add_mset x (mset xs)"
  by (induction xs) auto

lemma mset_sort_slice [simp]: "mset (sort_slice lt xs) = mset xs"
  by (induction xs) auto

lemma set_insert_slice [simp]: "set (insert_slice lt x xs) = insert x (set xs)"
  by (metis mset_insert_slice set_mset_add_mset_insert set_mset_mset)

lemma set_sort_slice [simp]: "set (sort_slice lt xs) = set xs"
  by (metis mset_sort_slice set_mset_mset)

lemma length_sort_slice [simp]: "length (sort_slice lt xs) = length xs"
  by (metis mset_sort_slice size_mset)

lemma distinct_sort_slice [simp]: "distinct (map f (sort_slice lt xs)) = distinct (map f xs)"
  by (metis mset_sort_slice mset_map mset_eq_imp_distinct_iff)

locale slice_order =
  fixes lt :: "'a \<Rightarrow> 'a \<Rightarrow> bool"
  assumes asym: "lt x y \<Longrightarrow> \<not> lt y x"
    and neg_trans: "\<not> lt x y \<Longrightarrow> \<not> lt y z \<Longrightarrow> \<not> lt x z"
begin

abbreviation ordered :: "'a list \<Rightarrow> bool" where
  "ordered xs \<equiv> sorted_wrt (\<lambda>x y. \<not> lt y x) xs"

lemma ordered_insert: "ordered xs \<Longrightarrow> ordered (insert_slice lt x xs)"
  by (induction xs) (auto dest: asym, metis neg_trans)

lemma ordered_sort: "ordered (sort_slice lt xs)"
  by (induction xs) (auto intro: ordered_insert)

lemma sort_ordered: "ordered xs \<Longrightarrow> sort_slice lt xs = xs"
proof (induction xs)
  case Nil
  then show ?case by simp
next
  case (Cons x xs)
  then show ?case by (cases xs) auto
qed

lemma sort_sort: "sort_slice lt (sort_slice lt xs) = sort_slice lt xs"
  by (rule sort_ordered [OF ordered_sort])

end

locale total_slice_order = slice_order +
  assumes ties: "\<not> lt x y \<Longrightarrow> \<not> lt y x \<Longrightarrow> x = y"
begin

lemma insert_commute: "insert_slice lt x (insert_slice lt y xs) = insert_slice lt y (insert_slice lt x xs)"
proof (induction xs)
  case Nil
  then show ?case using asym ties by auto
next
  case (Cons z zs)
  have between: "lt z x \<Longrightarrow> \<not> lt z y \<Longrightarrow> lt y x" "lt z y \<Longrightarrow> \<not> lt z x \<Longrightarrow> lt x y"
    using neg_trans by blast+
  consider "lt x y" "\<not> lt y x" | "lt y x" "\<not> lt x y" | "x = y" using asym ties by blast
  then show ?case using Cons between by cases (cases "lt z x"; cases "lt z y"; simp)+
qed

lemma sort_permutation: "mset xs = mset ys \<Longrightarrow> sort_slice lt xs = sort_slice lt ys"
proof (induction xs arbitrary: ys)
  case Nil
  then show ?case by simp
next
  case (Cons x xs)
  then have "x \<in> set ys" by (metis list.set_intros(1) mset_eq_setD)
  then obtain us vs where ys: "ys = us @ x # vs" by (meson split_list)
  have *: "sort_slice lt (us @ x # vs) = insert_slice lt x (sort_slice lt (us @ vs))"
    by (induction us) (simp_all add: insert_commute)
  have "mset xs = mset (us @ vs)" using Cons.prems ys by simp
  then have "sort_slice lt xs = sort_slice lt (us @ vs)" by (rule Cons.IH)
  then show ?case using ys * by simp
qed

end

lemma pair_less: "(a :: 'a :: linorder, b :: 'b :: linorder) < (c, d) \<longleftrightarrow> (if a \<noteq> c then a < c else b < d)"
  by (auto simp: less_prod_simp)

text \<open>A comparison by a key is an order, and a total one when the key determines the element.\<close>

lemma key_slice_order: "slice_order (\<lambda>x y. f x < (f y :: 'k :: linorder))"
  by unfold_locales auto

lemma sort_slice_key: "sort_slice (\<lambda>x y. f x < (f y :: 'k :: linorder)) xs = sort_key f xs"
proof -
  have "insert_slice (\<lambda>x y. f x < f y) x ys = insort_key f x ys" for x ys
    by (induction ys) auto
  then have "insert_slice (\<lambda>x y. f x < f y) = insort_key f" by (intro ext)
  then show ?thesis by (simp add: sort_slice_def sort_key_def)
qed

text \<open>Where keys do not repeat, permutations sort to the same list.\<close>

lemma sort_key_permutation:
  assumes "mset xs = mset ys" and "distinct (map f xs)"
  shows "sort_key f xs = sort_key f (ys :: 'a list)"
proof (rule sort_key_inj_key_eq)
  show "mset xs = mset (sort_key f ys)" using assms(1) by simp
  show "inj_on f (set xs)" using assms(2) by (simp add: distinct_map)
  show "sorted (map f (sort_key f ys))" by simp
qed

lemma key_total_slice_order: "inj f \<Longrightarrow> total_slice_order (\<lambda>x y. f x < (f y :: 'k :: linorder))"
  by unfold_locales (auto simp: inj_def)

end
