(* ===== verification/Gate_Engine.thy ===== *)
theory Gate_Engine
  imports Scope_Glob Coverage_Policy Content_Digest Go_Sort "HOL-Library.Sublist" "HOL-Library.AList"
begin

text \<open>
  The decision engine of \<^verbatim>\<open>v3/internal/gate/engine.go\<close>. \<^verbatim>\<open>Evaluate\<close> builds a list of named
  checks with the closures \<^verbatim>\<open>add\<close> and \<^verbatim>\<open>invalid\<close>, which share the variables \<^verbatim>\<open>checks\<close>,
  \<^verbatim>\<open>checkNames\<close> and \<^verbatim>\<open>inputInvalid\<close>: here a record \<open>gate_state\<close> that every step takes and
  returns, one step for each block of the function body, composed in the order of the source.
  Counters are compared and never computed with, so they are \<^typ>\<open>int\<close>; a nil pointer is \<^const>\<open>None\<close>.
\<close>

section \<open>Data\<close>

abbreviation MaxChangedPaths :: nat where "MaxChangedPaths \<equiv> 4096"
abbreviation MaxScopePatterns :: nat where "MaxScopePatterns \<equiv> 256"
abbreviation MaxCommands :: nat where "MaxCommands \<equiv> 32"
abbreviation MaxCommandEvidence :: nat where "MaxCommandEvidence \<equiv> 32"
abbreviation MaxChecks :: nat where "MaxChecks \<equiv> 64"
abbreviation MaxStatusMessage :: nat where "MaxStatusMessage \<equiv> 2048"
abbreviation MaxObservedFiles :: int where "MaxObservedFiles \<equiv> 4096"
abbreviation MaxObservedLines :: int where "MaxObservedLines \<equiv> 1000000000"
abbreviation MaxDurationMillis :: int where "MaxDurationMillis \<equiv> 86400000"

datatype verdict = Accepted | Rejected | OtherGateVerdict string

datatype test_strength =
  TestStrengthNone | TestStrengthNewTestsFailOnBase | TestStrengthEmpty | OtherTestStrength string

record command_observation =
  co_Index :: int
  co_ExitCode :: "int option"
  co_EvidenceDigest :: string
  co_DurationMillis :: "int option"

record policy_rule =
  pr_RuleID :: string
  pr_ContractDigest :: string
  pr_ScriptDigest :: string
  pr_Blocking :: bool
  pr_HasScript :: bool

record policy_observation =
  po_RuleID :: string
  po_ContractDigest :: string
  po_ScriptDigest :: string
  po_ExitCode :: "int option"
  po_Skipped :: bool

record observations =
  ChangedPaths :: "string list"
  FilesChanged :: "int option"
  LinesChanged :: "int option"
  HasBinaryFiles :: "bool option"
  CoverageDelta :: "string option"
  NewTestsFailOnBase :: "bool option"
  Commands :: "command_observation list"
  PolicyChecks :: "policy_observation list"

record scope_spec =
  Paths :: "string list"
  Forbidden :: "string list"

record verify_command =
  Argv :: "string list"
  Shell :: "string option"

record gate_requirements =
  ScopeRespected :: bool
  TestStrength :: test_strength
  req_CoverageDelta :: string
  MaxFilesChanged :: int
  MaxDiffLines :: int
  NoBinaryFiles :: bool

record gate_input =
  in_Scope :: scope_spec
  in_Requirements :: gate_requirements
  in_Commands :: "verify_command list"
  in_PolicyRules :: "policy_rule list"
  in_Observations :: observations

record gate_check =
  gc_Name :: string
  gc_Passed :: bool
  gc_Message :: string

record report_command =
  rc_Index :: int
  rc_ConfigDigest :: string
  rc_Observed :: bool
  rc_ExitCode :: "int option"
  rc_EvidenceDigest :: string
  rc_DurationMillis :: "int option"

record evidence_summary =
  ev_ChangedPaths :: "string list"
  ev_FilesChanged :: "int option"
  ev_LinesChanged :: "int option"
  ev_HasBinaryFiles :: "bool option"
  ev_CoverageDelta :: "string option"
  ev_NewTestsFailOnBase :: "bool option"

record decision =
  d_Verdict :: verdict
  d_Checks :: "gate_check list"
  evaluated :: bool
  commandRecords :: "report_command list"
  evidence :: evidence_summary

record gate_state =
  checks :: "gate_check list"
  checkNames :: "string list"
  inputInvalid :: bool

section \<open>The closures add and invalid\<close>

definition add :: "string \<Rightarrow> bool \<Rightarrow> string \<Rightarrow> gate_state \<Rightarrow> gate_state" where
  "add name passed message st =
     (if length (checks st) \<ge> MaxChecks then st\<lparr>inputInvalid := True\<rparr>
      else if length name = 0 \<or> length name > 128 \<or> \<not> utf8_valid name then st\<lparr>inputInvalid := True\<rparr>
      else if List.member (checkNames st) name then st\<lparr>inputInvalid := True\<rparr>
      else st\<lparr>checkNames := name # checkNames st,
              checks := checks st @ [\<lparr>gc_Name = name, gc_Passed = passed,
                                      gc_Message = take MaxStatusMessage message\<rparr>]\<rparr>)"

definition invalid :: "string \<Rightarrow> string \<Rightarrow> gate_state \<Rightarrow> gate_state" where
  "invalid name message st = add name False message (st\<lparr>inputInvalid := True\<rparr>)"

section \<open>Validation helpers\<close>

definition validCounter :: "int option \<Rightarrow> int \<Rightarrow> bool" where
  "validCounter value maximum = (case value of None \<Rightarrow> False | Some v \<Rightarrow> 0 \<le> v \<and> v \<le> maximum)"

definition validDuration :: "int option \<Rightarrow> bool" where
  "validDuration value = (case value of None \<Rightarrow> True | Some v \<Rightarrow> 0 \<le> v \<and> v \<le> MaxDurationMillis)"

text \<open>The pattern \<^verbatim>\<open>^sha256:[a-f0-9]{64}$\<close> of \<^verbatim>\<open>report.go\<close>.\<close>

definition validSHA256Digest :: "string \<Rightarrow> bool" where
  "validSHA256Digest v \<longleftrightarrow>
     length v = length DigestPrefix + 64 \<and> take 7 v = DigestPrefix \<and> list_all lower_hex (drop 7 v)"

definition validEvidenceDigest :: "string \<Rightarrow> bool" where
  "validEvidenceDigest v = validSHA256Digest v"

definition validVerifyCommand :: "verify_command \<Rightarrow> bool" where
  "validVerifyCommand command =
     (let argv = Argv command \<noteq> [];
          shell = (case Shell command of None \<Rightarrow> False | Some s \<Rightarrow> s \<noteq> [])
      in if argv = shell \<or> length (Argv command) > 64 then False
         else if shell \<and> (case Shell command of None \<Rightarrow> False
                           | Some s \<Rightarrow> length s > 4096 \<or> \<not> utf8_valid s) then False
         else list_all (\<lambda>arg. \<not> (length arg = 0 \<or> length arg > 4096 \<or> \<not> utf8_valid arg)) (Argv command))"

text \<open>\<^verbatim>\<open>json.Marshal\<close> of the struct, whose two fields are omitted when empty and when nil.\<close>

definition marshal_command :: "verify_command \<Rightarrow> string" where
  "marshal_command command =
     json_object
       ((if Argv command = [] then [] else [(''argv'', json_array (map json_string (Argv command)))])
        @ (case Shell command of None \<Rightarrow> [] | Some s \<Rightarrow> [(''shell'', json_string s)]))"

definition digestVerifyCommand :: "verify_command \<Rightarrow> string" where
  "digestVerifyCommand command =
     (if \<not> validVerifyCommand command then DigestPrefix @ replicate 64 (CHR ''0'')
      else sha256_digest (marshal_command command))"

fun changed_paths_loop :: "string list \<Rightarrow> bool \<Rightarrow> bool \<Rightarrow> string list \<Rightarrow> bool \<times> bool" where
  "changed_paths_loop seen_paths valid duplicate [] = (valid, duplicate)"
| "changed_paths_loop seen_paths valid duplicate (item # items) =
     changed_paths_loop (item # seen_paths) (valid \<and> validRepoPath item)
       (duplicate \<or> List.member seen_paths item) items"

definition validateChangedPaths :: "string list \<Rightarrow> bool \<times> bool" where
  "validateChangedPaths paths = changed_paths_loop [] True False paths"

definition validatePatterns :: "string list \<Rightarrow> bool" where
  "validatePatterns patterns \<longleftrightarrow>
     \<not> length patterns > MaxScopePatterns \<and>
     list_all (\<lambda>pattern. case compileGlob pattern of Inl _ \<Rightarrow> False | Inr _ \<Rightarrow> True) patterns"

definition pathsRespectScope :: "string list \<Rightarrow> scope_spec \<Rightarrow> bool" where
  "pathsRespectScope paths scope =
     list_all (\<lambda>item. list_ex (\<lambda>pattern. matchGlob pattern item) (Paths scope) \<and>
                     \<not> list_ex (\<lambda>pattern. matchGlob pattern item) (Forbidden scope)) paths"

section \<open>Normalized observations\<close>

definition commandObservationLess :: "command_observation \<Rightarrow> command_observation \<Rightarrow> bool" where
  "commandObservationLess left right =
     (if co_Index left \<noteq> co_Index right then co_Index left < co_Index right
      else if co_ExitCode left = None \<and> co_ExitCode right \<noteq> None then True
      else if co_ExitCode left \<noteq> None \<and> co_ExitCode right = None then False
      else if co_ExitCode left \<noteq> None \<and> co_ExitCode right \<noteq> None \<and>
              co_ExitCode left \<noteq> co_ExitCode right
      then the (co_ExitCode left) < the (co_ExitCode right)
      else if co_EvidenceDigest left \<noteq> co_EvidenceDigest right
      then co_EvidenceDigest left < co_EvidenceDigest right
      else if co_DurationMillis left = None \<and> co_DurationMillis right \<noteq> None then True
      else if co_DurationMillis left \<noteq> None \<and> co_DurationMillis right = None then False
      else if co_DurationMillis left \<noteq> None \<and> co_DurationMillis right \<noteq> None
      then the (co_DurationMillis left) < the (co_DurationMillis right)
      else False)"

definition observation_key :: "command_observation \<Rightarrow> int \<times> int option \<times> string \<times> int option" where
  "observation_key item = (co_Index item, co_ExitCode item, co_EvidenceDigest item, co_DurationMillis item)"

lemma commandObservationLess_key:
  "commandObservationLess = (\<lambda>left right. observation_key left < observation_key right)"
proof (intro ext)
  fix l r
  show "commandObservationLess l r = (observation_key l < observation_key r)"
    by (cases "co_ExitCode l"; cases "co_ExitCode r"; cases "co_DurationMillis l"; cases "co_DurationMillis r")
      (simp_all add: commandObservationLess_def observation_key_def pair_less del: less_prod_simp)
qed

interpretation command_order: total_slice_order commandObservationLess
  unfolding commandObservationLess_key
  by (rule key_total_slice_order) (simp add: inj_def observation_key_def)

abbreviation path_marker :: string where
  "path_marker \<equiv> [CHR 0x00]"

definition normalizeObservations :: "observations \<Rightarrow> observations" where
  "normalizeObservations input = input\<lparr>
     ChangedPaths :=
       (if length (ChangedPaths input) \<le> MaxChangedPaths
        then sort (map (\<lambda>path. if \<not> validRepoPath path then path_marker else path) (ChangedPaths input))
        else []),
     Commands :=
       (if length (Commands input) \<le> MaxCommandEvidence
        then sort_slice commandObservationLess (Commands input) else []),
     PolicyChecks := (if length (PolicyChecks input) \<le> 512 then PolicyChecks input else [])\<rparr>"

fun summary_paths :: "string list \<Rightarrow> string list \<Rightarrow> string list" where
  "summary_paths seen_paths [] = []"
| "summary_paths seen_paths (path # paths) =
     (if validRepoPath path \<and> \<not> List.member seen_paths path then path # summary_paths (path # seen_paths) paths
      else summary_paths seen_paths paths)"

definition summary :: "observations \<Rightarrow> evidence_summary" where
  "summary ob = \<lparr>
     ev_ChangedPaths = sort (summary_paths [] (ChangedPaths ob)),
     ev_FilesChanged = (if \<not> validCounter (FilesChanged ob) MaxObservedFiles then None else FilesChanged ob),
     ev_LinesChanged = (if \<not> validCounter (LinesChanged ob) MaxObservedLines then None else LinesChanged ob),
     ev_HasBinaryFiles = HasBinaryFiles ob,
     ev_CoverageDelta = (case CoverageDelta ob of None \<Rightarrow> None | Some c \<Rightarrow> normalizeDecimal c),
     ev_NewTestsFailOnBase = NewTestsFailOnBase ob\<rparr>"

section \<open>Verification commands\<close>

type_synonym evidence_index = "int \<Rightarrow> command_observation list"

fun index_evidence ::
  "nat \<Rightarrow> evidence_index \<Rightarrow> bool \<Rightarrow> command_observation list \<Rightarrow> evidence_index \<times> bool" where
  "index_evidence n byIndex evidenceInvalid [] = (byIndex, evidenceInvalid)"
| "index_evidence n byIndex evidenceInvalid (item # items) =
     index_evidence n (byIndex(co_Index item := byIndex (co_Index item) @ [item]))
       (evidenceInvalid \<or> co_Index item < 0 \<or> co_Index item \<ge> int n \<or> byIndex (co_Index item) \<noteq> [])
       items"

definition command_check_name :: "nat \<Rightarrow> string" where
  "command_check_name index = ''verification.command.'' @ pad3 index"

definition valid_evidence :: "command_observation \<Rightarrow> bool" where
  "valid_evidence item \<longleftrightarrow>
     co_ExitCode item \<noteq> None \<and> validEvidenceDigest (co_EvidenceDigest item) \<and>
     validDuration (co_DurationMillis item)"

definition command_passed :: "verify_command \<Rightarrow> command_observation list \<Rightarrow> bool" where
  "command_passed command items =
     (case items of
        [item] \<Rightarrow> validVerifyCommand command \<and> valid_evidence item \<and> co_ExitCode item = Some 0
      | _ \<Rightarrow> False)"

definition command_message :: "verify_command \<Rightarrow> command_observation list \<Rightarrow> string" where
  "command_message command items =
     (if length items = 1 then
        (if command_passed command items then ''verification command passed with recorded evidence''
         else ''verification command failed or its evidence is missing/invalid'')
      else ''verification command evidence is missing or duplicated'')"

definition command_record :: "nat \<Rightarrow> verify_command \<Rightarrow> command_observation list \<Rightarrow> report_command" where
  "command_record index command items =
     (let record0 = \<lparr>rc_Index = int index, rc_ConfigDigest = digestVerifyCommand command, rc_Observed = False,
                     rc_ExitCode = None, rc_EvidenceDigest = [], rc_DurationMillis = None\<rparr>
      in case items of
           [item] \<Rightarrow>
             (if valid_evidence item then
                record0\<lparr>rc_Observed := True, rc_ExitCode := co_ExitCode item,
                        rc_EvidenceDigest := co_EvidenceDigest item,
                        rc_DurationMillis := co_DurationMillis item\<rparr>
              else record0)
         | _ \<Rightarrow> record0)"

fun command_loop ::
  "evidence_index \<Rightarrow> nat \<Rightarrow> verify_command list \<Rightarrow> bool \<Rightarrow> gate_state \<Rightarrow>
   report_command list \<times> bool \<times> gate_state" where
  "command_loop byIndex index [] evidenceInvalid st = ([], evidenceInvalid, st)"
| "command_loop byIndex index (command # configured) evidenceInvalid st =
     (let items = byIndex (int index);
          st' = add (command_check_name index) (command_passed command items)
                  (command_message command items) st;
          (records, invalid', st'') =
            command_loop byIndex (Suc index) configured (evidenceInvalid \<or> length items \<noteq> 1) st'
      in (command_record index command items # records, invalid', st''))"

definition evaluateCommands ::
  "verify_command list \<Rightarrow> command_observation list \<Rightarrow> gate_state \<Rightarrow>
   report_command list \<times> bool \<times> gate_state" where
  "evaluateCommands configured observed st =
     (let configured = take MaxCommands configured;
          (byIndex, evidenceInvalid) = index_evidence (length configured) (\<lambda>_. []) False observed
      in command_loop byIndex 0 configured evidenceInvalid st)"

section \<open>Policy checks\<close>

definition policyFailureMessage :: "nat \<Rightarrow> string \<Rightarrow> string" where
  "policyFailureMessage failures kind =
     (if failures = 0 then ''no '' @ kind @ '' policy checks failed''
      else nat_digits failures @ '' '' @ kind @ '' policy check(s) failed'')"

type_synonym rule_table = "(string \<times> policy_rule) list"

definition rule_well_formed :: "policy_rule \<Rightarrow> bool" where
  "rule_well_formed rule \<longleftrightarrow>
     \<not> (pr_RuleID rule = [] \<or> \<not> ValidDigest (pr_ContractDigest rule) \<or>
        (pr_HasScript rule \<and> \<not> ValidDigest (pr_ScriptDigest rule)) \<or>
        (\<not> pr_HasScript rule \<and> pr_ScriptDigest rule \<noteq> []))"

fun policy_rules_loop :: "rule_table \<Rightarrow> string \<Rightarrow> bool \<Rightarrow> policy_rule list \<Rightarrow> rule_table \<times> string \<times> bool" where
  "policy_rules_loop expected contractDigest configValid [] = (expected, contractDigest, configValid)"
| "policy_rules_loop expected contractDigest configValid (rule # rules) =
     policy_rules_loop
       (AList.update (pr_RuleID rule) rule expected)
       (if contractDigest = [] then pr_ContractDigest rule else contractDigest)
       (configValid \<and> rule_well_formed rule \<and>
        (contractDigest = [] \<or> contractDigest = pr_ContractDigest rule) \<and>
        map_of expected (pr_RuleID rule) = None)
       rules"

definition policy_passed :: "policy_rule \<Rightarrow> policy_observation \<Rightarrow> bool" where
  "policy_passed rule observation =
     (if \<not> pr_HasScript rule then
        po_Skipped observation \<and> po_ScriptDigest observation = [] \<and> po_ExitCode observation = None
      else po_ScriptDigest observation = pr_ScriptDigest rule \<and> po_ExitCode observation = Some 0)"

record policy_tally =
  seen_rules :: "string list"
  blockingFailures :: nat
  advisoryFailures :: nat
  configValid :: bool

definition policy_observe :: "rule_table \<Rightarrow> string \<Rightarrow> policy_observation \<Rightarrow> policy_tally \<Rightarrow> policy_tally" where
  "policy_observe expected contractDigest observation t =
     (let t = t\<lparr>configValid := configValid t \<and>
                \<not> (po_RuleID observation = [] \<or> po_ContractDigest observation \<noteq> contractDigest) \<and>
                \<not> List.member (seen_rules t) (po_RuleID observation)\<rparr>;
          t = t\<lparr>seen_rules := List.insert (po_RuleID observation) (seen_rules t)\<rparr>
      in case map_of expected (po_RuleID observation) of
           None \<Rightarrow> t\<lparr>configValid := False\<rparr>
         | Some rule \<Rightarrow>
             if policy_passed rule observation then t
             else if pr_Blocking rule then t\<lparr>blockingFailures := Suc (blockingFailures t)\<rparr>
             else t\<lparr>advisoryFailures := Suc (advisoryFailures t)\<rparr>)"

definition evaluatePolicyChecks ::
  "policy_rule list \<Rightarrow> policy_observation list \<Rightarrow> gate_state \<Rightarrow> gate_state" where
  "evaluatePolicyChecks rules obs st =
     (if rules = [] \<and> obs = [] then st
      else if rules = [] \<or> obs = [] then
        add ''policy.evidence'' False ''policy contract or policy evidence is missing'' st
      else
        let (expected, contractDigest, ok) = policy_rules_loop [] [] True rules;
            t = fold (policy_observe expected contractDigest) obs
                  \<lparr>seen_rules = [], blockingFailures = 0, advisoryFailures = 0, configValid = ok\<rparr>;
            ok = (configValid t \<and> length (seen_rules t) = length expected);
            st = add ''policy.evidence'' ok ''policy observations match the immutable contract'' st;
            st = add ''policy.blocking'' (ok \<and> blockingFailures t = 0)
                   (policyFailureMessage (blockingFailures t) ''blocking'') st
        in add ''policy.advisory'' True (policyFailureMessage (advisoryFailures t) ''advisory'') st)"

section \<open>Evaluate\<close>

definition check_bounds :: "gate_input \<Rightarrow> gate_state \<Rightarrow> gate_state" where
  "check_bounds input st =
     (let st = (if length (ChangedPaths (in_Observations input)) > MaxChangedPaths \<or>
                   length (Commands (in_Observations input)) > MaxCommandEvidence
                then invalid ''input.bounds'' ''bounded observation limit exceeded'' st else st);
          st = (if length (Paths (in_Scope input)) + length (Forbidden (in_Scope input)) > MaxScopePatterns
                then invalid ''input.scope.bounds'' ''bounded scope pattern limit exceeded'' st else st);
          st = (if length (in_Commands input) > MaxCommands
                then invalid ''configuration.commands'' ''verification command limit exceeded'' st else st)
      in if length (in_PolicyRules input) > 512 \<or> length (PolicyChecks (in_Observations input)) > 512
         then invalid ''policy.bounds'' ''policy check limit exceeded'' st else st)"

definition paths_valid :: "observations \<Rightarrow> bool" where
  "paths_valid obs = (let (pathValid, duplicatePath) = validateChangedPaths (ChangedPaths obs)
                      in pathValid \<and> \<not> duplicatePath)"

definition scope_valid :: "gate_input \<Rightarrow> bool" where
  "scope_valid input \<longleftrightarrow> validatePatterns (Paths (in_Scope input)) \<and> validatePatterns (Forbidden (in_Scope input))"

definition check_shape :: "gate_input \<Rightarrow> observations \<Rightarrow> gate_state \<Rightarrow> gate_state" where
  "check_shape input obs st =
     (let st = (if \<not> paths_valid obs
                then invalid ''observations.paths'' ''changed path evidence is not normalized'' st else st)
      in if \<not> scope_valid input
         then invalid ''configuration.scope'' ''scope contains an invalid glob'' st else st)"

definition files_passed :: "gate_requirements \<Rightarrow> observations \<Rightarrow> bool" where
  "files_passed req obs =
     (case FilesChanged obs of
        None \<Rightarrow> False
      | Some files \<Rightarrow>
          validCounter (Some files) MaxObservedFiles \<and> files = int (length (ChangedPaths obs)) \<and>
          \<not> (MaxFilesChanged req > 0 \<and> \<not> files \<le> MaxFilesChanged req))"

definition check_files :: "gate_requirements \<Rightarrow> observations \<Rightarrow> gate_state \<Rightarrow> gate_state" where
  "check_files req obs st =
     (if ScopeRespected req \<or> MaxFilesChanged req > 0 then
        let passed = files_passed req obs;
            message = (if passed then ''file count is within the configured bound''
                       else ''file count evidence is missing, inconsistent, or over the configured bound'')
        in if MaxFilesChanged req > 0 then add ''files.max'' passed message st
           else add ''files.evidence'' passed message st
      else st)"

definition lines_passed :: "gate_requirements \<Rightarrow> observations \<Rightarrow> bool" where
  "lines_passed req obs =
     (case LinesChanged obs of
        None \<Rightarrow> False
      | Some n \<Rightarrow> validCounter (Some n) MaxObservedLines \<and> n \<le> MaxDiffLines req)"

definition check_lines :: "gate_requirements \<Rightarrow> observations \<Rightarrow> gate_state \<Rightarrow> gate_state" where
  "check_lines req obs st =
     (if MaxDiffLines req > 0 then
        let passed = lines_passed req obs
        in add ''diff.lines.max'' passed
             (if passed then ''diff line count is within the configured bound''
              else ''diff line count evidence is missing, invalid, or over the configured bound'') st
      else st)"

definition check_binary :: "gate_requirements \<Rightarrow> observations \<Rightarrow> gate_state \<Rightarrow> gate_state" where
  "check_binary req obs st =
     (if NoBinaryFiles req then
        let passed = (HasBinaryFiles obs = Some False)
        in add ''binary.none'' passed
             (if passed then ''patch contains no binary files''
              else ''binary-file evidence is missing or the patch contains a binary file'') st
      else st)"

definition scope_passed :: "gate_input \<Rightarrow> observations \<Rightarrow> bool" where
  "scope_passed input obs \<longleftrightarrow>
     paths_valid obs \<and> scope_valid input \<and> pathsRespectScope (ChangedPaths obs) (in_Scope input)"

definition check_scope :: "gate_input \<Rightarrow> observations \<Rightarrow> gate_state \<Rightarrow> gate_state" where
  "check_scope input obs st =
     (if ScopeRespected (in_Requirements input) then
        let passed = scope_passed input obs
        in add ''scope.respected'' passed
             (if passed then ''all changed paths are allowed and not forbidden''
              else ''a changed path is outside the allowlist, forbidden, or path evidence is invalid'') st
      else st)"

definition coverage_passed :: "gate_requirements \<Rightarrow> observations \<Rightarrow> bool" where
  "coverage_passed req obs =
     (case CoverageDelta obs of None \<Rightarrow> False | Some c \<Rightarrow> coverageSatisfies (req_CoverageDelta req) c)"

definition check_coverage :: "gate_requirements \<Rightarrow> observations \<Rightarrow> gate_state \<Rightarrow> gate_state" where
  "check_coverage req obs st =
     (if trim_space (req_CoverageDelta req) \<noteq> [] then
        let passed = coverage_passed req obs
        in add ''coverage.delta'' passed
             (if passed then ''coverage delta satisfies the configured requirement''
              else ''coverage delta evidence is missing, malformed, or below the configured requirement'') st
      else st)"

definition check_tests :: "gate_requirements \<Rightarrow> observations \<Rightarrow> gate_state \<Rightarrow> gate_state" where
  "check_tests req obs st =
     (if TestStrength req = TestStrengthNewTestsFailOnBase then
        let passed = (NewTestsFailOnBase obs = Some True)
        in add ''tests.new-fail-on-base'' passed
             (if passed then ''new tests fail on the pristine base revision''
              else ''new-tests-on-base evidence is missing or the tests pass on the base revision'') st
      else st)"

definition check_requirements :: "gate_input \<Rightarrow> observations \<Rightarrow> gate_state \<Rightarrow> gate_state" where
  "check_requirements input obs st =
     (let req = in_Requirements input
      in check_tests req obs (check_coverage req obs (check_scope input obs
           (check_binary req obs (check_lines req obs (check_files req obs st))))))"

definition check_configuration :: "gate_requirements \<Rightarrow> gate_state \<Rightarrow> gate_state" where
  "check_configuration req st =
     (let st = (if TestStrength req \<noteq> TestStrengthNone \<and> TestStrength req \<noteq> TestStrengthNewTestsFailOnBase
                then invalid ''configuration.test-strength'' ''unsupported test-strength policy'' st else st);
          st = (if TestStrength req = TestStrengthEmpty
                then invalid ''configuration.test-strength'' ''test-strength policy is missing'' st else st);
          st = (if req_CoverageDelta req \<noteq> [] \<and> \<not> validCoverageRequirement (req_CoverageDelta req)
                then invalid ''configuration.coverage'' ''coverage requirement is malformed'' st else st)
      in if MaxFilesChanged req < 0 \<or> MaxDiffLines req < 0
         then invalid ''configuration.bounds'' ''configured file or line bound is negative'' st else st)"

definition run_commands :: "gate_input \<Rightarrow> observations \<Rightarrow> gate_state \<Rightarrow> report_command list \<times> gate_state" where
  "run_commands input obs st =
     (let (records, commandEvidenceInvalid, st) = evaluateCommands (in_Commands input) (Commands obs) st;
          st = (if commandEvidenceInvalid
                then invalid ''verification.evidence''
                       ''verification command evidence is malformed or contains an unknown command'' st
                else st);
          st = (if in_Commands input = []
                then invalid ''configuration.commands'' ''at least one verification command is required'' st
                else st)
      in (records, st))"

definition gate_checks :: "gate_input \<Rightarrow> report_command list \<times> gate_state" where
  "gate_checks input =
     (let obs = normalizeObservations (in_Observations input);
          st = \<lparr>checks = [], checkNames = [], inputInvalid = False\<rparr>;
          st = check_shape input obs (check_bounds input st);
          st = check_requirements input obs st;
          (records, st) = run_commands input obs st;
          st = evaluatePolicyChecks (in_PolicyRules input) (PolicyChecks obs) st
      in (records, check_configuration (in_Requirements input) st))"

definition Evaluate :: "gate_input \<Rightarrow> decision" where
  "Evaluate input =
     (let (records, st) = gate_checks input;
          cs = (if inputInvalid st \<and> checks st = []
                then [\<lparr>gc_Name = ''input.valid'', gc_Passed = False, gc_Message = ''gate input is invalid''\<rparr>]
                else checks st);
          bad = (inputInvalid st \<or> list_ex (\<lambda>check. \<not> gc_Passed check) cs)
      in \<lparr>d_Verdict = (if \<not> bad then Accepted else Rejected), d_Checks = cs, evaluated = True,
          commandRecords = records, evidence = summary (normalizeObservations (in_Observations input))\<rparr>)"

definition EvaluateRun ::
  "scope_spec \<Rightarrow> gate_requirements \<Rightarrow> verify_command list \<Rightarrow> observations \<Rightarrow> policy_rule list \<Rightarrow> decision" where
  "EvaluateRun scope require commands obs policyRules =
     Evaluate \<lparr>in_Scope = scope, in_Requirements = require, in_Commands = commands,
               in_PolicyRules = policyRules, in_Observations = obs\<rparr>"

definition Decision_Accepted :: "decision \<Rightarrow> bool" where
  "Decision_Accepted d \<longleftrightarrow> d_Verdict d = Accepted"

end
