(* ===== verification/Gate_Decision.thy ===== *)
theory Gate_Decision
  imports Gate_Engine
begin

text \<open>
  What the decision engine guarantees. Every step of \<^const>\<open>Evaluate\<close> is a sequence of calls of
  \<^const>\<open>add\<close> and \<^const>\<open>invalid\<close>; \<open>gate_requests\<close> is that sequence as a list. Its names are
  distinct and it is shorter than the bound on checks, so no call is refused, the emitted
  checks are the requests, and the verdict is the conjunction of their outcomes.
\<close>

section \<open>Requests\<close>

record request =
  rq_name :: string
  rq_passed :: bool
  rq_message :: string
  rq_invalid :: bool

definition run_request :: "request \<Rightarrow> gate_state \<Rightarrow> gate_state" where
  "run_request r st =
     (if rq_invalid r then invalid (rq_name r) (rq_message r) st
      else add (rq_name r) (rq_passed r) (rq_message r) st)"

definition adding :: "bool \<Rightarrow> string \<Rightarrow> bool \<Rightarrow> string \<Rightarrow> request list" where
  "adding c name passed message =
     (if c then [\<lparr>rq_name = name, rq_passed = passed, rq_message = message, rq_invalid = False\<rparr>] else [])"

definition refusing :: "bool \<Rightarrow> string \<Rightarrow> string \<Rightarrow> request list" where
  "refusing c name message =
     (if c then [\<lparr>rq_name = name, rq_passed = False, rq_message = message, rq_invalid = True\<rparr>] else [])"

lemma run_adding: "fold run_request (adding c n p m) st = (if c then add n p m st else st)"
  by (simp add: adding_def run_request_def)

lemma run_refusing: "fold run_request (refusing c n m) st = (if c then invalid n m st else st)"
  by (simp add: refusing_def run_request_def)

lemma invalid_twice: "invalid n m' (invalid n m st) = invalid n m st"
  by (auto simp: invalid_def add_def)

section \<open>Running a list of requests\<close>

definition valid_name :: "string \<Rightarrow> bool" where
  "valid_name name \<longleftrightarrow> name \<noteq> [] \<and> length name \<le> 128 \<and> utf8_valid name"

definition request_check :: "request \<Rightarrow> gate_check" where
  "request_check r = \<lparr>gc_Name = rq_name r, gc_Passed = (rq_passed r \<and> \<not> rq_invalid r),
                      gc_Message = take MaxStatusMessage (rq_message r)\<rparr>"

definition room_for :: "gate_state \<Rightarrow> request list \<Rightarrow> bool" where
  "room_for st rs \<longleftrightarrow> length (checks st) + length rs \<le> MaxChecks \<and>
     (\<forall>r\<in>set rs. valid_name (rq_name r) \<and> rq_name r \<notin> set (checkNames st)) \<and> distinct (map rq_name rs)"

lemma run_request_accepted:
  assumes "room_for st (r # rs)"
  shows "run_request r st = st\<lparr>checkNames := rq_name r # checkNames st,
           checks := checks st @ [request_check r], inputInvalid := inputInvalid st \<or> rq_invalid r\<rparr>"
  using assms
  by (auto simp: room_for_def run_request_def invalid_def add_def request_check_def valid_name_def)

lemma run_requests:
  "room_for st rs \<Longrightarrow>
     checks (fold run_request rs st) = checks st @ map request_check rs \<and>
     inputInvalid (fold run_request rs st) = (inputInvalid st \<or> (\<exists>r\<in>set rs. rq_invalid r))"
proof (induction rs arbitrary: st)
  case Nil
  then show ?case by simp
next
  case (Cons r rs)
  let ?st = "run_request r st"
  have "room_for ?st rs"
    using Cons.prems unfolding run_request_accepted [OF Cons.prems]
    by (auto simp: room_for_def) (metis imageI)
  from Cons.IH [OF this] show ?case
    using run_request_accepted [OF Cons.prems] by simp
qed

section \<open>The requests of an evaluation\<close>

definition bounds_requests :: "gate_input \<Rightarrow> request list" where
  "bounds_requests input =
     refusing (length (ChangedPaths (in_Observations input)) > MaxChangedPaths \<or>
               length (Commands (in_Observations input)) > MaxCommandEvidence)
       ''input.bounds'' ''bounded observation limit exceeded'' @
     refusing (length (Paths (in_Scope input)) + length (Forbidden (in_Scope input)) > MaxScopePatterns)
       ''input.scope.bounds'' ''bounded scope pattern limit exceeded'' @
     refusing (length (in_Commands input) > MaxCommands)
       ''configuration.commands'' ''verification command limit exceeded'' @
     refusing (length (in_PolicyRules input) > 512 \<or> length (PolicyChecks (in_Observations input)) > 512)
       ''policy.bounds'' ''policy check limit exceeded''"

definition shape_requests :: "gate_input \<Rightarrow> observations \<Rightarrow> request list" where
  "shape_requests input obs =
     refusing (\<not> paths_valid obs) ''observations.paths'' ''changed path evidence is not normalized'' @
     refusing (\<not> scope_valid input) ''configuration.scope'' ''scope contains an invalid glob''"

definition requirement_requests :: "gate_input \<Rightarrow> observations \<Rightarrow> request list" where
  "requirement_requests input obs =
     (let req = in_Requirements input in
      adding (ScopeRespected req \<or> MaxFilesChanged req > 0)
        (if MaxFilesChanged req > 0 then ''files.max'' else ''files.evidence'') (files_passed req obs)
        (if files_passed req obs then ''file count is within the configured bound''
         else ''file count evidence is missing, inconsistent, or over the configured bound'') @
      adding (MaxDiffLines req > 0) ''diff.lines.max'' (lines_passed req obs)
        (if lines_passed req obs then ''diff line count is within the configured bound''
         else ''diff line count evidence is missing, invalid, or over the configured bound'') @
      adding (NoBinaryFiles req) ''binary.none'' (HasBinaryFiles obs = Some False)
        (if HasBinaryFiles obs = Some False then ''patch contains no binary files''
         else ''binary-file evidence is missing or the patch contains a binary file'') @
      adding (ScopeRespected req) ''scope.respected'' (scope_passed input obs)
        (if scope_passed input obs then ''all changed paths are allowed and not forbidden''
         else ''a changed path is outside the allowlist, forbidden, or path evidence is invalid'') @
      adding (trim_space (req_CoverageDelta req) \<noteq> []) ''coverage.delta'' (coverage_passed req obs)
        (if coverage_passed req obs then ''coverage delta satisfies the configured requirement''
         else ''coverage delta evidence is missing, malformed, or below the configured requirement'') @
      adding (TestStrength req = TestStrengthNewTestsFailOnBase) ''tests.new-fail-on-base''
        (NewTestsFailOnBase obs = Some True)
        (if NewTestsFailOnBase obs = Some True then ''new tests fail on the pristine base revision''
         else ''new-tests-on-base evidence is missing or the tests pass on the base revision''))"

definition indexed_evidence :: "gate_input \<Rightarrow> observations \<Rightarrow> evidence_index \<times> bool" where
  "indexed_evidence input obs =
     index_evidence (length (take MaxCommands (in_Commands input))) (\<lambda>_. []) False (Commands obs)"

fun command_requests :: "evidence_index \<Rightarrow> nat \<Rightarrow> verify_command list \<Rightarrow> request list" where
  "command_requests byIndex i [] = []"
| "command_requests byIndex i (c # cs) =
     adding True (command_check_name i) (command_passed c (byIndex (int i)))
       (command_message c (byIndex (int i))) @ command_requests byIndex (Suc i) cs"

fun evidence_gap :: "evidence_index \<Rightarrow> nat \<Rightarrow> verify_command list \<Rightarrow> bool" where
  "evidence_gap byIndex i [] = False"
| "evidence_gap byIndex i (c # cs) = (length (byIndex (int i)) \<noteq> 1 \<or> evidence_gap byIndex (Suc i) cs)"

definition evaluation_requests :: "gate_input \<Rightarrow> observations \<Rightarrow> request list" where
  "evaluation_requests input obs =
     (let (byIndex, bad) = indexed_evidence input obs;
          configured = take MaxCommands (in_Commands input)
      in command_requests byIndex 0 configured @
         refusing (bad \<or> evidence_gap byIndex 0 configured) ''verification.evidence''
           ''verification command evidence is malformed or contains an unknown command'' @
         refusing (in_Commands input = []) ''configuration.commands''
           ''at least one verification command is required'')"

definition policy_tally_of :: "policy_rule list \<Rightarrow> policy_observation list \<Rightarrow> bool \<times> policy_tally" where
  "policy_tally_of rules obs =
     (let (expected, contractDigest, ok) = policy_rules_loop [] [] True rules;
          t = fold (policy_observe expected contractDigest) obs
                \<lparr>seen_rules = [], blockingFailures = 0, advisoryFailures = 0, configValid = ok\<rparr>
      in (configValid t \<and> length (seen_rules t) = length expected, t))"

definition policy_requests :: "policy_rule list \<Rightarrow> policy_observation list \<Rightarrow> request list" where
  "policy_requests rules obs =
     (let (ok, t) = policy_tally_of rules obs;
          both = (rules \<noteq> [] \<and> obs \<noteq> [])
      in adding (rules \<noteq> [] \<or> obs \<noteq> []) ''policy.evidence'' (both \<and> ok)
           (if both then ''policy observations match the immutable contract''
            else ''policy contract or policy evidence is missing'') @
         adding both ''policy.blocking'' (ok \<and> blockingFailures t = 0)
           (policyFailureMessage (blockingFailures t) ''blocking'') @
         adding both ''policy.advisory'' True (policyFailureMessage (advisoryFailures t) ''advisory''))"

definition configuration_requests :: "gate_requirements \<Rightarrow> request list" where
  "configuration_requests req =
     refusing (TestStrength req \<noteq> TestStrengthNone \<and> TestStrength req \<noteq> TestStrengthNewTestsFailOnBase)
       ''configuration.test-strength'' ''unsupported test-strength policy'' @
     refusing (req_CoverageDelta req \<noteq> [] \<and> \<not> validCoverageRequirement (req_CoverageDelta req))
       ''configuration.coverage'' ''coverage requirement is malformed'' @
     refusing (MaxFilesChanged req < 0 \<or> MaxDiffLines req < 0)
       ''configuration.bounds'' ''configured file or line bound is negative''"

definition gate_requests :: "gate_input \<Rightarrow> request list" where
  "gate_requests input =
     (let obs = normalizeObservations (in_Observations input) in
      bounds_requests input @ shape_requests input obs @ requirement_requests input obs @
      evaluation_requests input obs @ policy_requests (in_PolicyRules input) (PolicyChecks obs) @
      configuration_requests (in_Requirements input))"

lemmas run_simps = run_adding run_refusing

lemma check_bounds_requests: "check_bounds input st = fold run_request (bounds_requests input) st"
  by (simp add: check_bounds_def bounds_requests_def run_simps Let_def)

lemma check_shape_requests: "check_shape input obs st = fold run_request (shape_requests input obs) st"
  by (simp add: check_shape_def shape_requests_def run_simps Let_def)

lemma check_files_request:
  "check_files req obs st =
     (if ScopeRespected req \<or> MaxFilesChanged req > 0
      then add (if MaxFilesChanged req > 0 then ''files.max'' else ''files.evidence'') (files_passed req obs)
        (if files_passed req obs then ''file count is within the configured bound''
         else ''file count evidence is missing, inconsistent, or over the configured bound'') st
      else st)"
  unfolding check_files_def Let_def by (cases "MaxFilesChanged req > 0") (simp_all only: if_True if_False)

lemma check_requirements_requests:
  "check_requirements input obs st = fold run_request (requirement_requests input obs) st"
  unfolding check_requirements_def requirement_requests_def check_files_request check_lines_def
    check_binary_def check_scope_def check_coverage_def check_tests_def Let_def
    fold_append o_apply run_adding ..

lemma command_loop_requests:
  "snd (command_loop byIndex i cs bad st) =
     (bad \<or> evidence_gap byIndex i cs, fold run_request (command_requests byIndex i cs) st)"
  by (induction cs arbitrary: i bad st) (simp_all add: run_simps Let_def case_prod_unfold disj_assoc)

lemma evaluatePolicyChecks_requests:
  "evaluatePolicyChecks rules obs st = fold run_request (policy_requests rules obs) st"
  by (auto simp: evaluatePolicyChecks_def policy_requests_def policy_tally_of_def run_simps Let_def
      split: prod.split)

lemma check_configuration_requests:
  "check_configuration req st = fold run_request (configuration_requests req) st"
  by (simp add: check_configuration_def configuration_requests_def run_simps Let_def invalid_twice)

abbreviation initial_state :: gate_state where
  "initial_state \<equiv> \<lparr>checks = [], checkNames = [], inputInvalid = False\<rparr>"

lemma run_commands_requests:
  "snd (run_commands input obs st) = fold run_request (evaluation_requests input obs) st"
proof -
  obtain byIndex bad where e: "indexed_evidence input obs = (byIndex, bad)" by fastforce
  define cs where "cs = take MaxCommands (in_Commands input)"
  have ev: "evaluateCommands (in_Commands input) (Commands obs) st = command_loop byIndex 0 cs bad st"
    using e by (simp add: evaluateCommands_def indexed_evidence_def Let_def cs_def)
  obtain records where "command_loop byIndex 0 cs bad st =
      (records, bad \<or> evidence_gap byIndex 0 cs, fold run_request (command_requests byIndex 0 cs) st)"
    by (metis command_loop_requests prod.collapse)
  then show ?thesis
    unfolding run_commands_def evaluation_requests_def e ev cs_def [symmetric]
    by (simp only: Let_def prod.case fold_append o_apply run_adding run_refusing snd_conv)
qed

lemma gate_checks_requests: "snd (gate_checks input) = fold run_request (gate_requests input) initial_state"
  unfolding gate_checks_def gate_requests_def Let_def case_prod_unfold snd_conv fold_append o_apply
    check_bounds_requests check_shape_requests check_requirements_requests run_commands_requests
    evaluatePolicyChecks_requests check_configuration_requests ..

section \<open>Names are distinct\<close>

definition check_names :: "bool \<Rightarrow> string list" where
  "check_names many =
     ([''input.bounds'', ''input.scope.bounds''] @ (if many then [''configuration.commands''] else []) @
      [''policy.bounds'']) @
     [''observations.paths'', ''configuration.scope''] @
     [''files.max'', ''files.evidence'', ''diff.lines.max'', ''binary.none'', ''scope.respected'',
      ''coverage.delta'', ''tests.new-fail-on-base''] @
     (map command_check_name [0..<MaxCommands] @
      [''verification.evidence''] @ (if many then [] else [''configuration.commands''])) @
     [''policy.evidence'', ''policy.blocking'', ''policy.advisory''] @
     [''configuration.test-strength'', ''configuration.coverage'', ''configuration.bounds'']"

lemma command_names:
  "map command_check_name [0..<MaxCommands] =
     map (\<lambda>(d, e). ''verification.command.0'' @ [d, e])
       (take MaxCommands (List.product ''0123'' ''0123456789''))"
  by code_simp

lemma check_names_cases:
  "distinct (check_names True)" "distinct (check_names False)"
  unfolding check_names_def command_names by simp_all

lemma check_names_ascii:
  "list_all (\<lambda>name. name \<noteq> [] \<and> length name \<le> 128 \<and> list_all (\<lambda>c. \<not> digit7 c) name) (check_names many)"
  unfolding check_names_def command_names by simp

lemma check_names_distinct: "distinct (check_names many)"
  using check_names_cases by (cases many) (simp_all only:)

lemma check_names_valid: "list_all valid_name (check_names many)"
  using check_names_ascii [of many] utf8_valid_ascii unfolding list_all_iff valid_name_def by blast

lemma check_names_length: "length (check_names many) \<le> MaxChecks"
  by (simp add: check_names_def)

lemma names_adding [simp]: "map rq_name (adding c n p m) = (if c then [n] else [])"
  by (simp add: adding_def)

lemma names_refusing [simp]: "map rq_name (refusing c n m) = (if c then [n] else [])"
  by (simp add: refusing_def)

lemma names_command_requests:
  "map rq_name (command_requests byIndex i cs) = map command_check_name [i..<i + length cs]"
  by (induction cs arbitrary: i) (simp_all add: upt_conv_Cons del: upt_Suc)

lemma names_command_subseq:
  "subseq (map rq_name (command_requests byIndex 0 (take MaxCommands cs))) (map command_check_name [0..<MaxCommands])"
proof -
  have "[0..<MaxCommands] = [0..<min (length cs) MaxCommands] @ [min (length cs) MaxCommands..<MaxCommands]"
    using upt_add_eq_append [of 0 "min (length cs) MaxCommands" "MaxCommands - min (length cs) MaxCommands"]
    by simp
  then have "map command_check_name [0..<MaxCommands] = map command_check_name [0..<min (length cs) MaxCommands]
      @ map command_check_name [min (length cs) MaxCommands..<MaxCommands]"
    by (metis map_append)
  then show ?thesis by (simp add: names_command_requests min.commute prefix_imp_subseq)
qed

lemma gate_requests_names:
  "subseq (map rq_name (gate_requests input)) (check_names (length (in_Commands input) > MaxCommands))"
proof -
  let ?many = "length (in_Commands input) > MaxCommands"
  let ?obs = "normalizeObservations (in_Observations input)"
  have 1: "subseq (map rq_name (bounds_requests input))
      ([''input.bounds'', ''input.scope.bounds''] @ (if ?many then [''configuration.commands''] else []) @
       [''policy.bounds''])"
    by (simp add: bounds_requests_def)
  have 2: "subseq (map rq_name (shape_requests input ?obs)) [''observations.paths'', ''configuration.scope'']"
    by (simp add: shape_requests_def)
  have 3: "subseq (map rq_name (requirement_requests input ?obs))
      [''files.max'', ''files.evidence'', ''diff.lines.max'', ''binary.none'', ''scope.respected'',
       ''coverage.delta'', ''tests.new-fail-on-base'']"
    by (simp add: requirement_requests_def Let_def)
  have 4: "subseq (map rq_name (evaluation_requests input ?obs))
      (map command_check_name [0..<MaxCommands] @
       [''verification.evidence''] @ (if ?many then [] else [''configuration.commands'']))"
    unfolding evaluation_requests_def case_prod_unfold Let_def map_append
    by (intro list_emb_append_mono names_command_subseq) auto
  have 5: "subseq (map rq_name (policy_requests rules obs)) [''policy.evidence'', ''policy.blocking'', ''policy.advisory'']"
    for rules obs by (simp add: policy_requests_def case_prod_unfold Let_def)
  have 6: "subseq (map rq_name (configuration_requests req))
      [''configuration.test-strength'', ''configuration.coverage'', ''configuration.bounds'']" for req
    by (simp add: configuration_requests_def)
  show ?thesis
    unfolding gate_requests_def check_names_def Let_def map_append
    by (intro list_emb_append_mono 1 2 3 4 5 6)
qed

lemma subseq_set: "subseq xs ys \<Longrightarrow> set xs \<subseteq> set ys"
  by (induction rule: list_emb.induct) auto

lemma subseq_distinct: "subseq xs ys \<Longrightarrow> distinct ys \<Longrightarrow> distinct xs"
  by (induction rule: list_emb.induct) (auto dest: subseq_set)

lemma gate_requests_room: "room_for initial_state (gate_requests input)"
proof -
  let ?many = "length (in_Commands input) > MaxCommands"
  note sub = gate_requests_names [of input]
  have "length (gate_requests input) \<le> MaxChecks"
    using list_emb_length [OF sub] check_names_length [of ?many] by simp
  moreover have "valid_name (rq_name r)" if "r \<in> set (gate_requests input)" for r
    using subseq_set [OF sub] check_names_valid that unfolding list_all_iff by auto
  moreover have "distinct (map rq_name (gate_requests input))"
    using subseq_distinct [OF sub] check_names_distinct by blast
  ultimately show ?thesis by (simp add: room_for_def)
qed

lemma gate_requests_nonempty: "gate_requests input \<noteq> []"
proof (cases "in_Commands input")
  case Nil
  then show ?thesis
    by (simp add: gate_requests_def evaluation_requests_def case_prod_unfold Let_def refusing_def)
next
  case (Cons c cs)
  then show ?thesis
    by (simp add: gate_requests_def evaluation_requests_def case_prod_unfold Let_def adding_def)
qed

text \<open>A call of \<^const>\<open>invalid\<close> is a failed check.\<close>

definition refusals_fail :: "request list \<Rightarrow> bool" where
  "refusals_fail rs \<longleftrightarrow> (\<forall>r\<in>set rs. rq_invalid r \<longrightarrow> \<not> rq_passed r)"

lemma refusals_fail_simps [simp]:
  "refusals_fail (adding c n p m)" "refusals_fail (refusing c n m)"
  "refusals_fail (rs @ rs') \<longleftrightarrow> refusals_fail rs \<and> refusals_fail rs'"
  by (auto simp: refusals_fail_def adding_def refusing_def)

lemma refusals_fail_commands [simp]: "refusals_fail (command_requests byIndex i cs)"
  by (induction cs arbitrary: i) (simp_all add: refusals_fail_def [of "[]"])

lemma refused_not_passed: "r \<in> set (gate_requests input) \<Longrightarrow> rq_invalid r \<Longrightarrow> \<not> rq_passed r"
proof -
  have "refusals_fail (gate_requests input)"
    unfolding gate_requests_def bounds_requests_def shape_requests_def requirement_requests_def
      evaluation_requests_def policy_requests_def configuration_requests_def case_prod_unfold Let_def
    by (simp only: refusals_fail_simps refusals_fail_commands simp_thms)
  then show "r \<in> set (gate_requests input) \<Longrightarrow> rq_invalid r \<Longrightarrow> \<not> rq_passed r"
    by (auto simp: refusals_fail_def)
qed

lemma Evaluate_requests:
  "d_Checks (Evaluate input) = map request_check (gate_requests input)"
  "d_Verdict (Evaluate input) = Accepted \<longleftrightarrow> (\<forall>r\<in>set (gate_requests input). rq_passed r)"
proof -
  define st where "st = snd (gate_checks input)"
  have st: "checks st = map request_check (gate_requests input)"
    "inputInvalid st \<longleftrightarrow> (\<exists>r\<in>set (gate_requests input). rq_invalid r)"
    using run_requests [OF gate_requests_room] unfolding st_def gate_checks_requests by simp_all
  have ne: "checks st \<noteq> []" using st(1) gate_requests_nonempty by simp
  show "d_Checks (Evaluate input) = map request_check (gate_requests input)"
    using ne st(1) unfolding Evaluate_def case_prod_unfold Let_def st_def by simp
  have "d_Verdict (Evaluate input) = Accepted \<longleftrightarrow>
      \<not> (inputInvalid st \<or> list_ex (\<lambda>check. \<not> gc_Passed check) (checks st))"
    using ne unfolding Evaluate_def case_prod_unfold Let_def st_def by simp
  also have "\<dots> \<longleftrightarrow> (\<forall>r\<in>set (gate_requests input). rq_passed r)"
    using refused_not_passed unfolding st by (auto simp: list_ex_iff request_check_def)
  finally show "d_Verdict (Evaluate input) = Accepted \<longleftrightarrow> (\<forall>r\<in>set (gate_requests input). rq_passed r)" .
qed

section \<open>The policy a decision enforces\<close>

definition bounded_input :: "gate_input \<Rightarrow> bool" where
  "bounded_input input \<longleftrightarrow>
     length (ChangedPaths (in_Observations input)) \<le> 4096 \<and> length (Commands (in_Observations input)) \<le> 32 \<and>
     length (Paths (in_Scope input)) + length (Forbidden (in_Scope input)) \<le> 256 \<and>
     in_Commands input \<noteq> [] \<and> length (in_Commands input) \<le> 32 \<and>
     length (in_PolicyRules input) \<le> 512 \<and> length (PolicyChecks (in_Observations input)) \<le> 512"

definition sound_configuration :: "gate_input \<Rightarrow> bool" where
  "sound_configuration input \<longleftrightarrow>
     (let req = in_Requirements input in
      TestStrength req \<in> {TestStrengthNone, TestStrengthNewTestsFailOnBase} \<and>
      (req_CoverageDelta req = [] \<or> validCoverageRequirement (req_CoverageDelta req)) \<and>
      0 \<le> MaxFilesChanged req \<and> 0 \<le> MaxDiffLines req \<and>
      (\<forall>pattern\<in>set (Paths (in_Scope input)) \<union> set (Forbidden (in_Scope input)).
         \<exists>p. compileGlob pattern = Inr p))"

definition change_respects :: "gate_input \<Rightarrow> bool" where
  "change_respects input \<longleftrightarrow>
     (let req = in_Requirements input; obs = in_Observations input; paths = ChangedPaths obs in
      distinct paths \<and> (\<forall>path\<in>set paths. validRepoPath path) \<and>
      (ScopeRespected req \<longrightarrow>
         (\<forall>path\<in>set paths. (\<exists>pattern\<in>set (Paths (in_Scope input)). matchGlob pattern path) \<and>
                          (\<forall>pattern\<in>set (Forbidden (in_Scope input)). \<not> matchGlob pattern path))) \<and>
      (ScopeRespected req \<or> MaxFilesChanged req > 0 \<longrightarrow> FilesChanged obs = Some (int (length paths))) \<and>
      (MaxFilesChanged req > 0 \<longrightarrow> int (length paths) \<le> MaxFilesChanged req) \<and>
      (MaxDiffLines req > 0 \<longrightarrow>
         (\<exists>n. LinesChanged obs = Some n \<and> 0 \<le> n \<and> n \<le> MaxDiffLines req \<and> n \<le> 1000000000)) \<and>
      (NoBinaryFiles req \<longrightarrow> HasBinaryFiles obs = Some False) \<and>
      (req_CoverageDelta req \<noteq> [] \<longrightarrow>
         (\<exists>c. CoverageDelta obs = Some c \<and> coverageSatisfies (req_CoverageDelta req) c)) \<and>
      (TestStrength req = TestStrengthNewTestsFailOnBase \<longrightarrow> NewTestsFailOnBase obs = Some True))"

text \<open>Every configured command has one observation, a recorded success, and there is no other.\<close>

definition commands_verified :: "verify_command list \<Rightarrow> command_observation list \<Rightarrow> bool" where
  "commands_verified configured obs \<longleftrightarrow>
     length obs = length configured \<and>
     (\<forall>i<length configured. \<exists>item\<in>set obs. co_Index item = int i \<and>
        validVerifyCommand (configured ! i) \<and> valid_evidence item \<and> co_ExitCode item = Some 0)"

text \<open>
  Rules and observations of one contract correspond one to one, and every blocking rule passed;
  without a contract there are no observations.
\<close>

definition policy_satisfied :: "policy_rule list \<Rightarrow> policy_observation list \<Rightarrow> bool" where
  "policy_satisfied rules obs \<longleftrightarrow>
     distinct (map pr_RuleID rules) \<and> distinct (map po_RuleID obs) \<and>
     pr_RuleID ` set rules = po_RuleID ` set obs \<and>
     (\<forall>rule\<in>set rules. rule_well_formed rule) \<and>
     (\<forall>rule\<in>set rules. \<forall>ob\<in>set obs. po_ContractDigest ob = pr_ContractDigest rule) \<and>
     (\<forall>rule\<in>set rules. \<forall>ob\<in>set obs.
        po_RuleID ob = pr_RuleID rule \<and> pr_Blocking rule \<longrightarrow> policy_passed rule ob)"

definition gate_policy :: "gate_input \<Rightarrow> bool" where
  "gate_policy input \<longleftrightarrow>
     bounded_input input \<and> sound_configuration input \<and> change_respects input \<and>
     commands_verified (in_Commands input) (Commands (in_Observations input)) \<and>
     policy_satisfied (in_PolicyRules input) (PolicyChecks (in_Observations input))"

section \<open>Requests against the policy\<close>

definition all_passed :: "request list \<Rightarrow> bool" where
  "all_passed rs \<longleftrightarrow> (\<forall>r\<in>set rs. rq_passed r)"

lemma all_passed_simps [simp]:
  "all_passed []" "all_passed (rs @ rs') \<longleftrightarrow> all_passed rs \<and> all_passed rs'"
  "all_passed (adding c n p m) \<longleftrightarrow> (c \<longrightarrow> p)" "all_passed (refusing c n m) \<longleftrightarrow> \<not> c"
  by (auto simp: all_passed_def adding_def refusing_def)

lemma changed_paths_loop_eq:
  "changed_paths_loop seen_paths v d paths =
     (v \<and> (\<forall>p\<in>set paths. validRepoPath p), d \<or> \<not> distinct paths \<or> set paths \<inter> set seen_paths \<noteq> {})"
  by (induction paths arbitrary: seen_paths v d) auto

lemma marker_invalid: "\<not> validRepoPath path_marker"
  by (simp add: validRepoPath_def contains_byte_def)

lemma paths_valid_normalized:
  assumes "length (ChangedPaths ob) \<le> MaxChangedPaths"
  shows "paths_valid (normalizeObservations ob) \<longleftrightarrow>
    distinct (ChangedPaths ob) \<and> (\<forall>p\<in>set (ChangedPaths ob). validRepoPath p)"
proof (cases "\<forall>p\<in>set (ChangedPaths ob). validRepoPath p")
  case True
  then have "map (\<lambda>path. if \<not> validRepoPath path then path_marker else path) (ChangedPaths ob) = ChangedPaths ob"
    by (simp add: map_idI)
  with True assms show ?thesis
    by (simp add: paths_valid_def validateChangedPaths_def changed_paths_loop_eq normalizeObservations_def)
next
  case False
  then have "path_marker \<in> set (ChangedPaths (normalizeObservations ob))"
    using assms by (auto simp: normalizeObservations_def image_iff)
  then have "\<not> paths_valid (normalizeObservations ob)"
    using marker_invalid by (auto simp: paths_valid_def validateChangedPaths_def changed_paths_loop_eq)
  with False show ?thesis by simp
qed

lemma normalized_paths:
  assumes "length (ChangedPaths ob) \<le> MaxChangedPaths" and "\<forall>p\<in>set (ChangedPaths ob). validRepoPath p"
  shows "ChangedPaths (normalizeObservations ob) = sort (ChangedPaths ob)"
proof -
  have "map (\<lambda>path. if \<not> validRepoPath path then path_marker else path) (ChangedPaths ob) = ChangedPaths ob"
    using assms(2) by (simp add: map_idI)
  with assms(1) show ?thesis by (simp add: normalizeObservations_def)
qed

lemma normalize_fields [simp]:
  "FilesChanged (normalizeObservations ob) = FilesChanged ob"
  "LinesChanged (normalizeObservations ob) = LinesChanged ob"
  "HasBinaryFiles (normalizeObservations ob) = HasBinaryFiles ob"
  "CoverageDelta (normalizeObservations ob) = CoverageDelta ob"
  "NewTestsFailOnBase (normalizeObservations ob) = NewTestsFailOnBase ob"
  by (simp_all add: normalizeObservations_def)

lemma valid_requirement_not_blank:
  assumes "validCoverageRequirement s"
  shows "trim_space s \<noteq> []"
proof
  assume "trim_space s = []"
  moreover have "List.find (\<lambda>(prefix, op). has_prefix [] prefix) coverage_operators = None"
    by code_simp
  ultimately have "parseCoverageRequirement s = None"
    by (simp add: parseCoverageRequirement_def Let_def)
  with assms show False by (simp add: validCoverageRequirement_def)
qed

lemma trim_space_Nil: "trim_space [] = []"
  by (simp add: trim_space_def trim_space_left.simps trim_space_right.simps split: option.split)

lemma scope_valid_iff:
  assumes "length (Paths (in_Scope input)) + length (Forbidden (in_Scope input)) \<le> 256"
  shows "scope_valid input \<longleftrightarrow>
    (\<forall>pattern\<in>set (Paths (in_Scope input)) \<union> set (Forbidden (in_Scope input)). \<exists>p. compileGlob pattern = Inr p)"
proof -
  have "(case compileGlob p of Inl _ \<Rightarrow> False | Inr _ \<Rightarrow> True) \<longleftrightarrow> (\<exists>q. compileGlob p = Inr q)" for p
    by (cases "compileGlob p") auto
  with assms show ?thesis by (auto simp: scope_valid_def validatePatterns_def list_all_iff)
qed

lemma pathsRespectScope_iff:
  "pathsRespectScope paths scope \<longleftrightarrow>
     (\<forall>path\<in>set paths. (\<exists>pattern\<in>set (Paths scope). matchGlob pattern path) \<and>
                       (\<forall>pattern\<in>set (Forbidden scope). \<not> matchGlob pattern path))"
  by (auto simp: pathsRespectScope_def list_all_iff list_ex_iff)

lemma change_requests:
  assumes b: "bounded_input input" and c: "sound_configuration input"
  defines "obs \<equiv> normalizeObservations (in_Observations input)"
  shows "all_passed (shape_requests input obs) \<and> all_passed (requirement_requests input obs) \<longleftrightarrow>
         change_respects input"
proof -
  let ?paths = "ChangedPaths (in_Observations input)" and ?req = "in_Requirements input"
  have len: "length ?paths \<le> MaxChangedPaths" using b by (simp add: bounded_input_def)
  have sv: "scope_valid input"
    using b c scope_valid_iff by (simp add: bounded_input_def sound_configuration_def Let_def)
  have pv: "paths_valid obs \<longleftrightarrow> distinct ?paths \<and> (\<forall>p\<in>set ?paths. validRepoPath p)"
    unfolding obs_def by (rule paths_valid_normalized [OF len])
  have cov: "trim_space (req_CoverageDelta ?req) \<noteq> [] \<longleftrightarrow> req_CoverageDelta ?req \<noteq> []"
    using c valid_requirement_not_blank trim_space_Nil by (auto simp: sound_configuration_def Let_def)
  show ?thesis
  proof (cases "paths_valid obs")
    case False
    with pv show ?thesis by (auto simp: shape_requests_def change_respects_def Let_def)
  next
    case True
    then have ps: "ChangedPaths obs = sort ?paths"
      using pv normalized_paths [OF len] by (simp add: obs_def)
    have scope: "scope_passed input obs \<longleftrightarrow> pathsRespectScope ?paths (in_Scope input)"
      using True sv ps by (simp add: scope_passed_def pathsRespectScope_iff)
    have files: "files_passed ?req obs \<longleftrightarrow> FilesChanged (in_Observations input) = Some (int (length ?paths)) \<and>
        (MaxFilesChanged ?req > 0 \<longrightarrow> int (length ?paths) \<le> MaxFilesChanged ?req)"
      using len ps by (auto simp: files_passed_def validCounter_def obs_def split: option.split)
    have lines: "lines_passed ?req obs \<longleftrightarrow> (\<exists>n. LinesChanged (in_Observations input) = Some n \<and> 0 \<le> n \<and>
        n \<le> MaxDiffLines ?req \<and> n \<le> 1000000000)"
      by (auto simp: lines_passed_def validCounter_def obs_def split: option.split)
    have covp: "coverage_passed ?req obs \<longleftrightarrow> (\<exists>c. CoverageDelta (in_Observations input) = Some c \<and>
        coverageSatisfies (req_CoverageDelta ?req) c)"
      by (auto simp: coverage_passed_def obs_def split: option.split)
    have obsf: "HasBinaryFiles obs = HasBinaryFiles (in_Observations input)"
      "NewTestsFailOnBase obs = NewTestsFailOnBase (in_Observations input)"
      by (simp_all add: obs_def)
    show ?thesis
      unfolding shape_requests_def requirement_requests_def change_respects_def Let_def
        all_passed_simps scope files lines covp cov obsf pathsRespectScope_iff
      using True pv sv by blast
  qed
qed

section \<open>Command evidence\<close>

lemma index_evidence_eq:
  "index_evidence n B bad items =
     (\<lambda>i. B i @ filter (\<lambda>item. co_Index item = i) items,
      bad \<or> (\<exists>item\<in>set items. co_Index item < 0 \<or> int n \<le> co_Index item) \<or>
      \<not> distinct (map co_Index items) \<or> (\<exists>item\<in>set items. B (co_Index item) \<noteq> []))"
proof (induction items arbitrary: B bad)
  case Nil
  then show ?case by simp
next
  case (Cons item items)
  show ?case unfolding index_evidence.simps Cons by (auto simp: fun_eq_iff image_iff) metis
qed

lemma command_requests_passed:
  "all_passed (command_requests byIndex k cs) \<longleftrightarrow>
     (\<forall>i<length cs. command_passed (cs ! i) (byIndex (int (k + i))))"
proof (induction cs arbitrary: k)
  case Nil
  then show ?case by simp
next
  case (Cons c cs)
  show ?case unfolding command_requests.simps all_passed_simps Cons All_less_Suc2 length_Cons
    by (simp add: add.commute)
qed

lemma evidence_gap_iff: "evidence_gap byIndex k cs \<longleftrightarrow> (\<exists>i<length cs. length (byIndex (int (k + i))) \<noteq> 1)"
proof (induction cs arbitrary: k)
  case Nil
  then show ?case by simp
next
  case (Cons c cs)
  show ?case unfolding evidence_gap.simps Cons length_Cons Ex_less_Suc2 by (simp add: add.commute)
qed

lemma command_passed_iff:
  "command_passed c items \<longleftrightarrow>
     (\<exists>item. items = [item] \<and> validVerifyCommand c \<and> valid_evidence item \<and> co_ExitCode item = Some 0)"
  by (auto simp: command_passed_def split: list.splits)

text \<open>As many observations as commands, and one for each index: then exactly one for each.\<close>

lemma one_each:
  assumes "length obs = n" and "\<forall>i<n. \<exists>item\<in>set obs. co_Index item = int i"
  shows "distinct (map co_Index obs)" and "co_Index ` set obs = int ` {0..<n}"
proof -
  have sub: "int ` {0..<n} \<subseteq> set (map co_Index obs)" using assms(2) by (auto simp: image_iff) metis
  have "card (int ` {0..<n}) = n" by (simp add: card_image)
  then have "n \<le> card (set (map co_Index obs))"
    using card_mono [OF finite_set sub] by simp
  then have c: "card (set (map co_Index obs)) = length (map co_Index obs)"
    using card_length [of "map co_Index obs"] assms(1) by simp
  then show "distinct (map co_Index obs)" by (rule card_distinct)
  show "co_Index ` set obs = int ` {0..<n}"
    using card_subset_eq [OF finite_set sub] c assms(1) by (simp add: card_image)
qed

lemma filter_singleton:
  assumes "distinct (map f xs)" and "x \<in> set xs" and "f x = k"
  shows "filter (\<lambda>y. f y = k) xs = [x]"
  using assms by (induction xs) (auto simp: filter_empty_conv image_iff)

abbreviation at_index :: "command_observation list \<Rightarrow> nat \<Rightarrow> command_observation list" where
  "at_index items i \<equiv> filter (\<lambda>item. co_Index item = int i) items"

definition in_range :: "nat \<Rightarrow> command_observation list \<Rightarrow> bool" where
  "in_range n items \<longleftrightarrow> (\<forall>item\<in>set items. 0 \<le> co_Index item \<and> co_Index item < int n)"

lemma commands_verifiedD:
  assumes "commands_verified cs items"
  shows "distinct (map co_Index items)" and "in_range (length cs) items"
    and "i < length cs \<Longrightarrow> command_passed (cs ! i) (at_index items i)"
proof -
  have d: "distinct (map co_Index items)" and eq: "co_Index ` set items = int ` {0..<length cs}"
    using one_each [of items "length cs"] assms unfolding commands_verified_def by blast+
  show "distinct (map co_Index items)" by (rule d)
  have "co_Index item \<in> int ` {0..<length cs}" if "item \<in> set items" for item using eq that by blast
  then show "in_range (length cs) items" by (fastforce simp: in_range_def)
  assume "i < length cs"
  then obtain item where "item \<in> set items" "co_Index item = int i" "validVerifyCommand (cs ! i)"
    "valid_evidence item" "co_ExitCode item = Some 0"
    using assms unfolding commands_verified_def by blast
  then show "command_passed (cs ! i) (at_index items i)"
    using filter_singleton [OF d] unfolding command_passed_iff by blast
qed

lemma commands_verifiedI:
  assumes p: "\<And>i. i < length cs \<Longrightarrow> command_passed (cs ! i) (at_index items i)"
    and d: "distinct (map co_Index items)" and r: "in_range (length cs) items"
  shows "commands_verified cs items"
proof -
  have ex: "\<exists>item\<in>set items. co_Index item = int i \<and> validVerifyCommand (cs ! i) \<and>
      valid_evidence item \<and> co_ExitCode item = Some 0" if i: "i < length cs" for i
  proof -
    obtain item where item: "at_index items i = [item]" "validVerifyCommand (cs ! i)" "valid_evidence item"
      "co_ExitCode item = Some 0"
      using p [OF i] unfolding command_passed_iff by blast
    have "item \<in> set (at_index items i)" by (simp add: item(1))
    then have "item \<in> set items" "co_Index item = int i" by simp_all
    with item show ?thesis by blast
  qed
  have "co_Index item \<in> int ` {0..<length cs}" if "item \<in> set items" for item
    using r that by (auto simp: in_range_def intro!: image_eqI [of _ _ "nat (co_Index item)"])
  then have "co_Index ` set items \<subseteq> int ` {0..<length cs}" by blast
  moreover have "int ` {0..<length cs} \<subseteq> co_Index ` set items" using ex by (auto simp: image_iff) metis
  ultimately have "set (map co_Index items) = int ` {0..<length cs}" by auto
  then have "length items = length cs"
    using distinct_card [OF d] by (simp add: card_image)
  with ex show "commands_verified cs items" unfolding commands_verified_def by blast
qed

lemma evaluation_requests_passed:
  assumes "bounded_input input"
  defines "obs \<equiv> normalizeObservations (in_Observations input)"
  shows "all_passed (evaluation_requests input obs) \<longleftrightarrow>
         commands_verified (in_Commands input) (Commands (in_Observations input))"
proof -
  define cs where "cs = in_Commands input"
  define items where "items = Commands obs"
  have cs: "take MaxCommands (in_Commands input) = cs" "in_Commands input \<noteq> []"
    using assms(1) by (auto simp: bounded_input_def cs_def)
  have set: "set items = set (Commands (in_Observations input))"
    and len: "length items = length (Commands (in_Observations input))"
    using assms(1) by (simp_all add: items_def obs_def normalizeObservations_def bounded_input_def)
  have "all_passed (evaluation_requests input obs) \<longleftrightarrow>
      (\<forall>i<length cs. command_passed (cs ! i) (at_index items i)) \<and> in_range (length cs) items \<and>
      distinct (map co_Index items)"
    using cs(2) unfolding evaluation_requests_def indexed_evidence_def cs(1) index_evidence_eq Let_def prod.case
      all_passed_simps command_requests_passed evidence_gap_iff items_def [symmetric]
    by (auto simp: in_range_def command_passed_iff not_less not_le)
  also have "\<dots> \<longleftrightarrow> commands_verified cs items"
    using commands_verifiedI commands_verifiedD by blast
  also have "\<dots> \<longleftrightarrow> commands_verified (in_Commands input) (Commands (in_Observations input))"
    unfolding commands_verified_def set len cs_def ..
  finally show ?thesis .
qed

section \<open>Policy evidence\<close>

definition rule_entries :: "policy_rule list \<Rightarrow> rule_table" where
  "rule_entries rules = map (\<lambda>rule. (pr_RuleID rule, rule)) rules"

lemma update_fresh: "k \<notin> fst ` set al \<Longrightarrow> AList.update k v al = al @ [(k, v)]"
  by (induction al) auto

text \<open>The rules are one well-formed contract.\<close>

definition one_contract :: "policy_rule list \<Rightarrow> bool" where
  "one_contract rules \<longleftrightarrow>
     (\<forall>rule\<in>set rules. rule_well_formed rule) \<and> distinct (map pr_RuleID rules) \<and>
     (\<forall>rule\<in>set rules. \<forall>rule'\<in>set rules. pr_ContractDigest rule = pr_ContractDigest rule')"

lemma well_formed_contract: "rule_well_formed rule \<Longrightarrow> pr_ContractDigest rule \<noteq> [] \<and> pr_RuleID rule \<noteq> []"
  by (auto simp: rule_well_formed_def ValidDigest_def)

lemma policy_rules_loop_invalid:
  "\<not> ok \<Longrightarrow> \<not> snd (snd (policy_rules_loop expected contract ok rules))"
  by (induction rules arbitrary: expected contract ok) auto

definition continues :: "rule_table \<Rightarrow> string \<Rightarrow> policy_rule list \<Rightarrow> bool" where
  "continues expected contract rules \<longleftrightarrow>
     (\<forall>rule\<in>set rules. rule_well_formed rule \<and> pr_ContractDigest rule = contract) \<and>
     pr_RuleID ` set rules \<inter> fst ` set expected = {} \<and> distinct (map pr_RuleID rules)"

lemma policy_rules_loop_run:
  assumes "contract \<noteq> []"
  shows "(snd (snd (policy_rules_loop expected contract True rules)) \<longleftrightarrow> continues expected contract rules) \<and>
    (continues expected contract rules \<longrightarrow>
       policy_rules_loop expected contract True rules = (expected @ rule_entries rules, contract, True))"
proof (induction rules arbitrary: expected)
  case Nil
  then show ?case by (simp add: rule_entries_def continues_def)
next
  case (Cons rule rules)
  define good where "good \<longleftrightarrow> rule_well_formed rule \<and> pr_ContractDigest rule = contract \<and>
      pr_RuleID rule \<notin> fst ` set expected"
  let ?expected = "expected @ [(pr_RuleID rule, rule)]"
  have step: "policy_rules_loop expected contract True (rule # rules) =
      policy_rules_loop (AList.update (pr_RuleID rule) rule expected) contract good rules"
    using assms by (simp add: good_def map_of_eq_None_iff eq_commute [of contract])
  have cont: "continues expected contract (rule # rules) \<longleftrightarrow> good \<and> continues ?expected contract rules"
    by (simp add: continues_def good_def) blast
  show ?case
  proof (cases good)
    case True
    then have upd: "AList.update (pr_RuleID rule) rule expected = ?expected"
      by (simp add: good_def update_fresh)
    show ?thesis
      unfolding step cont upd using True Cons.IH [of ?expected] by (simp add: rule_entries_def)
  next
    case False
    then show ?thesis unfolding step cont using policy_rules_loop_invalid by simp
  qed
qed

lemma policy_rules_loop_contract:
  assumes "rules \<noteq> []"
  shows "snd (snd (policy_rules_loop [] [] True rules)) \<longleftrightarrow> one_contract rules"
    and "one_contract rules \<Longrightarrow>
      policy_rules_loop [] [] True rules = (rule_entries rules, pr_ContractDigest (hd rules), True)"
proof -
  obtain rule rest where r: "rules = rule # rest" using assms by (cases rules) auto
  have step: "policy_rules_loop [] [] True rules =
      policy_rules_loop [(pr_RuleID rule, rule)] (pr_ContractDigest rule) (rule_well_formed rule) rest"
    by (simp add: r)
  have oc: "one_contract rules \<longleftrightarrow>
      rule_well_formed rule \<and> continues [(pr_RuleID rule, rule)] (pr_ContractDigest rule) rest"
    by (simp add: one_contract_def continues_def r) metis
  note run = policy_rules_loop_run [of "pr_ContractDigest rule" "[(pr_RuleID rule, rule)]" rest]
  show "snd (snd (policy_rules_loop [] [] True rules)) \<longleftrightarrow> one_contract rules"
  proof (cases "rule_well_formed rule")
    case True
    then show ?thesis unfolding step oc using run well_formed_contract [OF True] by simp
  next
    case False
    then show ?thesis unfolding step oc using policy_rules_loop_invalid by blast
  qed
  assume "one_contract rules"
  then show "policy_rules_loop [] [] True rules = (rule_entries rules, pr_ContractDigest (hd rules), True)"
    unfolding step oc using run well_formed_contract by (simp add: r rule_entries_def)
qed

lemma policy_observe_valid:
  "configValid (fold (policy_observe expected contract) obs t) \<longleftrightarrow>
     configValid t \<and> distinct (map po_RuleID obs) \<and> po_RuleID ` set obs \<inter> set (seen_rules t) = {} \<and>
     (\<forall>ob\<in>set obs. po_RuleID ob \<noteq> [] \<and> po_ContractDigest ob = contract \<and> map_of expected (po_RuleID ob) \<noteq> None)"
proof (induction obs arbitrary: t)
  case Nil
  then show ?case by simp
next
  case (Cons ob obs)
  have c: "configValid (policy_observe expected contract ob t) \<longleftrightarrow> configValid t \<and> po_RuleID ob \<noteq> [] \<and>
      po_ContractDigest ob = contract \<and> po_RuleID ob \<notin> set (seen_rules t) \<and> map_of expected (po_RuleID ob) \<noteq> None"
    by (auto simp: policy_observe_def Let_def split: option.splits)
  have s: "set (seen_rules (policy_observe expected contract ob t)) = insert (po_RuleID ob) (set (seen_rules t))"
    by (auto simp: policy_observe_def Let_def split: option.splits)
  show ?case unfolding fold_simps Cons c s by auto
qed

lemma policy_observe_seen:
  "distinct (map po_RuleID obs) \<Longrightarrow> po_RuleID ` set obs \<inter> set (seen_rules t) = {} \<Longrightarrow>
     length (seen_rules (fold (policy_observe expected contract) obs t)) = length (seen_rules t) + length obs"
proof (induction obs arbitrary: t)
  case Nil
  then show ?case by simp
next
  case (Cons ob obs)
  have "seen_rules (policy_observe expected contract ob t) = po_RuleID ob # seen_rules t"
    using Cons.prems by (auto simp: policy_observe_def Let_def List.insert_def split: option.splits)
  with Cons show ?case by auto
qed

lemma policy_observe_blocking:
  "blockingFailures (fold (policy_observe expected contract) obs t) = 0 \<longleftrightarrow>
     blockingFailures t = 0 \<and>
     (\<forall>ob\<in>set obs. \<forall>rule. map_of expected (po_RuleID ob) = Some rule \<and> pr_Blocking rule \<longrightarrow> policy_passed rule ob)"
proof (induction obs arbitrary: t)
  case Nil
  then show ?case by simp
next
  case (Cons ob obs)
  have "blockingFailures (policy_observe expected contract ob t) = 0 \<longleftrightarrow> blockingFailures t = 0 \<and>
      (\<forall>rule. map_of expected (po_RuleID ob) = Some rule \<and> pr_Blocking rule \<longrightarrow> policy_passed rule ob)"
    by (auto simp: policy_observe_def Let_def split: option.splits)
  then show ?case unfolding fold_simps Cons by auto
qed

lemma map_of_rule_entries:
  "distinct (map pr_RuleID rules) \<Longrightarrow> map_of (rule_entries rules) k = Some rule \<longleftrightarrow> rule \<in> set rules \<and> pr_RuleID rule = k"
  by (induction rules) (auto simp: rule_entries_def image_iff)

lemma map_of_rule_entries_None: "map_of (rule_entries rules) k = None \<longleftrightarrow> k \<notin> pr_RuleID ` set rules"
  by (auto simp: map_of_eq_None_iff rule_entries_def image_image)

text \<open>Distinct lists of the same length, one within the other, have the same elements.\<close>

lemma same_elements:
  assumes "distinct xs" and "distinct ys" and "set xs \<subseteq> set ys"
  shows "length xs = length ys \<longleftrightarrow> set xs = set ys"
  using assms card_subset_eq [OF finite_set assms(3)] by (metis distinct_card)

lemma policy_tally_ok:
  assumes "rules \<noteq> []" and "obs \<noteq> []"
  shows "fst (policy_tally_of rules obs) \<longleftrightarrow>
    one_contract rules \<and> distinct (map po_RuleID obs) \<and> pr_RuleID ` set rules = po_RuleID ` set obs \<and>
    (\<forall>rule\<in>set rules. \<forall>ob\<in>set obs. po_ContractDigest ob = pr_ContractDigest rule)"
proof (cases "one_contract rules")
  case True
  let ?e = "rule_entries rules" and ?c = "pr_ContractDigest (hd rules)"
  let ?t = "\<lparr>seen_rules = [], blockingFailures = 0, advisoryFailures = 0, configValid = True\<rparr>"
  have c: "\<forall>rule\<in>set rules. pr_ContractDigest rule = ?c" and d: "distinct (map pr_RuleID rules)"
    and ids: "\<forall>rule\<in>set rules. pr_RuleID rule \<noteq> []"
    using True assms(1) well_formed_contract unfolding one_contract_def by (metis list.set_sel(1))+
  have "fst (policy_tally_of rules obs) \<longleftrightarrow> configValid (fold (policy_observe ?e ?c) obs ?t) \<and>
      length (seen_rules (fold (policy_observe ?e ?c) obs ?t)) = length rules"
    unfolding policy_tally_of_def policy_rules_loop_contract(2) [OF assms(1) True]
    by (simp add: rule_entries_def Let_def)
  also have "\<dots> \<longleftrightarrow> distinct (map po_RuleID obs) \<and> po_RuleID ` set obs \<subseteq> pr_RuleID ` set rules \<and>
      (\<forall>ob\<in>set obs. po_ContractDigest ob = ?c) \<and> length obs = length rules"
    unfolding policy_observe_valid using policy_observe_seen [of obs ?t ?e ?c] ids
    by (auto simp: map_of_rule_entries_None)
  also have "\<dots> \<longleftrightarrow> distinct (map po_RuleID obs) \<and> po_RuleID ` set obs = pr_RuleID ` set rules \<and>
      (\<forall>ob\<in>set obs. po_ContractDigest ob = ?c)"
    using same_elements [of "map po_RuleID obs" "map pr_RuleID rules"] d by auto
  also have "(\<forall>ob\<in>set obs. po_ContractDigest ob = ?c) \<longleftrightarrow>
      (\<forall>rule\<in>set rules. \<forall>ob\<in>set obs. po_ContractDigest ob = pr_ContractDigest rule)"
    using c hd_in_set [OF assms(1)] by metis
  finally show ?thesis using True by blast
next
  case False
  then show ?thesis
    using policy_rules_loop_contract(1) [OF assms(1)] policy_observe_valid
    by (simp add: policy_tally_of_def case_prod_unfold Let_def)
qed

lemma policy_requests_passed: "all_passed (policy_requests rules obs) \<longleftrightarrow> policy_satisfied rules obs"
proof (cases "rules = [] \<or> obs = []")
  case True
  then show ?thesis by (auto simp: policy_requests_def policy_satisfied_def case_prod_unfold Let_def)
next
  case False
  then have ne: "rules \<noteq> []" "obs \<noteq> []" by simp_all
  have "all_passed (policy_requests rules obs) \<longleftrightarrow>
      fst (policy_tally_of rules obs) \<and> blockingFailures (snd (policy_tally_of rules obs)) = 0"
    using ne by (auto simp: policy_requests_def case_prod_unfold Let_def)
  also have "\<dots> \<longleftrightarrow> policy_satisfied rules obs"
  proof (cases "fst (policy_tally_of rules obs)")
    case True
    then have oc: "one_contract rules" and d: "distinct (map pr_RuleID rules)"
      unfolding policy_tally_ok [OF ne] one_contract_def by blast+
    have "blockingFailures (snd (policy_tally_of rules obs)) = 0 \<longleftrightarrow>
        (\<forall>ob\<in>set obs. \<forall>rule\<in>set rules. po_RuleID ob = pr_RuleID rule \<and> pr_Blocking rule \<longrightarrow> policy_passed rule ob)"
      unfolding policy_tally_of_def policy_rules_loop_contract(2) [OF ne(1) oc] Let_def prod.case snd_conv
        policy_observe_blocking map_of_rule_entries [OF d]
      by auto
    with True show ?thesis
      unfolding policy_tally_ok [OF ne] policy_satisfied_def one_contract_def by blast
  next
    case False
    then have "\<not> policy_satisfied rules obs"
      unfolding policy_tally_ok [OF ne] policy_satisfied_def one_contract_def
      using ne by (metis list.set_intros(1) neq_Nil_conv)
    with False show ?thesis by blast
  qed
  finally show ?thesis .
qed

text \<open>The tally of the policy observations is the same in every order.\<close>

definition failing_observation :: "rule_table \<Rightarrow> bool \<Rightarrow> policy_observation \<Rightarrow> bool" where
  "failing_observation expected blocking ob \<longleftrightarrow> (\<exists>rule. map_of expected (po_RuleID ob) = Some rule \<and> \<not> policy_passed rule ob \<and> pr_Blocking rule = blocking)"

lemma policy_observe_counts:
  "blockingFailures (fold (policy_observe expected contract) obs t) = blockingFailures t + length (filter (failing_observation expected True) obs)"
  "advisoryFailures (fold (policy_observe expected contract) obs t) = advisoryFailures t + length (filter (failing_observation expected False) obs)"
  by (induction obs arbitrary: t) (auto simp: policy_observe_def Let_def failing_observation_def split: option.splits)

lemma policy_observe_seen_set:
  "distinct (seen_rules t) \<Longrightarrow> distinct (seen_rules (fold (policy_observe expected contract) obs t)) \<and>
     set (seen_rules (fold (policy_observe expected contract) obs t)) = set (seen_rules t) \<union> po_RuleID ` set obs"
proof (induction obs arbitrary: t)
  case (Cons ob obs)
  have "seen_rules (policy_observe expected contract ob t) = List.insert (po_RuleID ob) (seen_rules t)"
    by (auto simp: policy_observe_def Let_def split: option.splits)
  then show ?case using Cons.IH [of "policy_observe expected contract ob t"] Cons.prems by simp
qed simp

lemma policy_tally_permuted:
  fixes expected contract
  assumes "mset obs = mset obs'" and "t = \<lparr>seen_rules = [], blockingFailures = 0, advisoryFailures = 0, configValid = ok\<rparr>"
  defines "f \<equiv> fold (policy_observe expected contract) obs t" and "f' \<equiv> fold (policy_observe expected contract) obs' t"
  shows "configValid f = configValid f' \<and> length (seen_rules f) = length (seen_rules f') \<and>
    blockingFailures f = blockingFailures f' \<and> advisoryFailures f = advisoryFailures f'"
proof -
  have "set obs = set obs'" "distinct (map po_RuleID obs) = distinct (map po_RuleID obs')"
    using assms(1) by (metis mset_eq_setD, metis mset_eq_imp_distinct_iff mset_map)
  moreover have "length (filter P obs) = length (filter P obs')" for P using assms(1) by (metis mset_filter size_mset)
  moreover have "length (seen_rules f) = card (po_RuleID ` set obs)" "length (seen_rules f') = card (po_RuleID ` set obs')"
    using policy_observe_seen_set [of t expected contract] assms(2) unfolding f_def f'_def by (metis distinct.simps(1) distinct_card
        list.set(1) policy_tally.select_convs(1) sup_bot.left_neutral)+
  ultimately show ?thesis by (simp add: f_def f'_def policy_observe_valid policy_observe_counts)
qed

lemma policy_checks_permuted:
  assumes "mset obs = mset obs'"
  shows "evaluatePolicyChecks rules obs st = evaluatePolicyChecks rules obs' st"
proof -
  have "obs = [] \<longleftrightarrow> obs' = []" using assms by (metis mset_zero_iff)
  then show ?thesis
    using policy_tally_permuted [OF assms refl]
    by (auto simp: evaluatePolicyChecks_def case_prod_unfold Let_def)
qed

text \<open>Nothing else reads the policy observations.\<close>

lemma policy_checks_fields:
  "ChangedPaths (obs\<lparr>PolicyChecks := q\<rparr>) = ChangedPaths obs" "FilesChanged (obs\<lparr>PolicyChecks := q\<rparr>) = FilesChanged obs"
  "LinesChanged (obs\<lparr>PolicyChecks := q\<rparr>) = LinesChanged obs" "HasBinaryFiles (obs\<lparr>PolicyChecks := q\<rparr>) = HasBinaryFiles obs"
  "CoverageDelta (obs\<lparr>PolicyChecks := q\<rparr>) = CoverageDelta obs" "NewTestsFailOnBase (obs\<lparr>PolicyChecks := q\<rparr>) = NewTestsFailOnBase obs"
  "Commands (obs\<lparr>PolicyChecks := q\<rparr>) = Commands obs"
  by simp_all

lemma policy_checks_unused:
  "check_shape input (obs\<lparr>PolicyChecks := q\<rparr>) st = check_shape input obs st"
  "check_requirements input (obs\<lparr>PolicyChecks := q\<rparr>) st = check_requirements input obs st"
  "run_commands input (obs\<lparr>PolicyChecks := q\<rparr>) st = run_commands input obs st"
  "summary (obs\<lparr>PolicyChecks := q\<rparr>) = summary obs"
  unfolding check_shape_def paths_valid_def check_requirements_def check_files_def files_passed_def check_lines_def lines_passed_def
    check_binary_def check_scope_def scope_passed_def check_coverage_def coverage_passed_def check_tests_def run_commands_def summary_def
    policy_checks_fields by (rule refl)+

section \<open>The decision is the policy\<close>

lemma bounds_and_configuration:
  "bounded_input input \<and> sound_configuration input \<longleftrightarrow>
     all_passed (bounds_requests input) \<and> in_Commands input \<noteq> [] \<and> scope_valid input \<and>
     all_passed (configuration_requests (in_Requirements input))"
  using scope_valid_iff [of input]
  by (auto simp: bounded_input_def sound_configuration_def bounds_requests_def configuration_requests_def Let_def)

lemma Accepted_iff_policy: "d_Verdict (Evaluate input) = Accepted \<longleftrightarrow> gate_policy input"
proof -
  let ?obs = "normalizeObservations (in_Observations input)"
  have ev: "all_passed (evaluation_requests input ?obs) \<Longrightarrow> in_Commands input \<noteq> []"
    by (simp add: evaluation_requests_def case_prod_unfold Let_def)
  have sh: "all_passed (shape_requests input ?obs) \<Longrightarrow> scope_valid input"
    by (simp add: shape_requests_def)
  have pc: "bounded_input input \<Longrightarrow> PolicyChecks ?obs = PolicyChecks (in_Observations input)"
    by (simp add: normalizeObservations_def bounded_input_def)
  have "d_Verdict (Evaluate input) = Accepted \<longleftrightarrow> all_passed (gate_requests input)"
    unfolding Evaluate_requests(2) all_passed_def ..
  also have "\<dots> \<longleftrightarrow> bounded_input input \<and> sound_configuration input \<and>
      all_passed (shape_requests input ?obs) \<and> all_passed (requirement_requests input ?obs) \<and>
      all_passed (evaluation_requests input ?obs) \<and>
      all_passed (policy_requests (in_PolicyRules input) (PolicyChecks ?obs))"
    unfolding gate_requests_def Let_def all_passed_simps
    using ev sh bounds_and_configuration [of input] by blast
  also have "\<dots> \<longleftrightarrow> gate_policy input"
    unfolding gate_policy_def policy_requests_passed
    using change_requests [of input] evaluation_requests_passed [of input] pc by auto
  finally show ?thesis .
qed

section \<open>Properties\<close>

text \<open>
  C16. The gate accepts a run exactly when the declared policy holds of the evidence: every
  enabled requirement is met by recorded evidence, every configured command has exactly one
  successful observation, policy rules and observations correspond with no blocking failure,
  and the input is bounded and well formed. Missing, malformed or contradictory evidence is
  never accepted.
\<close>

theorem gate_accepts_iff_policy: "d_Verdict (Evaluate input) = Accepted \<longleftrightarrow> gate_policy input"
  by (rule Accepted_iff_policy)

text \<open>
  C17. The decision does not depend on the order in which evidence was collected: permuting the
  changed paths, the command observations and the policy observations leaves verdict, checks,
  command records and evidence summary unchanged.
\<close>

theorem evidence_order_irrelevant:
  assumes "mset paths = mset (ChangedPaths (in_Observations input))"
    and "mset items = mset (Commands (in_Observations input))"
    and "mset policies = mset (PolicyChecks (in_Observations input))"
  shows "Evaluate (input\<lparr>in_Observations := (in_Observations input)
         \<lparr>ChangedPaths := paths, Commands := items, PolicyChecks := policies\<rparr>\<rparr>) = Evaluate input"
proof -
  define input' where "input' = input\<lparr>in_Observations := (in_Observations input)
    \<lparr>ChangedPaths := paths, Commands := items, PolicyChecks := policies\<rparr>\<rparr>"
  have len: "length paths = length (ChangedPaths (in_Observations input))"
    "length items = length (Commands (in_Observations input))" "length policies = length (PolicyChecks (in_Observations input))"
    using assms by (metis size_mset)+
  have "sort (map f paths) = sort (map f (ChangedPaths (in_Observations input)))" for f :: "string \<Rightarrow> string"
    by (rule properties_for_sort) (use assms(1) in simp_all)
  then have "normalizeObservations (in_Observations input') = (normalizeObservations (in_Observations input))
      \<lparr>PolicyChecks := if length policies \<le> 512 then policies else []\<rparr>"
    using len command_order.sort_permutation [OF assms(2)] by (simp add: normalizeObservations_def input'_def)
  moreover have "mset (if length policies \<le> 512 then policies else []) = mset (PolicyChecks (normalizeObservations (in_Observations input)))"
    using len assms(3) by (simp add: normalizeObservations_def)
  ultimately obtain q where n: "normalizeObservations (in_Observations input') = (normalizeObservations (in_Observations input))\<lparr>PolicyChecks := q\<rparr>"
    and q: "mset q = mset (PolicyChecks (normalizeObservations (in_Observations input)))" by blast
  have same: "in_Scope input' = in_Scope input" "in_Requirements input' = in_Requirements input"
    "in_Commands input' = in_Commands input" "in_PolicyRules input' = in_PolicyRules input"
    "length (ChangedPaths (in_Observations input')) = length (ChangedPaths (in_Observations input))"
    "length (Commands (in_Observations input')) = length (Commands (in_Observations input))"
    "length (PolicyChecks (in_Observations input')) = length (PolicyChecks (in_Observations input))"
    using len by (simp_all add: input'_def)
  have input: "check_bounds input' = check_bounds input" "check_shape input' = check_shape input"
    "check_requirements input' = check_requirements input" "run_commands input' = run_commands input"
    unfolding check_bounds_def [abs_def] check_shape_def [abs_def] scope_valid_def check_requirements_def [abs_def] check_scope_def
      scope_passed_def run_commands_def [abs_def] same by (rule refl)+
  have "PolicyChecks ((normalizeObservations (in_Observations input))\<lparr>PolicyChecks := q\<rparr>) = q" by simp
  then have "gate_checks input' = gate_checks input"
    unfolding gate_checks_def Let_def n policy_checks_unused input same by (simp only: policy_checks_permuted [OF q])
  moreover have "summary (normalizeObservations (in_Observations input')) = summary (normalizeObservations (in_Observations input))"
    unfolding n by (rule policy_checks_unused)
  ultimately show ?thesis unfolding input'_def [symmetric] Evaluate_def by (simp only:)
qed

text \<open>A run that satisfies a gate with a scope, two commands and a file count.\<close>

definition sample_digest :: string where
  "sample_digest = DigestPrefix @ replicate 64 (CHR ''a'')"

definition sample_item :: "int \<Rightarrow> command_observation" where
  "sample_item i = \<lparr>co_Index = i, co_ExitCode = Some 0, co_EvidenceDigest = sample_digest, co_DurationMillis = None\<rparr>"

definition sample_rule :: "string \<Rightarrow> policy_rule" where
  "sample_rule r = \<lparr>pr_RuleID = r, pr_ContractDigest = sample_digest, pr_ScriptDigest = [], pr_Blocking = True, pr_HasScript = False\<rparr>"

definition sample_check :: "string \<Rightarrow> policy_observation" where
  "sample_check r = \<lparr>po_RuleID = r, po_ContractDigest = sample_digest, po_ScriptDigest = [], po_ExitCode = None, po_Skipped = True\<rparr>"

definition sample_input :: gate_input where
  "sample_input = \<lparr>
     in_Scope = \<lparr>Paths = [''src/*''], Forbidden = []\<rparr>,
     in_Requirements = \<lparr>ScopeRespected = True, TestStrength = TestStrengthNone, req_CoverageDelta = [],
       MaxFilesChanged = 2, MaxDiffLines = 0, NoBinaryFiles = False\<rparr>,
     in_Commands = [\<lparr>Argv = [''go'', ''vet''], Shell = None\<rparr>, \<lparr>Argv = [], Shell = Some ''make''\<rparr>],
     in_PolicyRules = [sample_rule ''r'', sample_rule ''s''],
     in_Observations = \<lparr>ChangedPaths = [''src/b'', ''src/a''], FilesChanged = Some 2, LinesChanged = None,
       HasBinaryFiles = None, CoverageDelta = None, NewTestsFailOnBase = None,
       Commands = [sample_item 1, sample_item 0], PolicyChecks = [sample_check ''s'', sample_check ''r'']\<rparr>\<rparr>"

theorem evidence_order_irrelevant_witness:
  "Evaluate (sample_input\<lparr>in_Observations := (in_Observations sample_input)
     \<lparr>ChangedPaths := [''src/a'', ''src/b''], Commands := [sample_item 0, sample_item 1],
      PolicyChecks := [sample_check ''r'', sample_check ''s'']\<rparr>\<rparr>) = Evaluate sample_input"
  by (rule evidence_order_irrelevant) (simp_all add: sample_input_def)

end
