(* ===== verification/Finding_Corroboration.thy ===== *)
theory Finding_Corroboration
  imports Content_Digest Go_Sort
begin

text \<open>
  The routing of critic findings of \<^verbatim>\<open>v3/internal/findingcorroboration\<close>: a finding may block a
  run only on independently validated deterministic evidence that is bound to it; the word of
  a model never blocks. A validator returns its error or \<^const>\<open>None\<close>, and \<open>first_error\<close> is the
  chain of \<^verbatim>\<open>if err := ...; err != nil\<close> statements. An error carries the field name the
  source passes to \<^verbatim>\<open>invalid\<close>, without the rest of its message. A slice that the source
  compares with \<^verbatim>\<open>nil\<close> is an optional list.
\<close>

section \<open>Data\<close>

abbreviation MaxInputBytes :: nat where "MaxInputBytes \<equiv> 1048576"
abbreviation MaxCorroborationBytes :: nat where "MaxCorroborationBytes \<equiv> 524288"
abbreviation MaxFindings :: nat where "MaxFindings \<equiv> 256"
abbreviation MaxEvidence :: nat where "MaxEvidence \<equiv> 1024"
abbreviation MaxEvidenceMatches :: int where "MaxEvidenceMatches \<equiv> 1048576"

definition CorroborationSchema :: string where
  "CorroborationSchema = ''agents.astatide.com/finding-corroboration/v1alpha1''"

datatype evidence_class =
  ClassReproduction | ClassStatic | ClassSymbolGraph | ClassPolicy | ClassModelAssertion | OtherClass string

fun class_text :: "evidence_class \<Rightarrow> string" where
  "class_text ClassReproduction = ''reproduction''"
| "class_text ClassStatic = ''static''"
| "class_text ClassSymbolGraph = ''symbol-graph''"
| "class_text ClassPolicy = ''policy''"
| "class_text ClassModelAssertion = ''model-assertion''"
| "class_text (OtherClass s) = s"

datatype route = RouteBlocking | RouteAdvisory | OtherRoute string

fun route_text :: "route \<Rightarrow> string" where
  "route_text RouteBlocking = ''blocking''"
| "route_text RouteAdvisory = ''advisory''"
| "route_text (OtherRoute s) = s"

datatype outcome = OutcomePassed | OutcomeFailed | OtherOutcome string

fun outcome_text :: "outcome \<Rightarrow> string" where
  "outcome_text OutcomePassed = ''passed''"
| "outcome_text OutcomeFailed = ''failed''"
| "outcome_text (OtherOutcome s) = s"

record location =
  StartLine :: int
  StartColumn :: int
  EndLine :: int
  EndColumn :: int

record critic_finding =
  cf_ID :: string
  cf_Path :: string
  cf_Location :: location
  cf_RuleID :: string
  cf_Message :: string

record evidence_binding =
  eb_FindingID :: string
  eb_Path :: string
  eb_Location :: location
  eb_RuleID :: string

record evidence_validation =
  Validator :: string
  Deterministic :: bool
  Independent :: bool

record reproduction_evidence =
  re_Command :: string
  re_Base :: outcome
  re_Candidate :: outcome

record static_evidence =
  se_Tool :: string
  se_Matched :: bool
  se_MatchCount :: int

record symbol_graph_evidence =
  sg_Relation :: string
  sg_Matched :: bool
  sg_MatchCount :: int

record policy_evidence =
  pe_PolicyID :: string
  pe_Violated :: bool

record model_assertion =
  ma_Model :: string
  ma_Claim :: string

record critic_evidence =
  ce_ID :: string
  ce_Class :: evidence_class
  ce_Binding :: evidence_binding
  ce_Immutable :: bool
  ce_Digest :: string
  ce_ArtifactDigest :: string
  ce_Validation :: evidence_validation
  ce_Reproduction :: "reproduction_evidence option"
  ce_Static :: "static_evidence option"
  ce_SymbolGraph :: "symbol_graph_evidence option"
  ce_Policy :: "policy_evidence option"
  ce_ModelAssertion :: "model_assertion option"

record corroboration_input =
  ci_SchemaVersion :: string
  ci_Findings :: "critic_finding list option"
  ci_Evidence :: "critic_evidence list option"

record evidence_decision =
  ed_ID :: string
  ed_Class :: evidence_class
  ed_Digest :: string
  ed_Deterministic :: bool
  ed_Independent :: bool
  ed_Corroborates :: bool
  ed_Route :: route

record finding_decision =
  fd_Finding :: critic_finding
  fd_Route :: route
  fd_Reason :: string
  fd_Evidence :: "evidence_decision list option"

record finding_counts =
  TotalFindings :: nat
  BlockingFindings :: nat
  AdvisoryFindings :: nat
  DeterministicEvidence :: nat
  CorroboratingEvidence :: nat
  ModelAssertions :: nat

record corroboration_result =
  cr_SchemaVersion :: string
  cr_Findings :: "finding_decision list option"
  cr_Counts :: finding_counts

datatype corroboration_error = InvalidField string

fun first_error :: "'e option list \<Rightarrow> 'e option" where
  "first_error [] = None"
| "first_error (None # es) = first_error es"
| "first_error (Some e # es) = Some e"

definition reject :: "bool \<Rightarrow> string \<Rightarrow> corroboration_error option" where
  "reject bad field = (if bad then Some (InvalidField field) else None)"

section \<open>Field validators\<close>

definition token_start :: "char \<Rightarrow> bool" where
  "token_start c \<longleftrightarrow> (let b = byte_of c :: nat in
     (65 \<le> b \<and> b \<le> 90) \<or> (97 \<le> b \<and> b \<le> 122) \<or> (48 \<le> b \<and> b \<le> 57))"

definition token_rest :: "char \<Rightarrow> bool" where
  "token_rest c \<longleftrightarrow> token_start c \<or> c \<in> set ''_.:/-''"

text \<open>\<^verbatim>\<open>^[A-Za-z0-9][A-Za-z0-9_.:/-]{0,127}$\<close>\<close>

definition token_shape :: "string \<Rightarrow> bool" where
  "token_shape s = (case s of [] \<Rightarrow> False | c # cs \<Rightarrow> token_start c \<and> length cs \<le> 127 \<and> list_all token_rest cs)"

definition validateToken :: "string \<Rightarrow> nat \<Rightarrow> string \<Rightarrow> corroboration_error option" where
  "validateToken s maxBytes field =
     first_error [reject (s = []) field, reject (length s > maxBytes) field,
                  reject (\<not> utf8_valid s \<or> \<not> token_shape s) field]"

text \<open>The category Cc, and the ranges of the categories Cf, Zl and Zp.\<close>

definition is_control :: "rune \<Rightarrow> bool" where
  "is_control r \<longleftrightarrow> r < 32 \<or> (127 \<le> r \<and> r < 160)"

definition format_ranges :: "(rune \<times> rune) list" where
  "format_ranges =
     [(0xAD, 0xAD), (0x600, 0x605), (0x61C, 0x61C), (0x6DD, 0x6DD), (0x70F, 0x70F), (0x890, 0x891),
      (0x8E2, 0x8E2), (0x180E, 0x180E), (0x200B, 0x200F), (0x2028, 0x2029), (0x202A, 0x202E),
      (0x2060, 0x2064), (0x2066, 0x206F), (0xFEFF, 0xFEFF), (0xFFF9, 0xFFFB), (0x110BD, 0x110BD),
      (0x110CD, 0x110CD), (0x13430, 0x1343F), (0x1BCA0, 0x1BCA3), (0x1D173, 0x1D17A),
      (0xE0001, 0xE0001), (0xE0020, 0xE007F)]"

definition is_format :: "rune \<Rightarrow> bool" where
  "is_format r \<longleftrightarrow> list_ex (\<lambda>(lo, hi). lo \<le> r \<and> r \<le> hi) format_ranges"

definition validateMessage :: "string \<Rightarrow> nat \<Rightarrow> string \<Rightarrow> corroboration_error option" where
  "validateMessage s maxBytes field =
     first_error [reject (s = []) field, reject (length s > maxBytes) field,
                  reject (\<not> utf8_valid s \<or> contains_byte s (CHR 0x00)) field,
                  reject (list_ex (\<lambda>r. (is_control r \<and> r \<noteq> 10 \<and> r \<noteq> 13 \<and> r \<noteq> 9) \<or> is_format r)
                            (range_runes (map byte_of s))) field]"

definition validatePath :: "string \<Rightarrow> corroboration_error option" where
  "validatePath s =
     first_error [reject (s = []) ''path'', reject (length s > 1024) ''path'',
                  reject (\<not> utf8_valid s \<or> contains_byte s (CHR 0x00)) ''path'',
                  reject (list_ex (\<lambda>r. is_control r \<or> is_format r) (range_runes (map byte_of s))) ''path'',
                  reject (has_prefix s ''/'' \<or> contains_byte s (CHR 0x5C)) ''path'',
                  reject (list_ex (\<lambda>part. part = [] \<or> part = ''.'' \<or> part = ''..'') (split_on (CHR ''/'') s)) ''path'']"

definition validateLocation :: "location \<Rightarrow> corroboration_error option" where
  "validateLocation l =
     (let bad = (\<lambda>v. v < 1 \<or> v > 1000000000) in
      first_error [reject (bad (StartLine l) \<or> bad (EndLine l)) ''location'',
                   reject (bad (StartColumn l) \<or> bad (EndColumn l)) ''location'',
                   reject (EndLine l < StartLine l \<or>
                           (EndLine l = StartLine l \<and> EndColumn l < StartColumn l)) ''location''])"

definition validDigest :: "string \<Rightarrow> bool" where
  "validDigest v \<longleftrightarrow> length v = 71 \<and> take 7 v = DigestPrefix \<and> list_all lower_hex (drop 7 v)"

fun isKnownEvidenceClass :: "evidence_class \<Rightarrow> bool" where
  "isKnownEvidenceClass (OtherClass s) = False"
| "isKnownEvidenceClass _ = True"

definition validateFinding :: "critic_finding \<Rightarrow> corroboration_error option" where
  "validateFinding f =
     first_error [validateToken (cf_ID f) 128 ''finding.id'', validatePath (cf_Path f),
                  validateLocation (cf_Location f), validateToken (cf_RuleID f) 128 ''finding.ruleID'',
                  validateMessage (cf_Message f) 4096 ''finding.message'']"

definition validateBinding :: "evidence_binding \<Rightarrow> corroboration_error option" where
  "validateBinding b =
     first_error [validateToken (eb_FindingID b) 128 ''binding.findingID'', validatePath (eb_Path b),
                  validateLocation (eb_Location b), validateToken (eb_RuleID b) 128 ''binding.ruleID'']"

section \<open>Typed payloads\<close>

definition validatePayloadShape :: "critic_evidence \<Rightarrow> corroboration_error option" where
  "validatePayloadShape e =
     (let payloads = length (filter id [ce_Reproduction e \<noteq> None, ce_Static e \<noteq> None, ce_SymbolGraph e \<noteq> None,
                                        ce_Policy e \<noteq> None, ce_ModelAssertion e \<noteq> None]) in
      first_error [reject (payloads \<noteq> 1) ''evidence'',
                   reject (ce_Class e = ClassReproduction \<and> ce_Reproduction e = None) ''evidence.reproduction'',
                   reject (ce_Class e = ClassStatic \<and> ce_Static e = None) ''evidence.static'',
                   reject (ce_Class e = ClassSymbolGraph \<and> ce_SymbolGraph e = None) ''evidence.symbolGraph'',
                   reject (ce_Class e = ClassPolicy \<and> ce_Policy e = None) ''evidence.policy'',
                   reject (ce_Class e = ClassModelAssertion \<and> ce_ModelAssertion e = None) ''evidence.modelAssertion''])"

definition validateReproduction :: "reproduction_evidence \<Rightarrow> corroboration_error option" where
  "validateReproduction p =
     first_error [validateMessage (re_Command p) 2048 ''reproduction.command'',
                  reject (re_Base p \<noteq> OutcomePassed \<and> re_Base p \<noteq> OutcomeFailed) ''reproduction.base'',
                  reject (re_Candidate p \<noteq> OutcomePassed \<and> re_Candidate p \<noteq> OutcomeFailed) ''reproduction.candidate'']"

definition validateStatic :: "static_evidence \<Rightarrow> corroboration_error option" where
  "validateStatic p =
     first_error [validateToken (se_Tool p) 128 ''static.tool'',
                  reject (se_MatchCount p < 0 \<or> se_MatchCount p > MaxEvidenceMatches) ''static.matchCount'',
                  reject (se_Matched p \<noteq> (se_MatchCount p > 0)) ''static'']"

definition validateSymbolGraph :: "symbol_graph_evidence \<Rightarrow> corroboration_error option" where
  "validateSymbolGraph p =
     first_error [validateMessage (sg_Relation p) 256 ''symbolGraph.relation'',
                  reject (sg_MatchCount p < 0 \<or> sg_MatchCount p > MaxEvidenceMatches) ''symbolGraph.matchCount'',
                  reject (sg_Matched p \<noteq> (sg_MatchCount p > 0)) ''symbolGraph'']"

definition validatePolicy :: "policy_evidence \<Rightarrow> string \<Rightarrow> corroboration_error option" where
  "validatePolicy p ruleID =
     first_error [validateToken (pe_PolicyID p) 128 ''policy.policyID'',
                  reject (pe_PolicyID p \<noteq> ruleID) ''policy.policyID'']"

definition validateModelAssertion :: "model_assertion \<Rightarrow> corroboration_error option" where
  "validateModelAssertion p =
     first_error [validateToken (ma_Model p) 128 ''modelAssertion.model'',
                  validateMessage (ma_Claim p) 4096 ''modelAssertion.claim'']"

text \<open>The switch on the class; the shape check before it excludes a missing payload.\<close>

definition on_payload :: "('a \<Rightarrow> corroboration_error option) \<Rightarrow> 'a option \<Rightarrow> corroboration_error option" where
  "on_payload f p = (case p of None \<Rightarrow> None | Some x \<Rightarrow> f x)"

definition validate_payload :: "critic_evidence \<Rightarrow> corroboration_error option" where
  "validate_payload e =
     (case ce_Class e of
        ClassReproduction \<Rightarrow> on_payload validateReproduction (ce_Reproduction e)
      | ClassStatic \<Rightarrow> on_payload validateStatic (ce_Static e)
      | ClassSymbolGraph \<Rightarrow> on_payload validateSymbolGraph (ce_SymbolGraph e)
      | ClassPolicy \<Rightarrow> on_payload (\<lambda>p. validatePolicy p (eb_RuleID (ce_Binding e))) (ce_Policy e)
      | ClassModelAssertion \<Rightarrow> on_payload validateModelAssertion (ce_ModelAssertion e)
      | OtherClass _ \<Rightarrow> None)"

section \<open>Wire text and content digests\<close>

definition json_nat :: "nat \<Rightarrow> string" where
  "json_nat n = nat_digits n"

definition json_bool :: "bool \<Rightarrow> string" where
  "json_bool b = (if b then ''true'' else ''false'')"

definition json_opt :: "string \<Rightarrow> ('a \<Rightarrow> string) \<Rightarrow> 'a option \<Rightarrow> (string \<times> string) list" where
  "json_opt key f v = (case v of None \<Rightarrow> [] | Some x \<Rightarrow> [(key, f x)])"

definition json_slice :: "('a \<Rightarrow> string) \<Rightarrow> 'a list option \<Rightarrow> string" where
  "json_slice f v = (case v of None \<Rightarrow> ''null'' | Some xs \<Rightarrow> json_array (map f xs))"

definition marshal_location :: "location \<Rightarrow> string" where
  "marshal_location l = json_object
     [(''startLine'', json_int (StartLine l)), (''startColumn'', json_int (StartColumn l)),
      (''endLine'', json_int (EndLine l)), (''endColumn'', json_int (EndColumn l))]"

definition marshal_finding :: "critic_finding \<Rightarrow> string" where
  "marshal_finding f = json_object
     [(''id'', json_string (cf_ID f)), (''path'', json_string (cf_Path f)),
      (''location'', marshal_location (cf_Location f)), (''ruleID'', json_string (cf_RuleID f)),
      (''message'', json_string (cf_Message f))]"

definition marshal_binding :: "evidence_binding \<Rightarrow> string" where
  "marshal_binding b = json_object
     [(''findingID'', json_string (eb_FindingID b)), (''path'', json_string (eb_Path b)),
      (''location'', marshal_location (eb_Location b)), (''ruleID'', json_string (eb_RuleID b))]"

definition marshal_validation :: "evidence_validation \<Rightarrow> string" where
  "marshal_validation v = json_object
     [(''validator'', json_string (Validator v)), (''deterministic'', json_bool (Deterministic v)),
      (''independent'', json_bool (Independent v))]"

definition marshal_reproduction :: "reproduction_evidence \<Rightarrow> string" where
  "marshal_reproduction p = json_object
     [(''command'', json_string (re_Command p)), (''base'', json_string (outcome_text (re_Base p))),
      (''candidate'', json_string (outcome_text (re_Candidate p)))]"

definition marshal_static :: "static_evidence \<Rightarrow> string" where
  "marshal_static p = json_object
     [(''tool'', json_string (se_Tool p)), (''matched'', json_bool (se_Matched p)),
      (''matchCount'', json_int (se_MatchCount p))]"

definition marshal_symbol_graph :: "symbol_graph_evidence \<Rightarrow> string" where
  "marshal_symbol_graph p = json_object
     [(''relation'', json_string (sg_Relation p)), (''matched'', json_bool (sg_Matched p)),
      (''matchCount'', json_int (sg_MatchCount p))]"

definition marshal_policy :: "policy_evidence \<Rightarrow> string" where
  "marshal_policy p = json_object
     [(''policyID'', json_string (pe_PolicyID p)), (''violated'', json_bool (pe_Violated p))]"

definition marshal_model :: "model_assertion \<Rightarrow> string" where
  "marshal_model p = json_object
     [(''model'', json_string (ma_Model p)), (''claim'', json_string (ma_Claim p))]"

definition marshal_evidence :: "critic_evidence \<Rightarrow> string" where
  "marshal_evidence e = json_object
     ([(''id'', json_string (ce_ID e)), (''class'', json_string (class_text (ce_Class e))),
       (''binding'', marshal_binding (ce_Binding e)), (''immutable'', json_bool (ce_Immutable e)),
       (''digest'', json_string (ce_Digest e)), (''artifactDigest'', json_string (ce_ArtifactDigest e)),
       (''validation'', marshal_validation (ce_Validation e))]
      @ json_opt ''reproduction'' marshal_reproduction (ce_Reproduction e)
      @ json_opt ''static'' marshal_static (ce_Static e)
      @ json_opt ''symbolGraph'' marshal_symbol_graph (ce_SymbolGraph e)
      @ json_opt ''policy'' marshal_policy (ce_Policy e)
      @ json_opt ''modelAssertion'' marshal_model (ce_ModelAssertion e))"

definition marshal_input :: "corroboration_input \<Rightarrow> string" where
  "marshal_input i = json_object
     [(''schemaVersion'', json_string (ci_SchemaVersion i)),
      (''findings'', json_slice marshal_finding (ci_Findings i)),
      (''evidence'', json_slice marshal_evidence (ci_Evidence i))]"

definition marshal_evidence_decision :: "evidence_decision \<Rightarrow> string" where
  "marshal_evidence_decision d = json_object
     [(''id'', json_string (ed_ID d)), (''class'', json_string (class_text (ed_Class d))),
      (''digest'', json_string (ed_Digest d)), (''deterministic'', json_bool (ed_Deterministic d)),
      (''independent'', json_bool (ed_Independent d)), (''corroborates'', json_bool (ed_Corroborates d)),
      (''route'', json_string (route_text (ed_Route d)))]"

definition marshal_finding_decision :: "finding_decision \<Rightarrow> string" where
  "marshal_finding_decision d = json_object
     [(''finding'', marshal_finding (fd_Finding d)), (''route'', json_string (route_text (fd_Route d))),
      (''reason'', json_string (fd_Reason d)),
      (''evidence'', json_slice marshal_evidence_decision (fd_Evidence d))]"

definition marshal_counts :: "finding_counts \<Rightarrow> string" where
  "marshal_counts c = json_object
     [(''totalFindings'', json_nat (TotalFindings c)), (''blockingFindings'', json_nat (BlockingFindings c)),
      (''advisoryFindings'', json_nat (AdvisoryFindings c)),
      (''deterministicEvidence'', json_nat (DeterministicEvidence c)),
      (''corroboratingEvidence'', json_nat (CorroboratingEvidence c)),
      (''modelAssertions'', json_nat (ModelAssertions c))]"

definition marshal_result :: "corroboration_result \<Rightarrow> string" where
  "marshal_result r = json_object
     [(''schemaVersion'', json_string (cr_SchemaVersion r)),
      (''findings'', json_slice marshal_finding_decision (cr_Findings r)),
      (''counts'', marshal_counts (cr_Counts r))]"

definition digestEvidence :: "critic_evidence \<Rightarrow> string" where
  "digestEvidence e = sha256_digest (marshal_evidence (e\<lparr>ce_Digest := []\<rparr>))"

definition validateEvidence :: "critic_evidence \<Rightarrow> bool \<Rightarrow> corroboration_error option" where
  "validateEvidence e requireDigest =
     first_error [validateToken (ce_ID e) 128 ''evidence.id'',
                  reject (\<not> isKnownEvidenceClass (ce_Class e)) ''evidence.class'',
                  validateBinding (ce_Binding e),
                  reject (\<not> ce_Immutable e) ''evidence.immutable'',
                  reject (\<not> validDigest (ce_ArtifactDigest e)) ''evidence.artifactDigest'',
                  (if requireDigest then reject (\<not> validDigest (ce_Digest e)) ''evidence.digest''
                   else reject (ce_Digest e \<noteq> []) ''evidence.digest''),
                  validateToken (Validator (ce_Validation e)) 128 ''evidence.validation.validator'',
                  validatePayloadShape e,
                  validate_payload e,
                  reject (requireDigest \<and> ce_Digest e \<noteq> digestEvidence e) ''evidence.digest'']"

definition SealEvidence :: "critic_evidence \<Rightarrow> corroboration_error + critic_evidence" where
  "SealEvidence e =
     (let e = e\<lparr>ce_Immutable := True, ce_Digest := []\<rparr>
      in case validateEvidence e False of
           Some err \<Rightarrow> Inl err
         | None \<Rightarrow> Inr (e\<lparr>ce_Digest := digestEvidence e\<rparr>))"

definition EvidenceDigest :: "critic_evidence \<Rightarrow> corroboration_error + string" where
  "EvidenceDigest e =
     (if \<not> ce_Immutable e then Inl (InvalidField ''evidence.immutable'')
      else let e = e\<lparr>ce_Digest := []\<rparr>
           in case validateEvidence e False of Some err \<Rightarrow> Inl err | None \<Rightarrow> Inr (digestEvidence e))"

section \<open>Normalized input\<close>

definition sameBinding :: "critic_finding \<Rightarrow> evidence_binding \<Rightarrow> bool" where
  "sameBinding f b \<longleftrightarrow> cf_ID f = eb_FindingID b \<and> cf_Path f = eb_Path b \<and> cf_RuleID f = eb_RuleID b \<and>
     cf_Location f = eb_Location b"

definition indexed_field :: "string \<Rightarrow> nat \<Rightarrow> string \<Rightarrow> string" where
  "indexed_field name i suffix = name @ ''['' @ nat_digits i @ '']'' @ suffix"

fun findings_loop ::
  "nat \<Rightarrow> (string \<times> critic_finding) list \<Rightarrow> critic_finding list \<Rightarrow>
   corroboration_error + (string \<times> critic_finding) list" where
  "findings_loop i findingByID [] = Inr findingByID"
| "findings_loop i findingByID (f # fs) =
     (if validateFinding f \<noteq> None then Inl (InvalidField (indexed_field ''findings'' i []))
      else if map_of findingByID (cf_ID f) \<noteq> None then Inl (InvalidField (indexed_field ''findings'' i ''.id''))
      else findings_loop (Suc i) ((cf_ID f, f) # findingByID) fs)"

fun evidence_loop ::
  "(string \<times> critic_finding) list \<Rightarrow> nat \<Rightarrow> string list \<Rightarrow> string list \<Rightarrow> critic_evidence list \<Rightarrow>
   corroboration_error option" where
  "evidence_loop findingByID i seenID seenArtifact [] = None"
| "evidence_loop findingByID i seenID seenArtifact (e # es) =
     (if validateEvidence e True \<noteq> None then Some (InvalidField (indexed_field ''evidence'' i []))
      else if List.member seenID (ce_ID e) then Some (InvalidField (indexed_field ''evidence'' i ''.id''))
      else case map_of findingByID (eb_FindingID (ce_Binding e)) of
             None \<Rightarrow> Some (InvalidField (indexed_field ''evidence'' i ''.binding.findingID''))
           | Some f \<Rightarrow>
               if \<not> sameBinding f (ce_Binding e)
               then Some (InvalidField (indexed_field ''evidence'' i ''.binding''))
               else if List.member seenArtifact (ce_ArtifactDigest e)
               then Some (InvalidField (indexed_field ''evidence'' i ''.artifactDigest''))
               else evidence_loop findingByID (Suc i) (ce_ID e # seenID) (ce_ArtifactDigest e # seenArtifact) es)"

definition findingLess :: "critic_finding \<Rightarrow> critic_finding \<Rightarrow> bool" where
  "findingLess f g \<longleftrightarrow> cf_ID f < cf_ID g"

definition evidenceLess :: "critic_evidence \<Rightarrow> critic_evidence \<Rightarrow> bool" where
  "evidenceLess d e =
     (if ce_ID d \<noteq> ce_ID e then ce_ID d < ce_ID e else class_text (ce_Class d) < class_text (ce_Class e))"

definition normalizeInput :: "corroboration_input \<Rightarrow> corroboration_error + corroboration_input" where
  "normalizeInput input =
     (if ci_SchemaVersion input \<noteq> CorroborationSchema then Inl (InvalidField ''schemaVersion'')
      else case ci_Findings input of
        None \<Rightarrow> Inl (InvalidField ''findings'')
      | Some findings \<Rightarrow>
          if length findings > MaxFindings then Inl (InvalidField ''findings'')
          else (case ci_Evidence input of
            None \<Rightarrow> Inl (InvalidField ''evidence'')
          | Some evidence \<Rightarrow>
              if length evidence > MaxEvidence then Inl (InvalidField ''evidence'')
              else (case findings_loop 0 [] findings of
                Inl err \<Rightarrow> Inl err
              | Inr findingByID \<Rightarrow>
                  (case evidence_loop findingByID 0 [] [] evidence of
                    Some err \<Rightarrow> Inl err
                  | None \<Rightarrow>
                      let normalized = \<lparr>ci_SchemaVersion = ci_SchemaVersion input,
                            ci_Findings = Some (sort_slice findingLess findings),
                            ci_Evidence = Some (sort_slice evidenceLess evidence)\<rparr>
                      in if length (marshal_input normalized) > MaxInputBytes
                         then Inl (InvalidField ''input'') else Inr normalized))))"

definition CanonicalInputBytes :: "corroboration_input \<Rightarrow> corroboration_error + string" where
  "CanonicalInputBytes input =
     (case normalizeInput input of
        Inl err \<Rightarrow> Inl err
      | Inr normalized \<Rightarrow>
          if length (marshal_input normalized) > MaxInputBytes then Inl (InvalidField ''input'')
          else Inr (marshal_input normalized))"

section \<open>Routing\<close>

definition advisoryReason :: "critic_evidence list \<Rightarrow> string" where
  "advisoryReason es =
     (if es = [] then ''no evidence supplied''
      else if list_ex (\<lambda>e. ce_Class e = ClassModelAssertion) es then ''model assertion is advisory-only''
      else ''no independently validated deterministic corroboration'')"

text \<open>A class whose payload is missing does not pass \<^const>\<open>validatePayloadShape\<close>.\<close>

definition evidenceCorroborates :: "critic_evidence \<Rightarrow> bool" where
  "evidenceCorroborates e =
     (case ce_Class e of
        ClassReproduction \<Rightarrow>
          (case ce_Reproduction e of None \<Rightarrow> False
           | Some p \<Rightarrow> re_Base p = OutcomeFailed \<and> re_Candidate p = OutcomePassed)
      | ClassStatic \<Rightarrow>
          (case ce_Static e of None \<Rightarrow> False | Some p \<Rightarrow> se_Matched p \<and> se_MatchCount p > 0)
      | ClassSymbolGraph \<Rightarrow>
          (case ce_SymbolGraph e of None \<Rightarrow> False | Some p \<Rightarrow> sg_Matched p \<and> sg_MatchCount p > 0)
      | ClassPolicy \<Rightarrow> (case ce_Policy e of None \<Rightarrow> False | Some p \<Rightarrow> pe_Violated p)
      | ClassModelAssertion \<Rightarrow> False
      | OtherClass _ \<Rightarrow> False)"

definition validated_deterministic :: "critic_evidence \<Rightarrow> bool" where
  "validated_deterministic e \<longleftrightarrow>
     ce_Class e \<noteq> ClassModelAssertion \<and> Deterministic (ce_Validation e) \<and> Independent (ce_Validation e)"

definition blocks :: "critic_evidence \<Rightarrow> bool" where
  "blocks e \<longleftrightarrow> validated_deterministic e \<and> evidenceCorroborates e"

definition decide_item :: "critic_evidence \<Rightarrow> evidence_decision" where
  "decide_item e = \<lparr>ed_ID = ce_ID e, ed_Class = ce_Class e, ed_Digest = ce_Digest e,
     ed_Deterministic = Deterministic (ce_Validation e), ed_Independent = Independent (ce_Validation e),
     ed_Corroborates = evidenceCorroborates e,
     ed_Route = (if blocks e then RouteBlocking else RouteAdvisory)\<rparr>"

definition count_item :: "critic_evidence \<Rightarrow> finding_counts \<Rightarrow> finding_counts" where
  "count_item e c =
     (let c = (if validated_deterministic e then c\<lparr>DeterministicEvidence := Suc (DeterministicEvidence c)\<rparr> else c);
          c = (if evidenceCorroborates e \<and> validated_deterministic e
               then c\<lparr>CorroboratingEvidence := Suc (CorroboratingEvidence c)\<rparr> else c)
      in if ce_Class e = ClassModelAssertion then c\<lparr>ModelAssertions := Suc (ModelAssertions c)\<rparr> else c)"

definition evidence_for :: "critic_evidence list \<Rightarrow> critic_finding \<Rightarrow> critic_evidence list" where
  "evidence_for es f = filter (\<lambda>e. eb_FindingID (ce_Binding e) = cf_ID f) es"

definition decide_finding :: "critic_evidence list \<Rightarrow> critic_finding \<Rightarrow> finding_decision" where
  "decide_finding es f =
     (let items = evidence_for es f; blocking = list_ex blocks items
      in \<lparr>fd_Finding = f,
          fd_Route = (if blocking then RouteBlocking else RouteAdvisory),
          fd_Reason = (if blocking then ''independently validated deterministic corroboration''
                       else advisoryReason items),
          fd_Evidence = Some (map decide_item items)\<rparr>)"

definition count_finding :: "critic_evidence list \<Rightarrow> critic_finding \<Rightarrow> finding_counts \<Rightarrow> finding_counts" where
  "count_finding es f c =
     (let items = evidence_for es f; c = fold count_item items c
      in if list_ex blocks items then c\<lparr>BlockingFindings := Suc (BlockingFindings c)\<rparr>
         else c\<lparr>AdvisoryFindings := Suc (AdvisoryFindings c)\<rparr>)"

definition zero_counts :: finding_counts where
  "zero_counts = \<lparr>TotalFindings = 0, BlockingFindings = 0, AdvisoryFindings = 0, DeterministicEvidence = 0,
     CorroboratingEvidence = 0, ModelAssertions = 0\<rparr>"

section \<open>Canonical results\<close>

record result_scan =
  seenFindings :: "string list"
  seenEvidenceIDs :: "string list"
  seenEvidenceDigests :: "string list"
  totalEvidence :: nat
  derived :: finding_counts

definition validateRoute :: "route \<Rightarrow> string \<Rightarrow> corroboration_error option" where
  "validateRoute r field = reject (r \<noteq> RouteBlocking \<and> r \<noteq> RouteAdvisory) field"

definition validateResultEvidence :: "evidence_decision \<Rightarrow> string \<Rightarrow> corroboration_error option" where
  "validateResultEvidence d field =
     first_error [validateToken (ed_ID d) 128 (field @ ''.id''),
                  reject (\<not> isKnownEvidenceClass (ed_Class d)) (field @ ''.class''),
                  reject (\<not> validDigest (ed_Digest d)) (field @ ''.digest''),
                  validateRoute (ed_Route d) (field @ ''.route'')]"

definition result_deterministic :: "evidence_decision \<Rightarrow> bool" where
  "result_deterministic d \<longleftrightarrow> ed_Class d \<noteq> ClassModelAssertion \<and> ed_Deterministic d \<and> ed_Independent d"

definition result_blocks :: "evidence_decision \<Rightarrow> bool" where
  "result_blocks d \<longleftrightarrow> ed_Class d \<noteq> ClassModelAssertion \<and> result_deterministic d \<and> ed_Corroborates d"

definition derive_item :: "evidence_decision \<Rightarrow> finding_counts \<Rightarrow> finding_counts" where
  "derive_item d c =
     (let c = (if result_deterministic d then c\<lparr>DeterministicEvidence := Suc (DeterministicEvidence c)\<rparr> else c);
          c = (if result_deterministic d \<and> ed_Corroborates d
               then c\<lparr>CorroboratingEvidence := Suc (CorroboratingEvidence c)\<rparr> else c)
      in if ed_Class d = ClassModelAssertion then c\<lparr>ModelAssertions := Suc (ModelAssertions c)\<rparr> else c)"

fun result_items ::
  "string \<Rightarrow> nat \<Rightarrow> bool \<Rightarrow> result_scan \<Rightarrow> evidence_decision list \<Rightarrow>
   corroboration_error + bool \<times> result_scan" where
  "result_items prefix j findingBlocking st [] = Inr (findingBlocking, st)"
| "result_items prefix j findingBlocking st (d # ds) =
     (let field = indexed_field (prefix @ ''.evidence'') j [];
          expectedRoute = (if result_blocks d then RouteBlocking else RouteAdvisory)
      in case first_error
            [validateResultEvidence d field,
             reject (List.member (seenEvidenceIDs st) (ed_ID d)) (field @ ''.id''),
             reject (List.member (seenEvidenceDigests st) (ed_Digest d)) (field @ ''.digest''),
             reject (ed_Route d \<noteq> expectedRoute) (field @ ''.route''),
             reject (ed_Class d = ClassModelAssertion \<and> ed_Corroborates d) (field @ ''.corroborates'')] of
           Some err \<Rightarrow> Inl err
         | None \<Rightarrow>
             result_items prefix (Suc j) (findingBlocking \<or> result_blocks d)
               (st\<lparr>seenEvidenceIDs := ed_ID d # seenEvidenceIDs st,
                   seenEvidenceDigests := ed_Digest d # seenEvidenceDigests st,
                   derived := derive_item d (derived st)\<rparr>) ds)"

definition result_finding :: "nat \<Rightarrow> finding_decision \<Rightarrow> result_scan \<Rightarrow> corroboration_error + result_scan" where
  "result_finding i d st =
     (let prefix = indexed_field ''result.findings'' i [] in
      case first_error
         [reject (validateFinding (fd_Finding d) \<noteq> None) prefix,
          reject (List.member (seenFindings st) (cf_ID (fd_Finding d))) (prefix @ ''.finding.id''),
          validateRoute (fd_Route d) (prefix @ ''.route''),
          validateMessage (fd_Reason d) 2048 (prefix @ ''.reason''),
          reject (case fd_Evidence d of None \<Rightarrow> True | Some es \<Rightarrow> length es > MaxEvidence) (prefix @ ''.evidence''),
          reject (totalEvidence st + length (the (fd_Evidence d)) > MaxEvidence) ''result.evidence''] of
        Some err \<Rightarrow> Inl err
      | None \<Rightarrow>
          (case result_items prefix 0 False
                  (st\<lparr>seenFindings := cf_ID (fd_Finding d) # seenFindings st,
                      totalEvidence := totalEvidence st + length (the (fd_Evidence d))\<rparr>)
                  (the (fd_Evidence d)) of
             Inl err \<Rightarrow> Inl err
           | Inr (findingBlocking, st) \<Rightarrow>
               if fd_Route d \<noteq> (if findingBlocking then RouteBlocking else RouteAdvisory)
               then Inl (InvalidField (prefix @ ''.route''))
               else Inr (st\<lparr>derived :=
                      (if findingBlocking
                       then (derived st)\<lparr>BlockingFindings := Suc (BlockingFindings (derived st))\<rparr>
                       else (derived st)\<lparr>AdvisoryFindings := Suc (AdvisoryFindings (derived st))\<rparr>)\<rparr>)))"

fun result_loop :: "nat \<Rightarrow> result_scan \<Rightarrow> finding_decision list \<Rightarrow> corroboration_error + result_scan" where
  "result_loop i st [] = Inr st"
| "result_loop i st (d # ds) =
     (case result_finding i d st of Inl err \<Rightarrow> Inl err | Inr st' \<Rightarrow> result_loop (Suc i) st' ds)"

definition decisionLess :: "finding_decision \<Rightarrow> finding_decision \<Rightarrow> bool" where
  "decisionLess d e \<longleftrightarrow> cf_ID (fd_Finding d) < cf_ID (fd_Finding e)"

definition itemLess :: "evidence_decision \<Rightarrow> evidence_decision \<Rightarrow> bool" where
  "itemLess d e \<longleftrightarrow> ed_ID d < ed_ID e"

definition sort_decisions :: "finding_decision list \<Rightarrow> finding_decision list" where
  "sort_decisions ds =
     map (\<lambda>d. d\<lparr>fd_Evidence := map_option (sort_slice itemLess) (fd_Evidence d)\<rparr>) (sort_slice decisionLess ds)"

definition normalizeResult :: "corroboration_result \<Rightarrow> corroboration_error + corroboration_result" where
  "normalizeResult result =
     (if cr_SchemaVersion result \<noteq> CorroborationSchema then Inl (InvalidField ''result.schemaVersion'')
      else case cr_Findings result of
        None \<Rightarrow> Inl (InvalidField ''result.findings'')
      | Some ds \<Rightarrow>
          if length ds > MaxFindings then Inl (InvalidField ''result.findings'')
          else (case result_loop 0 \<lparr>seenFindings = [], seenEvidenceIDs = [], seenEvidenceDigests = [],
                       totalEvidence = 0, derived = zero_counts\<lparr>TotalFindings := length ds\<rparr>\<rparr> ds of
            Inl err \<Rightarrow> Inl err
          | Inr st \<Rightarrow>
              if cr_Counts result \<noteq> derived st then Inl (InvalidField ''result.counts'')
              else Inr \<lparr>cr_SchemaVersion = cr_SchemaVersion result, cr_Findings = Some (sort_decisions ds),
                        cr_Counts = derived st\<rparr>))"

definition CanonicalCorroborationBytes :: "corroboration_result \<Rightarrow> corroboration_error + string" where
  "CanonicalCorroborationBytes result =
     (case normalizeResult result of
        Inl err \<Rightarrow> Inl err
      | Inr normalized \<Rightarrow>
          if length (marshal_result normalized) > MaxCorroborationBytes then Inl (InvalidField ''result'')
          else Inr (marshal_result normalized))"

definition Corroborate :: "corroboration_input \<Rightarrow> corroboration_error + corroboration_result" where
  "Corroborate input =
     (case normalizeInput input of
        Inl err \<Rightarrow> Inl err
      | Inr normalized \<Rightarrow>
          let findings = the (ci_Findings normalized);
              evidence = the (ci_Evidence normalized);
              result = \<lparr>cr_SchemaVersion = CorroborationSchema,
                cr_Findings = Some (map (decide_finding evidence) findings),
                cr_Counts = fold (count_finding evidence) findings
                              (zero_counts\<lparr>TotalFindings := length findings\<rparr>)\<rparr>
          in case CanonicalCorroborationBytes result of
               Inl err \<Rightarrow> Inl (InvalidField ''result'')
             | Inr _ \<Rightarrow> Inr result)"

end
