(* ===== verification/Gate_Scoring.thy ===== *)
theory Gate_Scoring
  imports Finding_Corroboration
begin

text \<open>
  Fixed-point scoring of \<^verbatim>\<open>v3/internal/gatescoring\<close>: the weights, the execution and critic
  signals, the blocking reasons and the canonical result. Scores are basis points of
  10000. The products are computed in 64 bits from 32-bit operands, so they cannot wrap and
  are \<^typ>\<open>int\<close>; the conversion back to 32 bits wraps as written. \<^verbatim>\<open>append([]T(nil), xs...)\<close> of an
  empty slice is nil, which the source compares with, so such a copy is \<open>clone_slice\<close>.
\<close>

section \<open>Data\<close>

abbreviation GateScoreScale :: int where "GateScoreScale \<equiv> 10000"
abbreviation MaxCriticFindings :: int where "MaxCriticFindings \<equiv> 256"
abbreviation MaxExecutionChecks :: nat where "MaxExecutionChecks \<equiv> 64"
abbreviation MaxReasonBytes :: nat where "MaxReasonBytes \<equiv> 256"
abbreviation MaxBlockingReasons :: nat where "MaxBlockingReasons \<equiv> 320"
abbreviation MaxScoringBytes :: nat where "MaxScoringBytes \<equiv> 1048576"

definition ScoringSchema :: string where
  "ScoringSchema = ''agents.astatide.com/gate-scoring/v1alpha1''"

datatype score_verdict = ScoreAccepted | ScoreRejected | OtherVerdict string

fun verdict_text :: "score_verdict \<Rightarrow> string" where
  "verdict_text ScoreAccepted = ''Accepted''"
| "verdict_text ScoreRejected = ''Rejected''"
| "verdict_text (OtherVerdict s) = s"

record critic_spec =
  WeightBasisPoints :: int
  ModelRouteRef :: string
  MaxFindingsSpec :: int

record signals_spec =
  ExecutionWeight :: int
  Critic :: "critic_spec option"
  MinScore :: int

record execution_check =
  xc_Name :: string
  xc_Passed :: bool
  xc_Blocking :: bool

record execution_signal =
  xs_Score :: int
  xs_Checks :: "execution_check list"

record scoring_input =
  si_Signals :: "signals_spec option"
  si_Execution :: execution_signal
  si_Critic :: "corroboration_result option"

record scoring_result =
  sr_SchemaVersion :: string
  sr_Signals :: signals_spec
  sr_ExecutionScore :: int
  sr_CriticScore :: int
  sr_WeightedScore :: int
  sr_ExecutionChecks :: "execution_check list"
  sr_CriticResult :: "corroboration_result option"
  sr_BlockingReasons :: "string list option"
  sr_Verdict :: score_verdict

datatype scoring_error = ScoringField string | ScoringInvalidInput

section \<open>Validation\<close>

definition validCheckName :: "string \<Rightarrow> bool" where
  "validCheckName s \<longleftrightarrow> length s > 0 \<and> length s \<le> 128 \<and> utf8_valid s \<and> token_shape s"

definition lower_alnum :: "rune \<Rightarrow> bool" where
  "lower_alnum r \<longleftrightarrow> (97 \<le> r \<and> r \<le> 122) \<or> (48 \<le> r \<and> r \<le> 57)"

text \<open>
  The characters of a label with their byte offsets: \<^verbatim>\<open>range\<close> yields runes, and a rune outside
  ASCII is refused, so up to the first refusal the offset is the index.
\<close>

definition label_ok :: "string \<Rightarrow> bool" where
  "label_ok part =
     list_all (\<lambda>i. let r = byte_of (part ! i) in
        lower_alnum r \<or> (r = 45 \<and> i > 0 \<and> i < length part - 1)) [0..<length part]"

definition validRouteRef :: "string \<Rightarrow> bool" where
  "validRouteRef s =
     (if s = [] \<or> length s > 253 \<or> trim_space s \<noteq> s \<or>
         contains_any s [CHR 0x00, CHR 0x0D, CHR 0x0A] then False
      else let parts = split_on (CHR ''.'') s
           in list_all (\<lambda>i. \<not> (i > 0 \<and> parts ! i = []) \<and> label_ok (parts ! i)) [0..<length parts])"

definition outside :: "int \<Rightarrow> int \<Rightarrow> int \<Rightarrow> bool" where
  "outside lo hi v \<longleftrightarrow> v < lo \<or> v > hi"

definition normalizeSignals :: "signals_spec option \<Rightarrow> scoring_error + signals_spec" where
  "normalizeSignals input =
     (case input of
        None \<Rightarrow> Inr \<lparr>ExecutionWeight = GateScoreScale, Critic = None, MinScore = GateScoreScale\<rparr>
      | Some s \<Rightarrow>
          if outside 0 GateScoreScale (ExecutionWeight s)
          then Inl (ScoringField ''signals.executionWeightBasisPoints'')
          else if outside 0 GateScoreScale (MinScore s) then Inl (ScoringField ''signals.minScoreBasisPoints'')
          else (case Critic s of
            None \<Rightarrow>
              if ExecutionWeight s \<noteq> GateScoreScale \<or> MinScore s \<noteq> GateScoreScale
              then Inl (ScoringField ''signals'') else Inr s
          | Some critic \<Rightarrow>
              if outside 1 GateScoreScale (WeightBasisPoints critic)
              then Inl (ScoringField ''signals.critic.weightBasisPoints'')
              else if ExecutionWeight s < 1 \<or> ExecutionWeight s + WeightBasisPoints critic \<noteq> GateScoreScale
              then Inl (ScoringField ''signals'')
              else if \<not> validRouteRef (ModelRouteRef critic)
              then Inl (ScoringField ''signals.critic.modelRouteRef'')
              else if outside 1 MaxCriticFindings (MaxFindingsSpec critic)
              then Inl (ScoringField ''signals.critic.maxFindings'')
              else Inr s))"

definition checkLess :: "execution_check \<Rightarrow> execution_check \<Rightarrow> bool" where
  "checkLess c d \<longleftrightarrow> xc_Name c < xc_Name d"

fun execution_loop ::
  "nat \<Rightarrow> string option \<Rightarrow> execution_check list \<Rightarrow> scoring_error + string list" where
  "execution_loop i previous [] = Inr []"
| "execution_loop i previous (c # cs) =
     (if \<not> validCheckName (xc_Name c) then Inl (ScoringField (indexed_field ''execution.checks'' i ''.name''))
      else if previous = Some (xc_Name c) then Inl (ScoringField ''execution.checks'')
      else case execution_loop (Suc i) (Some (xc_Name c)) cs of
             Inl err \<Rightarrow> Inl err
           | Inr reasons \<Rightarrow>
               Inr ((if xc_Blocking c \<and> \<not> xc_Passed c then [''execution.'' @ xc_Name c] else []) @ reasons))"

definition normalizeExecution :: "execution_signal \<Rightarrow> scoring_error + execution_signal \<times> string list" where
  "normalizeExecution input =
     (if outside 0 GateScoreScale (xs_Score input) then Inl (ScoringField ''execution.scoreBasisPoints'')
      else if xs_Checks input = [] \<or> length (xs_Checks input) > MaxExecutionChecks
      then Inl (ScoringField ''execution.checks'')
      else let sorted = sort_slice checkLess (xs_Checks input)
           in case execution_loop 0 None sorted of
                Inl err \<Rightarrow> Inl err
              | Inr reasons \<Rightarrow> Inr (\<lparr>xs_Score = xs_Score input, xs_Checks = sorted\<rparr>, reasons))"

definition clone_slice :: "'a list option \<Rightarrow> 'a list option" where
  "clone_slice v = (case v of None \<Rightarrow> None | Some xs \<Rightarrow> if xs = [] then None else Some xs)"

definition normalizeCriticResult :: "corroboration_result \<Rightarrow> int \<Rightarrow> scoring_error + corroboration_result" where
  "normalizeCriticResult input maxFindings =
     (let findings = (case cr_Findings input of None \<Rightarrow> [] | Some fs \<Rightarrow> fs) in
      if int (length findings) > maxFindings then Inl (ScoringField ''critic.result.findings'')
      else case CanonicalCorroborationBytes input of
             Inl err \<Rightarrow> Inl ScoringInvalidInput
           | Inr _ \<Rightarrow>
               Inr (input\<lparr>cr_Findings :=
                 Some (map (\<lambda>d. d\<lparr>fd_Evidence := map_option (sort_slice itemLess) (fd_Evidence d)\<rparr>)
                   (sort_slice decisionLess
                     (map (\<lambda>d. d\<lparr>fd_Evidence := clone_slice (fd_Evidence d)\<rparr>) findings)))\<rparr>))"

definition criticScoreFor :: "corroboration_result \<Rightarrow> int" where
  "criticScoreFor result = (if BlockingFindings (cr_Counts result) > 0 then 0 else GateScoreScale)"

definition criticBlockingReasons :: "corroboration_result \<Rightarrow> string list" where
  "criticBlockingReasons result =
     map (\<lambda>d. ''critic.'' @ cf_ID (fd_Finding d))
       (filter (\<lambda>d. fd_Route d = RouteBlocking) (case cr_Findings result of None \<Rightarrow> [] | Some fs \<Rightarrow> fs))"

definition to_int32 :: "int \<Rightarrow> int" where
  "to_int32 v = (v + 2 ^ 31) mod 2 ^ 32 - 2 ^ 31"

text \<open>Division of Go truncates toward zero.\<close>

definition go_div :: "int \<Rightarrow> int \<Rightarrow> int" where
  "go_div a b = sgn a * sgn b * (\<bar>a\<bar> div \<bar>b\<bar>)"

definition weightedScore :: "int \<Rightarrow> signals_spec \<Rightarrow> int \<Rightarrow> scoring_error + int" where
  "weightedScore execution s critic =
     (if execution < 0 \<or> execution > GateScoreScale \<or> critic < 0 \<or> critic > GateScoreScale
      then Inl (ScoringField ''score'')
      else let criticWeight = (case Critic s of None \<Rightarrow> 0 | Some c \<Rightarrow> WeightBasisPoints c)
           in if ExecutionWeight s + criticWeight \<noteq> GateScoreScale then Inl (ScoringField ''signals'')
              else Inr (to_int32 (go_div (execution * ExecutionWeight s + critic * criticWeight) GateScoreScale)))"

definition reason_ok :: "string \<Rightarrow> bool" where
  "reason_ok r \<longleftrightarrow> \<not> (length r = 0 \<or> length r > MaxReasonBytes \<or> \<not> utf8_valid r \<or>
     contains_any r [CHR 0x00, CHR 0x0D, CHR 0x0A, CHR 0x09, CHR '' ''])"

fun unique_loop :: "string option \<Rightarrow> string list \<Rightarrow> string list" where
  "unique_loop last_kept [] = []"
| "unique_loop last_kept (r # rs) =
     (if \<not> reason_ok r then unique_loop last_kept rs
      else if last_kept = Some r then unique_loop last_kept rs
      else r # unique_loop (Some r) rs)"

definition normalizeReasons :: "string list \<Rightarrow> string list" where
  "normalizeReasons input = take MaxBlockingReasons (unique_loop None (sort input))"

section \<open>Canonical results and evaluation\<close>

text \<open>The critic part that \<^verbatim>\<open>Evaluate\<close> and \<^verbatim>\<open>canonicalizeResult\<close> share, with their two error texts.\<close>

definition critic_part ::
  "scoring_error \<Rightarrow> scoring_error \<Rightarrow> signals_spec \<Rightarrow> corroboration_result option \<Rightarrow>
   scoring_error + corroboration_result option \<times> int \<times> string list" where
  "critic_part missing unexpected s critic =
     (case Critic s of
        Some spec \<Rightarrow>
          (case critic of
             None \<Rightarrow> Inl missing
           | Some result \<Rightarrow>
               (case normalizeCriticResult result (MaxFindingsSpec spec) of
                  Inl err \<Rightarrow> Inl err
                | Inr normalized \<Rightarrow>
                    Inr (Some normalized, criticScoreFor normalized, criticBlockingReasons normalized)))
      | None \<Rightarrow> (if critic \<noteq> None then Inl unexpected else Inr (None, GateScoreScale, [])))"

definition canonicalizeResult :: "scoring_result \<Rightarrow> scoring_error + scoring_result" where
  "canonicalizeResult input =
     (if sr_SchemaVersion input \<noteq> ScoringSchema then Inl (ScoringField ''result.schemaVersion'')
      else case normalizeSignals (Some (sr_Signals input)) of
        Inl err \<Rightarrow> Inl err
      | Inr s \<Rightarrow>
          (case normalizeExecution \<lparr>xs_Score = sr_ExecutionScore input, xs_Checks = sr_ExecutionChecks input\<rparr> of
             Inl err \<Rightarrow> Inl err
           | Inr (execution, executionReasons) \<Rightarrow>
               (case critic_part (ScoringField ''result.criticResult'') (ScoringField ''result.criticResult'')
                       s (sr_CriticResult input) of
                  Inl err \<Rightarrow> Inl err
                | Inr (criticResult, criticScore, criticReasons) \<Rightarrow>
                    (case weightedScore (xs_Score execution) s criticScore of
                       Inl err \<Rightarrow> Inl err
                     | Inr weighted \<Rightarrow>
                         let reasons = normalizeReasons (executionReasons @ criticReasons);
                             reasons = (if weighted < MinScore s
                                        then normalizeReasons (reasons @ [''score.minimum'']) else reasons);
                             verdict = (if reasons \<noteq> [] then ScoreRejected else ScoreAccepted)
                         in if sr_CriticScore input \<noteq> criticScore \<or> sr_WeightedScore input \<noteq> weighted \<or>
                               sr_BlockingReasons input \<noteq> Some reasons \<or> sr_Verdict input \<noteq> verdict
                            then Inl ScoringInvalidInput
                            else Inr \<lparr>sr_SchemaVersion = ScoringSchema, sr_Signals = s,
                              sr_ExecutionScore = xs_Score execution, sr_CriticScore = criticScore,
                              sr_WeightedScore = weighted, sr_ExecutionChecks = xs_Checks execution,
                              sr_CriticResult = criticResult, sr_BlockingReasons = Some reasons,
                              sr_Verdict = verdict\<rparr>))))"

definition Score_Evaluate :: "scoring_input \<Rightarrow> scoring_error + scoring_result" where
  "Score_Evaluate input =
     (case normalizeSignals (si_Signals input) of
        Inl err \<Rightarrow> Inl err
      | Inr s \<Rightarrow>
          (case normalizeExecution (si_Execution input) of
             Inl err \<Rightarrow> Inl err
           | Inr (execution, executionReasons) \<Rightarrow>
               (case critic_part (ScoringField ''critic'') (ScoringField ''critic'') s (si_Critic input) of
                  Inl err \<Rightarrow> Inl err
                | Inr (criticResult, criticScore, criticReasons) \<Rightarrow>
                    (case weightedScore (xs_Score execution) s criticScore of
                       Inl err \<Rightarrow> Inl err
                     | Inr weighted \<Rightarrow>
                         let reasons = executionReasons @ criticReasons;
                             reasons = (if weighted < MinScore s then reasons @ [''score.minimum''] else reasons);
                             reasons = normalizeReasons reasons;
                             verdict = (if reasons \<noteq> [] then ScoreRejected else ScoreAccepted)
                         in canonicalizeResult \<lparr>sr_SchemaVersion = ScoringSchema, sr_Signals = s,
                              sr_ExecutionScore = xs_Score execution, sr_CriticScore = criticScore,
                              sr_WeightedScore = weighted, sr_ExecutionChecks = xs_Checks execution,
                              sr_CriticResult = criticResult, sr_BlockingReasons = Some reasons,
                              sr_Verdict = verdict\<rparr>))))"

definition marshal_signals :: "signals_spec \<Rightarrow> string" where
  "marshal_signals s = json_object
     ([(''executionWeightBasisPoints'', json_int (ExecutionWeight s))]
      @ json_opt ''critic'' (\<lambda>c. json_object
          [(''weightBasisPoints'', json_int (WeightBasisPoints c)), (''modelRouteRef'', json_string (ModelRouteRef c)),
           (''maxFindings'', json_int (MaxFindingsSpec c))]) (Critic s)
      @ [(''minScoreBasisPoints'', json_int (MinScore s))])"

definition marshal_scoring :: "scoring_result \<Rightarrow> string" where
  "marshal_scoring r = json_object
     ([(''schemaVersion'', json_string (sr_SchemaVersion r)), (''signals'', marshal_signals (sr_Signals r)),
       (''executionScoreBasisPoints'', json_int (sr_ExecutionScore r)),
       (''criticScoreBasisPoints'', json_int (sr_CriticScore r)),
       (''weightedScoreBasisPoints'', json_int (sr_WeightedScore r)),
       (''executionChecks'', json_array (map (\<lambda>c. json_object
          [(''name'', json_string (xc_Name c)), (''passed'', json_bool (xc_Passed c)),
           (''blocking'', json_bool (xc_Blocking c))]) (sr_ExecutionChecks r)))]
      @ json_opt ''criticResult'' marshal_result (sr_CriticResult r)
      @ [(''blockingReasons'', json_slice json_string (sr_BlockingReasons r)),
         (''verdict'', json_string (verdict_text (sr_Verdict r)))])"

definition ScoringResultBytes :: "scoring_result \<Rightarrow> scoring_error + string" where
  "ScoringResultBytes result =
     (case canonicalizeResult result of
        Inl err \<Rightarrow> Inl err
      | Inr normalized \<Rightarrow>
          if length (marshal_scoring normalized) > MaxScoringBytes then Inl (ScoringField ''result'')
          else Inr (marshal_scoring normalized))"

definition ScoringResultDigest :: "scoring_result \<Rightarrow> scoring_error + string" where
  "ScoringResultDigest result =
     (case ScoringResultBytes result of Inl err \<Rightarrow> Inl err | Inr encoded \<Rightarrow> Inr (sha256_digest encoded))"

end
