(* ===== verification/Finding_Routing.thy ===== *)
theory Finding_Routing
  imports Finding_Corroboration
begin

text \<open>
  What the routing of critic findings guarantees: what the two validation loops accept, that a
  blocking route needs bound, independently validated, deterministic evidence, that the result
  is canonical, and that accepted input always has a result unless it is too large or a
  digest repeats.
\<close>

section \<open>Accepted input\<close>

lemma first_error_Cons [simp]: "first_error (e # es) = None \<longleftrightarrow> e = None \<and> first_error es = None"
  by (cases e) auto

lemma reject_None [simp]: "reject bad field = None \<longleftrightarrow> \<not> bad"
  by (simp add: reject_def)

definition entries :: "critic_finding list \<Rightarrow> (string \<times> critic_finding) list" where
  "entries fs = map (\<lambda>f. (cf_ID f, f)) fs"

lemma findings_loop_Inr:
  "findings_loop i tbl fs = Inr t \<longleftrightarrow>
     (\<forall>f\<in>set fs. validateFinding f = None) \<and> distinct (map cf_ID fs) \<and>
     cf_ID ` set fs \<inter> fst ` set tbl = {} \<and> t = rev (entries fs) @ tbl"
proof (induction fs arbitrary: i tbl)
  case Nil
  then show ?case by (auto simp: entries_def)
next
  case (Cons f fs)
  have "map_of tbl (cf_ID f) \<noteq> None \<longleftrightarrow> cf_ID f \<in> fst ` set tbl"
    by (metis map_of_eq_None_iff)
  then show ?case using Cons by (auto simp: entries_def)
qed

definition bound_to :: "critic_finding list \<Rightarrow> critic_evidence \<Rightarrow> bool" where
  "bound_to fs e \<longleftrightarrow> (\<exists>f\<in>set fs. sameBinding f (ce_Binding e))"

lemma map_of_entries:
  "distinct (map cf_ID fs) \<Longrightarrow> map_of (rev (entries fs)) k = Some f \<longleftrightarrow> f \<in> set fs \<and> cf_ID f = k"
proof -
  assume d: "distinct (map cf_ID fs)"
  then have "distinct (map fst (rev (entries fs)))"
    by (simp add: entries_def rev_map [symmetric] comp_def)
  then show ?thesis by (auto simp: map_of_eq_Some_iff entries_def)
qed

lemma evidence_loop_None:
  assumes "distinct (map cf_ID fs)"
  shows "evidence_loop (rev (entries fs)) i ids arts es = None \<longleftrightarrow>
     (\<forall>e\<in>set es. validateEvidence e True = None \<and> bound_to fs e) \<and>
     distinct (map ce_ID es) \<and> ce_ID ` set es \<inter> set ids = {} \<and>
     distinct (map ce_ArtifactDigest es) \<and> ce_ArtifactDigest ` set es \<inter> set arts = {}"
proof (induction es arbitrary: i ids arts)
  case Nil
  then show ?case by simp
next
  case (Cons e es)
  define b where "b \<longleftrightarrow> bound_to fs e"
  have "evidence_loop (rev (entries fs)) i ids arts (e # es) = None \<longleftrightarrow>
      validateEvidence e True = None \<and> ce_ID e \<notin> set ids \<and> b \<and> ce_ArtifactDigest e \<notin> set arts \<and>
      evidence_loop (rev (entries fs)) (Suc i) (ce_ID e # ids) (ce_ArtifactDigest e # arts) es = None"
  proof (cases "map_of (rev (entries fs)) (eb_FindingID (ce_Binding e))")
    case None
    then have "\<not> b" unfolding b_def bound_to_def sameBinding_def
      by (metis map_of_entries [OF assms] option.distinct(1))
    with None show ?thesis by simp
  next
    case (Some f)
    then have f: "f \<in> set fs" "cf_ID f = eb_FindingID (ce_Binding e)" using map_of_entries [OF assms] by auto
    have "b \<longleftrightarrow> sameBinding f (ce_Binding e)"
      using f assms by (auto simp: b_def bound_to_def sameBinding_def distinct_map inj_on_def)
    with Some show ?thesis by auto
  qed
  then show ?case unfolding Cons b_def by auto
qed

definition acceptable :: "critic_finding list \<Rightarrow> critic_evidence list \<Rightarrow> bool" where
  "acceptable fs es \<longleftrightarrow>
     length fs \<le> MaxFindings \<and> length es \<le> MaxEvidence \<and>
     (\<forall>f\<in>set fs. validateFinding f = None) \<and> distinct (map cf_ID fs) \<and>
     (\<forall>e\<in>set es. validateEvidence e True = None \<and> bound_to fs e) \<and>
     distinct (map ce_ID es) \<and> distinct (map ce_ArtifactDigest es)"

definition normal_form :: "critic_finding list \<Rightarrow> critic_evidence list \<Rightarrow> corroboration_input" where
  "normal_form fs es = \<lparr>ci_SchemaVersion = CorroborationSchema,
     ci_Findings = Some (sort_slice findingLess fs), ci_Evidence = Some (sort_slice evidenceLess es)\<rparr>"

lemma normalizeInput_Inr:
  "normalizeInput input = Inr n \<longleftrightarrow>
     (\<exists>fs es. input = \<lparr>ci_SchemaVersion = CorroborationSchema, ci_Findings = Some fs, ci_Evidence = Some es\<rparr> \<and>
        acceptable fs es \<and> n = normal_form fs es \<and> length (marshal_input n) \<le> MaxInputBytes)"
  (is "?l \<longleftrightarrow> ?r")
proof
  assume ?l
  then obtain fs es t where p: "ci_SchemaVersion input = CorroborationSchema" "ci_Findings input = Some fs"
    "ci_Evidence input = Some es" "length fs \<le> MaxFindings" "length es \<le> MaxEvidence"
    "findings_loop 0 [] fs = Inr t" "evidence_loop t 0 [] [] es = None" "n = normal_form fs es"
    "length (marshal_input n) \<le> MaxInputBytes"
    by (auto simp: normalizeInput_def normal_form_def Let_def split: if_splits option.splits sum.splits)
  then have "acceptable fs es"
    using findings_loop_Inr [of 0 "[]" fs t] evidence_loop_None by (auto simp: acceptable_def)
  with p show ?r by (intro exI [of _ fs] exI [of _ es]) auto
next
  assume ?r
  then obtain fs es where i: "input = \<lparr>ci_SchemaVersion = CorroborationSchema, ci_Findings = Some fs, ci_Evidence = Some es\<rparr>"
    and a: "acceptable fs es" and n: "n = normal_form fs es" "length (marshal_input n) \<le> MaxInputBytes" by blast
  have "findings_loop 0 [] fs = Inr (rev (entries fs))"
    using a by (simp add: findings_loop_Inr acceptable_def)
  moreover have "evidence_loop (rev (entries fs)) 0 [] [] es = None"
    using a evidence_loop_None by (simp add: acceptable_def)
  ultimately show ?l
    using a n by (simp add: i normalizeInput_def acceptable_def normal_form_def)
qed

section \<open>The routed result\<close>

definition routed :: "critic_finding list \<Rightarrow> critic_evidence list \<Rightarrow> corroboration_result" where
  "routed fs es = \<lparr>cr_SchemaVersion = CorroborationSchema, cr_Findings = Some (map (decide_finding es) fs),
     cr_Counts = fold (count_finding es) fs (zero_counts\<lparr>TotalFindings := length fs\<rparr>)\<rparr>"

abbreviation routed_sorted :: "critic_finding list \<Rightarrow> critic_evidence list \<Rightarrow> corroboration_result" where
  "routed_sorted fs es \<equiv> routed (sort_slice findingLess fs) (sort_slice evidenceLess es)"

lemma Corroborate_normal:
  "normalizeInput input = Inr (normal_form fs es) \<Longrightarrow>
     Corroborate input =
       (case CanonicalCorroborationBytes (routed_sorted fs es) of
          Inl _ \<Rightarrow> Inl (InvalidField ''result'') | Inr _ \<Rightarrow> Inr (routed_sorted fs es))"
  by (simp add: Corroborate_def normal_form_def routed_def Let_def split: sum.split)

lemma Corroborate_InrE:
  assumes "Corroborate input = Inr r"
  obtains fs es b where
    "input = \<lparr>ci_SchemaVersion = CorroborationSchema, ci_Findings = Some fs, ci_Evidence = Some es\<rparr>"
    "acceptable fs es" "length (marshal_input (normal_form fs es)) \<le> MaxInputBytes"
    "r = routed_sorted fs es" "CanonicalCorroborationBytes r = Inr b"
proof -
  obtain n where n: "normalizeInput input = Inr n"
    using assms by (auto simp: Corroborate_def split: sum.splits)
  then obtain fs es where f:
    "input = \<lparr>ci_SchemaVersion = CorroborationSchema, ci_Findings = Some fs, ci_Evidence = Some es\<rparr>"
    "acceptable fs es" "n = normal_form fs es" "length (marshal_input n) \<le> MaxInputBytes"
    using normalizeInput_Inr by blast
  have "normalizeInput input = Inr (normal_form fs es)" using n f(3) by simp
  note c = Corroborate_normal [OF this]
  obtain b where "r = routed_sorted fs es" "CanonicalCorroborationBytes r = Inr b"
    using assms unfolding c by (auto split: sum.splits)
  then show ?thesis using f that by blast
qed

lemma findingLess_key: "findingLess = (\<lambda>f g. cf_ID f < cf_ID g)"
  by (simp add: fun_eq_iff findingLess_def)

definition evidence_key :: "critic_evidence \<Rightarrow> string \<times> string" where
  "evidence_key e = (ce_ID e, class_text (ce_Class e))"

lemma evidenceLess_key: "evidenceLess = (\<lambda>d e. evidence_key d < evidence_key e)"
  by (simp add: fun_eq_iff evidenceLess_def evidence_key_def pair_less del: less_prod_simp)

interpretation finding_order: slice_order findingLess
  unfolding findingLess_key by (rule key_slice_order)

interpretation evidence_order: slice_order evidenceLess
  unfolding evidenceLess_key by (rule key_slice_order)

interpretation decision_order: slice_order decisionLess
  by unfold_locales (auto simp: decisionLess_def)

interpretation item_order: slice_order itemLess
  by unfold_locales (auto simp: itemLess_def)

lemma sorted_decisions:
  "sort_slice decisionLess (map (decide_finding es) (sort_slice findingLess fs)) =
     map (decide_finding es) (sort_slice findingLess fs)"
proof (rule decision_order.sort_ordered)
  show "decision_order.ordered (map (decide_finding es) (sort_slice findingLess fs))"
    using finding_order.ordered_sort [of fs]
    by (simp add: sorted_wrt_map decisionLess_def findingLess_def decide_finding_def Let_def)
qed

lemma sorted_items:
  assumes "distinct (map ce_ID es)"
  shows "sort_slice itemLess (map decide_item (evidence_for (sort_slice evidenceLess es) f)) =
     map decide_item (evidence_for (sort_slice evidenceLess es) f)"
proof (rule item_order.sort_ordered)
  have "sorted_wrt (\<lambda>d e. \<not> evidenceLess e d) (evidence_for (sort_slice evidenceLess es) f)"
    unfolding evidence_for_def by (intro sorted_wrt_filter evidence_order.ordered_sort)
  then show "item_order.ordered (map decide_item (evidence_for (sort_slice evidenceLess es) f))"
    unfolding sorted_wrt_map
    by (rule sorted_wrt_mono_rel [rotated]) (auto simp: itemLess_def evidenceLess_def decide_item_def split: if_splits)
qed

lemma sort_decisions_routed:
  assumes "distinct (map ce_ID es)"
  shows "sort_decisions (map (decide_finding (sort_slice evidenceLess es)) (sort_slice findingLess fs)) =
     map (decide_finding (sort_slice evidenceLess es)) (sort_slice findingLess fs)"
  unfolding sort_decisions_def sorted_decisions
  by (simp add: decide_finding_def Let_def sorted_items [OF assms])

section \<open>Canonical results of the router\<close>

lemma validateToken_field: "validateToken s n f = None \<Longrightarrow> validateToken s n g = None"
  by (simp add: validateToken_def)

lemma plain_message:
  assumes "s \<noteq> []" and "length s \<le> n" and "list_all (\<lambda>c. \<not> digit7 c \<and> 32 \<le> byte_of c \<and> byte_of c < (127 :: nat)) s"
  shows "validateMessage s n field = None"
proof -
  have a: "list_all (\<lambda>c. \<not> digit7 c) s" using assms(3) by (simp add: list_all_iff)
  have "\<not> is_format r" if "r < 127" for r
    using that by (simp add: is_format_def format_ranges_def)
  then show ?thesis
    using assms utf8_valid_ascii [OF a] range_runes_ascii [OF a]
    by (auto simp: validateMessage_def list_ex_iff list_all_iff is_control_def contains_byte_iff)
qed

lemma reasons_valid:
  "validateMessage (advisoryReason es) 2048 field = None"
  "validateMessage ''independently validated deterministic corroboration'' 2048 field = None"
  unfolding advisoryReason_def by (auto intro!: plain_message)

lemma valid_decide_item:
  "validateEvidence e True = None \<Longrightarrow> validateResultEvidence (decide_item e) field = None"
  by (auto simp: validateEvidence_def validateResultEvidence_def validateRoute_def decide_item_def
      intro: validateToken_field)

lemma decide_item_agrees [simp]:
  "result_blocks (decide_item e) = blocks e" "derive_item (decide_item e) = count_item e"
  by (auto simp: fun_eq_iff result_blocks_def blocks_def result_deterministic_def validated_deterministic_def
      decide_item_def derive_item_def count_item_def Let_def conj_commute)

lemma decide_item_fields [simp]:
  "ed_ID (decide_item e) = ce_ID e" "ed_Digest (decide_item e) = ce_Digest e"
  "ed_Route (decide_item e) = (if blocks e then RouteBlocking else RouteAdvisory)"
  "ed_Class (decide_item e) = ClassModelAssertion \<and> ed_Corroborates (decide_item e) \<longleftrightarrow> False"
  by (auto simp: decide_item_def evidenceCorroborates_def)

lemma result_items_routed:
  assumes "\<forall>e\<in>set es. validateEvidence e True = None"
    and "distinct (map ce_ID es)" and "ce_ID ` set es \<inter> set (seenEvidenceIDs st) = {}"
    and "distinct (map ce_Digest es)" and "ce_Digest ` set es \<inter> set (seenEvidenceDigests st) = {}"
  shows "result_items prefix j b st (map decide_item es) = Inr (b \<or> list_ex blocks es,
     st\<lparr>seenEvidenceIDs := rev (map ce_ID es) @ seenEvidenceIDs st,
        seenEvidenceDigests := rev (map ce_Digest es) @ seenEvidenceDigests st,
        derived := fold count_item es (derived st)\<rparr>)"
  using assms
proof (induction es arbitrary: j b st)
  case Nil
  then show ?case by simp
next
  case (Cons e es)
  let ?st = "st\<lparr>seenEvidenceIDs := ce_ID e # seenEvidenceIDs st,
    seenEvidenceDigests := ce_Digest e # seenEvidenceDigests st, derived := count_item e (derived st)\<rparr>"
  have ok: "validateResultEvidence (decide_item e) field = None" for field
    using Cons.prems(1) valid_decide_item by simp
  have step: "result_items prefix j b st (map decide_item (e # es)) =
      result_items prefix (Suc j) (b \<or> blocks e) ?st (map decide_item es)"
  proof -
    have "first_error
            [validateResultEvidence (decide_item e) (indexed_field (prefix @ ''.evidence'') j []),
             reject (List.member (seenEvidenceIDs st) (ed_ID (decide_item e))) f1,
             reject (List.member (seenEvidenceDigests st) (ed_Digest (decide_item e))) f2,
             reject (ed_Route (decide_item e) \<noteq> (if result_blocks (decide_item e) then RouteBlocking else RouteAdvisory)) f3,
             reject (ed_Class (decide_item e) = ClassModelAssertion \<and> ed_Corroborates (decide_item e)) f4] = None"
      for f1 f2 f3 f4
      using Cons.prems(3,5) ok unfolding first_error_Cons reject_None by simp
    then show ?thesis
      unfolding list.map result_items.simps Let_def
      by (simp only: option.case decide_item_fields decide_item_agrees)
  qed
  have "result_items prefix (Suc j) (b \<or> blocks e) ?st (map decide_item es) = Inr ((b \<or> blocks e) \<or> list_ex blocks es,
      ?st\<lparr>seenEvidenceIDs := rev (map ce_ID es) @ seenEvidenceIDs ?st,
        seenEvidenceDigests := rev (map ce_Digest es) @ seenEvidenceDigests ?st,
        derived := fold count_item es (derived ?st)\<rparr>)"
    using Cons.prems by (intro Cons.IH) auto
  then show ?case unfolding step by (simp add: disj_assoc)
qed

lemma evidence_for_sum:
  assumes "distinct (map cf_ID fs)"
  shows "sum_list (map (\<lambda>f. length (evidence_for es f)) fs) \<le> length es"
  using assms
proof (induction fs arbitrary: es)
  case Nil
  then show ?case by simp
next
  case (Cons f fs)
  let ?rest = "filter (\<lambda>e. eb_FindingID (ce_Binding e) \<noteq> cf_ID f) es"
  have "evidence_for es g = evidence_for ?rest g" if "g \<in> set fs" for g
  proof -
    have "cf_ID g \<noteq> cf_ID f" using Cons.prems imageI [OF that, of cf_ID] by auto
    then show ?thesis by (auto simp: evidence_for_def intro: filter_cong)
  qed
  then have "sum_list (map (\<lambda>f. length (evidence_for es f)) fs) =
      sum_list (map (\<lambda>f. length (evidence_for ?rest f)) fs)"
    by (intro arg_cong [where f = sum_list] map_cong) auto
  also have "\<dots> \<le> length ?rest" using Cons by simp
  finally show ?case
    using sum_length_filter_compl [of "\<lambda>e. eb_FindingID (ce_Binding e) = cf_ID f" es]
    by (simp add: evidence_for_def)
qed

lemma result_finding_routed:
  assumes valid: "validateFinding f = None" "\<forall>e\<in>set es. validateEvidence e True = None"
    and ids: "distinct (map ce_ID es)" "ce_ID ` set (evidence_for es f) \<inter> set (seenEvidenceIDs st) = {}"
    and digests: "distinct (map ce_Digest es)" "ce_Digest ` set (evidence_for es f) \<inter> set (seenEvidenceDigests st) = {}"
    and fresh: "cf_ID f \<notin> set (seenFindings st)"
    and room: "totalEvidence st + length (evidence_for es f) \<le> MaxEvidence"
  shows "result_finding i (decide_finding es f) st = Inr (st\<lparr>
     seenFindings := cf_ID f # seenFindings st,
     seenEvidenceIDs := rev (map ce_ID (evidence_for es f)) @ seenEvidenceIDs st,
     seenEvidenceDigests := rev (map ce_Digest (evidence_for es f)) @ seenEvidenceDigests st,
     totalEvidence := totalEvidence st + length (evidence_for es f),
     derived := count_finding es f (derived st)\<rparr>)"
proof -
  let ?items = "evidence_for es f" and ?d = "decide_finding es f"
  have fields: "fd_Finding ?d = f" "fd_Evidence ?d = Some (map decide_item ?items)"
    "fd_Route ?d = (if list_ex blocks ?items then RouteBlocking else RouteAdvisory)"
    by (simp_all add: decide_finding_def Let_def)
  have reason: "validateMessage (fd_Reason ?d) 2048 field = None" for field
    using reasons_valid by (simp add: decide_finding_def Let_def)
  let ?st = "st\<lparr>seenFindings := cf_ID f # seenFindings st, totalEvidence := totalEvidence st + length ?items\<rparr>"
  have items: "result_items prefix 0 False ?st (map decide_item ?items) = Inr (list_ex blocks ?items,
     ?st\<lparr>seenEvidenceIDs := rev (map ce_ID ?items) @ seenEvidenceIDs st,
        seenEvidenceDigests := rev (map ce_Digest ?items) @ seenEvidenceDigests st,
        derived := fold count_item ?items (derived st)\<rparr>)" for prefix
  proof -
    have "set ?items \<subseteq> set es" "distinct (map ce_ID ?items)" "distinct (map ce_Digest ?items)"
      using ids(1) digests(1) by (auto simp: evidence_for_def intro: distinct_map_filter)
    then show ?thesis
      using result_items_routed [of ?items ?st prefix 0 False] valid(2) ids(2) digests(2) by auto
  qed
  have ok: "first_error
     [reject (validateFinding (fd_Finding ?d) \<noteq> None) f0,
      reject (List.member (seenFindings st) (cf_ID (fd_Finding ?d))) f1,
      validateRoute (fd_Route ?d) f2, validateMessage (fd_Reason ?d) 2048 f3,
      reject (case fd_Evidence ?d of None \<Rightarrow> True | Some es \<Rightarrow> length es > MaxEvidence) f4,
      reject (totalEvidence st + length (the (fd_Evidence ?d)) > MaxEvidence) f5] = None" for f0 f1 f2 f3 f4 f5
    using valid(1) fresh room reason
    unfolding first_error_Cons reject_None fields by (simp add: validateRoute_def)
  show ?thesis
    unfolding result_finding_def Let_def ok option.case
    unfolding fields(1,2) option.sel length_map items sum.case prod.case
    by (simp add: fields(3) count_finding_def Let_def)
qed

lemma evidence_for_disjoint:
  assumes "distinct (map g es)" and "cf_ID f \<noteq> cf_ID f'"
  shows "g ` set (evidence_for es f) \<inter> g ` set (evidence_for es f') = {}"
proof -
  have inj: "inj_on g (set es)" using assms(1) by (simp add: distinct_map)
  have sub: "set (evidence_for es h) \<subseteq> set es" for h by (auto simp: evidence_for_def)
  have "set (evidence_for es f) \<inter> set (evidence_for es f') = {}" using assms(2) by (auto simp: evidence_for_def)
  then show ?thesis using inj_on_image_Int [OF inj sub sub] by (metis image_empty)
qed

lemma result_loop_routed:
  assumes "\<forall>e\<in>set es. validateEvidence e True = None" and "distinct (map ce_ID es)" and "distinct (map ce_Digest es)"
    and "\<forall>f\<in>set fs. validateFinding f = None" and "distinct (map cf_ID fs)"
    and "cf_ID ` set fs \<inter> set (seenFindings st) = {}"
    and "\<forall>f\<in>set fs. ce_ID ` set (evidence_for es f) \<inter> set (seenEvidenceIDs st) = {}"
    and "\<forall>f\<in>set fs. ce_Digest ` set (evidence_for es f) \<inter> set (seenEvidenceDigests st) = {}"
    and "totalEvidence st + sum_list (map (\<lambda>f. length (evidence_for es f)) fs) \<le> MaxEvidence"
  shows "\<exists>st'. result_loop i st (map (decide_finding es) fs) = Inr st' \<and>
     derived st' = fold (count_finding es) fs (derived st)"
  using assms
proof (induction fs arbitrary: i st)
  case Nil
  then show ?case by simp
next
  case (Cons f fs)
  let ?items = "evidence_for es f"
  let ?st = "st\<lparr>seenFindings := cf_ID f # seenFindings st,
     seenEvidenceIDs := rev (map ce_ID ?items) @ seenEvidenceIDs st,
     seenEvidenceDigests := rev (map ce_Digest ?items) @ seenEvidenceDigests st,
     totalEvidence := totalEvidence st + length ?items, derived := count_finding es f (derived st)\<rparr>"
  have step: "result_finding i (decide_finding es f) st = Inr ?st"
    using Cons.prems by (intro result_finding_routed) auto
  have other: "cf_ID f' \<noteq> cf_ID f" if "f' \<in> set fs" for f'
    using Cons.prems(5) imageI [OF that, of cf_ID] by auto
  have "\<exists>st'. result_loop (Suc i) ?st (map (decide_finding es) fs) = Inr st' \<and>
      derived st' = fold (count_finding es) fs (derived ?st)"
  proof (rule Cons.IH)
    show "cf_ID ` set fs \<inter> set (seenFindings ?st) = {}" using Cons.prems(5,6) by auto
    show "\<forall>f'\<in>set fs. ce_ID ` set (evidence_for es f') \<inter> set (seenEvidenceIDs ?st) = {}"
      using Cons.prems(7) other evidence_for_disjoint [OF Cons.prems(2)] by (auto simp: Int_Un_distrib)
    show "\<forall>f'\<in>set fs. ce_Digest ` set (evidence_for es f') \<inter> set (seenEvidenceDigests ?st) = {}"
      using Cons.prems(8) other evidence_for_disjoint [OF Cons.prems(3)] by (auto simp: Int_Un_distrib)
    show "totalEvidence ?st + sum_list (map (\<lambda>f. length (evidence_for es f)) fs) \<le> MaxEvidence"
      using Cons.prems(9) by simp
  qed (use Cons.prems in auto)
  then show ?case by (simp add: step)
qed

lemma normalizeResult_routed:
  assumes "acceptable fs es" and "distinct (map ce_Digest es)"
  shows "normalizeResult (routed_sorted fs es) = Inr (routed_sorted fs es)"
proof -
  let ?fs = "sort_slice findingLess fs" and ?es = "sort_slice evidenceLess es"
  let ?st = "\<lparr>seenFindings = [], seenEvidenceIDs = [], seenEvidenceDigests = [], totalEvidence = 0,
    derived = zero_counts\<lparr>TotalFindings := length ?fs\<rparr>\<rparr>"
  have "sum_list (map (\<lambda>f. length (evidence_for ?es f)) ?fs) \<le> length ?es"
    using assms(1) by (intro evidence_for_sum) (simp add: acceptable_def)
  also have "\<dots> \<le> MaxEvidence" using assms(1) by (simp add: acceptable_def)
  finally have "\<exists>st'. result_loop 0 ?st (map (decide_finding ?es) ?fs) = Inr st' \<and>
      derived st' = fold (count_finding ?es) ?fs (derived ?st)"
    using assms by (intro result_loop_routed) (simp_all add: acceptable_def)
  then obtain st' where "result_loop 0 ?st (map (decide_finding ?es) ?fs) = Inr st'"
    "derived st' = fold (count_finding ?es) ?fs (zero_counts\<lparr>TotalFindings := length ?fs\<rparr>)" by auto
  moreover have "length ?fs \<le> MaxFindings" "sort_decisions (map (decide_finding ?es) ?fs) = map (decide_finding ?es) ?fs"
    using assms(1) sort_decisions_routed by (simp_all add: acceptable_def)
  ultimately show ?thesis by (simp add: normalizeResult_def routed_def)
qed

section \<open>Sealed evidence\<close>

lemma digestEvidence_ignores: "digestEvidence (e\<lparr>ce_Digest := x\<rparr>) = digestEvidence e"
  by (simp add: digestEvidence_def)

lemma validDigest_digestEvidence: "validDigest (digestEvidence e)"
  by (simp add: digestEvidence_def validDigest_def sha256_digest_def sha256_hex_lower)

lemma payload_ignores:
  "validatePayloadShape (e\<lparr>ce_Digest := x\<rparr>) = validatePayloadShape e"
  "validate_payload (e\<lparr>ce_Digest := x\<rparr>) = validate_payload e"
  by (simp add: validatePayloadShape_def) (cases "ce_Class e"; simp add: validate_payload_def)

lemma sealed_valid:
  assumes "validateEvidence e False = None"
  shows "validateEvidence (e\<lparr>ce_Digest := digestEvidence e\<rparr>) True = None"
  using assms validDigest_digestEvidence [of e]
  by (simp add: validateEvidence_def payload_ignores digestEvidence_ignores)

section \<open>Sizes of wire text\<close>

lemma length_json_rune:
  assumes "bs \<noteq> []"
  shows "length (json_rune bs) \<le> 6 * snd (decode_rune bs)"
proof -
  obtain r w where d: "decode_rune bs = (r, w)" by fastforce
  have "length (json_rune bs) \<le> max 6 w"
    by (simp add: json_rune_def d json_ascii_def hex_byte_def le_max_iff_disj)
  moreover have "0 < w" using decode_rune_width [OF assms] d by simp
  ultimately show ?thesis using d by simp
qed

lemma length_json_escape: "length (json_escape bs) \<le> 6 * length bs"
proof (induction bs rule: length_induct)
  case (1 bs)
  show ?case
  proof (cases "bs = []")
    case True
    then show ?thesis by (simp add: json_escape.simps)
  next
    case False
    let ?w = "snd (decode_rune bs)"
    have w: "0 < ?w" "?w \<le> length bs"
      using decode_rune_width [OF False] False by (auto simp: decode_rune_def split: list.splits)
    have "length (json_escape (drop ?w bs)) \<le> 6 * length (drop ?w bs)"
      using w by (intro 1 [rule_format]) simp
    then show ?thesis
      using length_json_rune [OF False] w by (subst json_escape.simps) (simp add: False)
  qed
qed

lemma length_json_string: "length (json_string s) \<le> 6 * length s + 2"
  using length_json_escape [of "map byte_of s"] by (simp add: json_string_def)

section \<open>A sample input\<close>

text \<open>One finding, corroborated by a sealed match of a static tool.\<close>

definition sample_location :: location where
  "sample_location = \<lparr>StartLine = 3, StartColumn = 1, EndLine = 3, EndColumn = 9\<rparr>"

definition sample_finding :: critic_finding where
  "sample_finding = \<lparr>cf_ID = ''f1'', cf_Path = ''pkg/a.go'', cf_Location = sample_location, cf_RuleID = ''r1'',
     cf_Message = ''unchecked error''\<rparr>"

definition sample_open :: critic_evidence where
  "sample_open = \<lparr>ce_ID = ''e1'', ce_Class = ClassStatic,
     ce_Binding = \<lparr>eb_FindingID = ''f1'', eb_Path = ''pkg/a.go'', eb_Location = sample_location, eb_RuleID = ''r1''\<rparr>,
     ce_Immutable = True, ce_Digest = [], ce_ArtifactDigest = DigestPrefix @ replicate 64 (CHR ''b''),
     ce_Validation = \<lparr>Validator = ''vet'', Deterministic = True, Independent = True\<rparr>,
     ce_Reproduction = None, ce_Static = Some \<lparr>se_Tool = ''vet'', se_Matched = True, se_MatchCount = 2\<rparr>,
     ce_SymbolGraph = None, ce_Policy = None, ce_ModelAssertion = None\<rparr>"

definition sample_evidence :: critic_evidence where
  "sample_evidence = sample_open\<lparr>ce_Digest := digestEvidence sample_open\<rparr>"

definition sample_critique :: corroboration_input where
  "sample_critique = \<lparr>ci_SchemaVersion = CorroborationSchema, ci_Findings = Some [sample_finding],
     ci_Evidence = Some [sample_evidence]\<rparr>"

lemma ascii_token:
  assumes "s \<noteq> []" and "length s \<le> 128" and "list_all (\<lambda>c. \<not> digit7 c) s" and "token_shape s"
  shows "validateToken s 128 field = None"
  using assms utf8_valid_ascii by (simp add: validateToken_def)

lemma sample_valid: "validateFinding sample_finding = None" "validateEvidence sample_open False = None"
proof -
  have p: "validatePath ''pkg/a.go'' = None"
    using utf8_valid_ascii [of "''pkg/a.go''"] range_runes_ascii [of "''pkg/a.go''"]
    by (simp add: validatePath_def has_prefix_def contains_byte_def is_control_def is_format_def format_ranges_def)
  have l: "validateLocation sample_location = None"
    by (simp add: validateLocation_def sample_location_def)
  note simps = token_shape_def token_start_def token_rest_def Let_def
  have t: "validateToken ''f1'' 128 n = None" "validateToken ''r1'' 128 n = None" "validateToken ''e1'' 128 n = None"
    "validateToken ''vet'' 128 n = None" for n
    by (intro ascii_token; simp add: simps)+
  show "validateFinding sample_finding = None"
    using p l t by (simp add: validateFinding_def sample_finding_def plain_message)
  show "validateEvidence sample_open False = None"
    using p l t by (simp add: validateEvidence_def validateBinding_def sample_open_def validDigest_def lower_hex_def list_all_iff
        validatePayloadShape_def validate_payload_def on_payload_def validateStatic_def)
qed

lemma length_json_join: "length (json_join xs) \<le> sum_list (map (\<lambda>x. length x + 1) xs)"
  by (induction xs rule: json_join.induct) auto

lemma length_json_object:
  "length (json_object kvs) \<le> 2 + sum_list (map (\<lambda>(k, v). 6 * length k + length v + 4) kvs)"
proof -
  have "sum_list (map (\<lambda>x. length x + 1) (map (\<lambda>(k, v). json_string k @ '':'' @ v) kvs)) \<le>
      sum_list (map (\<lambda>(k, v). 6 * length k + length v + 4) kvs)"
  proof (induction kvs)
    case Nil
    then show ?case by simp
  next
    case (Cons kv kvs)
    then show ?case using length_json_string [of "fst kv"] by (cases kv) simp
  qed
  then show ?thesis
    using length_json_join [of "map (\<lambda>(k, v). json_string k @ '':'' @ v) kvs"] by (simp add: json_object_def)
qed

lemma length_json_int: "length (json_int i) \<le> nat (abs i) + 2"
proof -
  have "length (nat_digits n) \<le> n + 1" for n
  proof (induction n rule: nat_digits.induct)
    case (1 n)
    then show ?case by (subst nat_digits.simps) auto
  qed
  from this [of "nat i"] this [of "nat (- i)"] show ?thesis by (auto simp: json_int_def)
qed

lemmas json_bounds = length_json_string length_json_int

lemma length_digestEvidence [simp]: "length (digestEvidence e) = 71"
  by (simp add: digestEvidence_def sha256_digest_def)

text \<open>Bounds on the parts, from the inside out; the texts are far below the limits.\<close>

lemma short_string: "length s \<le> 160 \<Longrightarrow> length (json_string s) \<le> 1000"
  using length_json_string [of s] by simp

lemma short_int: "0 \<le> i \<Longrightarrow> i \<le> 9 \<Longrightarrow> length (json_int i) \<le> 20"
  using length_json_int [of i] by simp

lemma short_nat: "i \<le> 9 \<Longrightarrow> length (json_nat i) \<le> 20"
  using short_int [of "int i"] by (simp add: json_nat_def json_int_def)

lemma short_bool: "length (json_bool b) \<le> 5"
  by (simp add: json_bool_def)

lemmas object_bound = order_trans [OF length_json_object]

lemma sample_parts:
  "length (marshal_finding sample_finding) \<le> 8000" "length (marshal_evidence sample_evidence) \<le> 40000"
  "length (json_string CorroborationSchema) \<le> 1000"
proof -
  have loc: "length (marshal_location sample_location) \<le> 2000"
    unfolding marshal_location_def sample_location_def
    by (rule object_bound) (use short_int [of 1] short_int [of 3] short_int [of 9] in simp)
  show "length (marshal_finding sample_finding) \<le> 8000"
    unfolding marshal_finding_def sample_finding_def
    by (rule object_bound) (use short_string [of "''f1''"] short_string [of "''pkg/a.go''"] short_string [of "''r1''"] short_string [of "''unchecked error''"] loc in simp)
  have bin: "length (marshal_binding (ce_Binding sample_evidence)) \<le> 8000"
    unfolding marshal_binding_def sample_evidence_def sample_open_def
    by (rule object_bound) (use short_string [of "''f1''"] short_string [of "''pkg/a.go''"] short_string [of "''r1''"] loc in simp)
  have val: "length (marshal_validation (ce_Validation sample_evidence)) \<le> 8000"
    unfolding marshal_validation_def sample_evidence_def sample_open_def
    by (rule object_bound) (use short_string [of "''vet''"] short_bool [of True] in simp)
  have sta: "length (marshal_static \<lparr>se_Tool = ''vet'', se_Matched = True, se_MatchCount = 2\<rparr>) \<le> 8000"
    unfolding marshal_static_def by (rule object_bound) (use short_string [of "''vet''"] short_bool [of True] short_int [of 2] in simp)
  show "length (marshal_evidence sample_evidence) \<le> 40000"
    unfolding marshal_evidence_def
    by (rule object_bound) (use short_string [of "''e1''"] short_string [of "''static''"] short_string [of "digestEvidence sample_open"]
        short_string [of "DigestPrefix @ replicate 64 (CHR ''b'')"] bin val sta short_bool [of True]
      in \<open>simp add: sample_evidence_def sample_open_def json_opt_def\<close>)
  show "length (json_string CorroborationSchema) \<le> 1000" by (intro short_string) (simp add: CorroborationSchema_def)
qed

lemma sample_input_size:
  "length (marshal_input (normal_form [sample_finding] [sample_evidence])) \<le> MaxInputBytes"
  unfolding marshal_input_def
  by (rule object_bound) (use sample_parts in \<open>simp add: normal_form_def json_slice_def json_array_def\<close>)

lemma sample_routing:
  "evidence_for [sample_evidence] sample_finding = [sample_evidence]" "blocks sample_evidence"
  by (simp_all add: evidence_for_def blocks_def validated_deterministic_def evidenceCorroborates_def
      sample_evidence_def sample_open_def sample_finding_def)

lemma sample_result_size:
  "length (marshal_result (routed [sample_finding] [sample_evidence])) \<le> MaxCorroborationBytes"
proof -
  have ite: "length (marshal_evidence_decision (decide_item sample_evidence)) \<le> 8000"
    unfolding marshal_evidence_decision_def
    by (rule object_bound) (use short_string [of "''e1''"] short_string [of "''static''"] short_string [of "digestEvidence sample_open"] short_bool [of True]
        short_bool [of False] short_string [of "''blocking''"] short_string [of "''advisory''"] short_bool [of "evidenceCorroborates sample_evidence"]
      in \<open>simp add: decide_item_def sample_evidence_def sample_open_def\<close>)
  have dec: "length (marshal_finding_decision (decide_finding [sample_evidence] sample_finding)) \<le> 20000"
    unfolding marshal_finding_decision_def decide_finding_def sample_routing(1)
    by (rule object_bound) (use sample_parts(1) ite short_string [of "''blocking''"] short_string [of "''independently validated deterministic corroboration''"]
      in \<open>simp add: sample_routing json_slice_def json_array_def\<close>)
  have cou: "length (marshal_counts (cr_Counts (routed [sample_finding] [sample_evidence]))) \<le> 8000"
    unfolding marshal_counts_def
    by (rule object_bound) (use short_nat [of 0] short_nat [of 1] in
      \<open>simp add: routed_def count_finding_def sample_routing count_item_def zero_counts_def Let_def\<close>)
  show "length (marshal_result (routed [sample_finding] [sample_evidence])) \<le> MaxCorroborationBytes"
    unfolding marshal_result_def
    by (rule object_bound) (use sample_parts(3) dec cou in \<open>simp add: routed_def json_slice_def json_array_def\<close>)
qed

lemma sample_runs: "Corroborate sample_critique = Inr (routed [sample_finding] [sample_evidence])"
proof -
  have "bound_to [sample_finding] sample_evidence"
    by (simp add: bound_to_def sameBinding_def sample_finding_def sample_evidence_def sample_open_def)
  then have a: "acceptable [sample_finding] [sample_evidence]"
    using sample_valid sealed_valid by (simp add: acceptable_def sample_evidence_def)
  then have "normalizeInput sample_critique = Inr (normal_form [sample_finding] [sample_evidence])"
    using sample_input_size normalizeInput_Inr unfolding sample_critique_def by blast
  moreover have "normalizeResult (routed [sample_finding] [sample_evidence]) = Inr (routed [sample_finding] [sample_evidence])"
    using normalizeResult_routed [OF a] by simp
  ultimately show ?thesis
    using sample_result_size Corroborate_normal by (simp add: CanonicalCorroborationBytes_def)
qed

section \<open>Properties\<close>

text \<open>
  C18. The word of a model never blocks a run: a finding is routed as blocking exactly when some
  evidence of the input is bound to that very finding, is not a model assertion, was produced
  by a deterministic and independent validator, and corroborates the finding.
\<close>

theorem blocking_needs_validated_evidence:
  assumes "Corroborate input = Inr r" and "cr_Findings r = Some ds" and "d \<in> set ds"
  shows "fd_Route d = RouteBlocking \<longleftrightarrow>
    (\<exists>e\<in>set (the (ci_Evidence input)). sameBinding (fd_Finding d) (ce_Binding e) \<and>
       ce_Class e \<noteq> ClassModelAssertion \<and> Deterministic (ce_Validation e) \<and>
       Independent (ce_Validation e) \<and> evidenceCorroborates e)"
proof -
  obtain fs es where i: "ci_Evidence input = Some es" and a: "acceptable fs es" and r: "r = routed_sorted fs es"
    using assms(1) by (elim Corroborate_InrE) auto
  let ?es = "sort_slice evidenceLess es"
  obtain f where f: "f \<in> set fs" "d = decide_finding ?es f"
    using assms(2,3) r by (auto simp: routed_def)
  have same: "eb_FindingID (ce_Binding e) = cf_ID f \<longleftrightarrow> sameBinding f (ce_Binding e)" if e: "e \<in> set es" for e
  proof -
    obtain g where "g \<in> set fs" "sameBinding g (ce_Binding e)"
      using a e unfolding acceptable_def bound_to_def by blast
    moreover have "inj_on cf_ID (set fs)" using a by (simp add: acceptable_def distinct_map)
    ultimately show ?thesis
      using f(1) unfolding sameBinding_def by (metis inj_onD)
  qed
  have "fd_Route d = RouteBlocking \<longleftrightarrow> (\<exists>e\<in>set es. eb_FindingID (ce_Binding e) = cf_ID f \<and> blocks e)"
    by (auto simp: f(2) decide_finding_def Let_def list_ex_iff evidence_for_def)
  moreover have "fd_Finding d = f" by (simp add: f(2) decide_finding_def Let_def)
  ultimately show ?thesis
    using same i by (auto simp: blocks_def validated_deterministic_def)
qed

theorem blocking_needs_validated_evidence_witness:
  "fd_Route (decide_finding [sample_evidence] sample_finding) = RouteBlocking \<longleftrightarrow>
    (\<exists>e\<in>set (the (ci_Evidence sample_critique)).
       sameBinding (fd_Finding (decide_finding [sample_evidence] sample_finding)) (ce_Binding e) \<and>
       ce_Class e \<noteq> ClassModelAssertion \<and> Deterministic (ce_Validation e) \<and>
       Independent (ce_Validation e) \<and> evidenceCorroborates e)"
  by (rule blocking_needs_validated_evidence [OF sample_runs, where ds = "[decide_finding [sample_evidence] sample_finding]"])
    (simp_all add: routed_def)

text \<open>
  C19. Routing does not fail on accepted input: when the input passes validation and no two
  evidence digests coincide, the router returns its result, in canonical form already, unless
  that result exceeds the size bound, which is the only error left.
\<close>

theorem corroborate_complete:
  assumes "normalizeInput input = Inr n" and "distinct (map ce_Digest (the (ci_Evidence input)))"
  defines "r \<equiv> routed (the (ci_Findings n)) (the (ci_Evidence n))"
  shows "normalizeResult r = Inr r \<and>
    Corroborate input =
      (if length (marshal_result r) > MaxCorroborationBytes then Inl (InvalidField ''result'') else Inr r)"
proof -
  obtain fs es where i: "ci_Evidence input = Some es" and a: "acceptable fs es" and n: "n = normal_form fs es"
    using assms(1) normalizeInput_Inr by auto
  have r: "r = routed_sorted fs es" by (simp add: r_def n normal_form_def)
  have c: "normalizeResult r = Inr r"
    unfolding r using a assms(2) i by (intro normalizeResult_routed) simp_all
  show ?thesis
    using c Corroborate_normal [of input fs es] assms(1)
    by (simp add: n r [symmetric] CanonicalCorroborationBytes_def)
qed

theorem corroborate_complete_witness:
  "normalizeResult (routed [sample_finding] [sample_evidence]) = Inr (routed [sample_finding] [sample_evidence]) \<and>
   Corroborate sample_critique = Inr (routed [sample_finding] [sample_evidence])"
proof -
  have "normalizeInput sample_critique = Inr (normal_form [sample_finding] [sample_evidence])"
    using sample_runs normalizeInput_Inr [of sample_critique "normal_form [sample_finding] [sample_evidence]"]
    by (elim Corroborate_InrE) (auto simp: sample_critique_def)
  from corroborate_complete [OF this] show ?thesis
    using sample_result_size by (simp add: sample_critique_def normal_form_def)
qed

text \<open>
  C20. The result does not depend on the order of the critic's findings or of the evidence.
\<close>

theorem corroborate_order:
  assumes "Corroborate \<lparr>ci_SchemaVersion = v, ci_Findings = Some fs, ci_Evidence = Some es\<rparr> = Inr r"
    and "mset fs' = mset fs" and "mset es' = mset es"
  shows "Corroborate \<lparr>ci_SchemaVersion = v, ci_Findings = Some fs', ci_Evidence = Some es'\<rparr> = Inr r"
proof -
  obtain b where v: "v = CorroborationSchema" and a: "acceptable fs es"
    and l: "length (marshal_input (normal_form fs es)) \<le> MaxInputBytes"
    and r: "r = routed_sorted fs es" and b: "CanonicalCorroborationBytes r = Inr b"
    using assms(1) by (elim Corroborate_InrE) auto
  have set: "set fs' = set fs" "set es' = set es" "length fs' = length fs" "length es' = length es"
    using assms(2,3) by (metis mset_eq_setD, metis mset_eq_setD, metis size_mset, metis size_mset)
  have "distinct (map g fs') = distinct (map g fs)" "distinct (map h es') = distinct (map h es)"
    for g :: "critic_finding \<Rightarrow> string" and h :: "critic_evidence \<Rightarrow> string"
    using assms(2,3) by (metis mset_map mset_eq_imp_distinct_iff)+
  then have a': "acceptable fs' es'" using a by (simp add: acceptable_def set bound_to_def)
  have "distinct (map evidence_key es')"
    using a' by (auto simp: acceptable_def distinct_map inj_on_def evidence_key_def)
  then have s: "sort_slice findingLess fs' = sort_slice findingLess fs"
    "sort_slice evidenceLess es' = sort_slice evidenceLess es"
    using a' assms(2,3) unfolding findingLess_key evidenceLess_key sort_slice_key
    by (auto intro: sort_key_permutation simp: acceptable_def)
  have "normal_form fs' es' = normal_form fs es" by (simp add: normal_form_def s)
  then have "normalizeInput \<lparr>ci_SchemaVersion = v, ci_Findings = Some fs', ci_Evidence = Some es'\<rparr> = Inr (normal_form fs' es')"
    using a' l v normalizeInput_Inr by auto
  from Corroborate_normal [OF this] show ?thesis using b r s by simp
qed

theorem corroborate_order_witness:
  "Corroborate \<lparr>ci_SchemaVersion = CorroborationSchema, ci_Findings = Some [sample_finding],
     ci_Evidence = Some [sample_evidence]\<rparr> = Inr (routed [sample_finding] [sample_evidence])"
  by (rule corroborate_order [OF sample_runs [unfolded sample_critique_def]]) simp_all

text \<open>
  C21. Sealing and validation agree: evidence sealed by \<^const>\<open>SealEvidence\<close> passes the router's
  validation with its digest required, and \<^const>\<open>EvidenceDigest\<close> recomputes that digest.
\<close>

theorem seal_roundtrip:
  assumes "SealEvidence e = Inr s"
  shows "validateEvidence s True = None \<and> EvidenceDigest s = Inr (ce_Digest s)"
proof -
  let ?e = "e\<lparr>ce_Immutable := True, ce_Digest := []\<rparr>"
  have v: "validateEvidence ?e False = None" and s: "s = ?e\<lparr>ce_Digest := digestEvidence ?e\<rparr>"
    using assms by (auto simp: SealEvidence_def Let_def split: option.splits)
  have "s\<lparr>ce_Digest := []\<rparr> = ?e" by (simp add: s)
  then have "EvidenceDigest s = Inr (digestEvidence ?e)"
    using v by (simp add: EvidenceDigest_def s)
  then show ?thesis using sealed_valid [OF v] s by simp
qed

theorem seal_roundtrip_witness:
  "validateEvidence sample_evidence True = None \<and> EvidenceDigest sample_evidence = Inr (ce_Digest sample_evidence)"
proof (rule seal_roundtrip)
  have "sample_open\<lparr>ce_Immutable := True, ce_Digest := []\<rparr> = sample_open" by (simp add: sample_open_def)
  then show "SealEvidence sample_open = Inr sample_evidence"
    using sample_valid(2) by (simp add: SealEvidence_def sample_evidence_def)
qed

end
