(* ===== verification/Gate_Scores.thy ===== *)
theory Gate_Scores
  imports Gate_Scoring Finding_Routing
begin

text \<open>
  What scoring guarantees: reasons are the sorted set of the valid ones, a verdict is the absence
  of reasons, the weighted score lies between the two signals, and scoring is total on what
  its validators accept, except for routed findings without evidence.
\<close>

section \<open>Reasons\<close>

lemma unique_loop_spec:
  assumes "sorted xs" and "\<forall>x\<in>set xs. \<forall>p. last_kept = Some p \<longrightarrow> p \<le> x"
  shows "sorted (unique_loop last_kept xs) \<and> distinct (unique_loop last_kept xs) \<and>
    set (unique_loop last_kept xs) = {x \<in> set xs. reason_ok x \<and> last_kept \<noteq> Some x}"
  using assms
proof (induction xs arbitrary: last_kept)
  case Nil
  then show ?case by simp
next
  case (Cons x xs)
  show ?case
  proof (cases "reason_ok x \<and> last_kept \<noteq> Some x")
    case True
    have "sorted (unique_loop (Some x) xs) \<and> distinct (unique_loop (Some x) xs) \<and>
        set (unique_loop (Some x) xs) = {y \<in> set xs. reason_ok y \<and> Some x \<noteq> Some y}"
      using Cons.prems by (intro Cons.IH) auto
    moreover have "\<forall>y\<in>set xs. last_kept = Some y \<longrightarrow> y = x"
      using Cons.prems by (auto intro: antisym)
    ultimately show ?thesis using True Cons.prems by auto
  next
    case False
    then have "unique_loop last_kept (x # xs) = unique_loop last_kept xs" by auto
    moreover have "{y \<in> set (x # xs). reason_ok y \<and> last_kept \<noteq> Some y} = {y \<in> set xs. reason_ok y \<and> last_kept \<noteq> Some y}"
      using False by auto
    ultimately show ?thesis using Cons by simp
  qed
qed

lemma normalizeReasons_eq:
  "normalizeReasons xs = take MaxBlockingReasons (sorted_list_of_set {x \<in> set xs. reason_ok x})"
proof -
  have u: "sorted (unique_loop None (sort xs)) \<and> distinct (unique_loop None (sort xs)) \<and>
      set (unique_loop None (sort xs)) = {x \<in> set (sort xs). reason_ok x \<and> None \<noteq> Some x}"
    by (rule unique_loop_spec) auto
  then have "unique_loop None (sort xs) = sorted_list_of_set {x \<in> set xs. reason_ok x}"
    by (intro sorted_distinct_set_unique) simp_all
  then show ?thesis by (simp add: normalizeReasons_def)
qed

lemma normalizeReasons_empty: "normalizeReasons xs = [] \<longleftrightarrow> (\<forall>x\<in>set xs. \<not> reason_ok x)"
proof -
  have "finite {x \<in> set xs. reason_ok x}" by simp
  then show ?thesis by (auto simp: normalizeReasons_eq)
qed

lemma normalizeReasons_short:
  assumes "length xs \<le> MaxBlockingReasons"
  shows "normalizeReasons (normalizeReasons xs @ ys) = normalizeReasons (xs @ ys)"
proof -
  let ?S = "{x \<in> set xs. reason_ok x}"
  have "card ?S \<le> length xs" by (rule order_trans [OF card_mono card_length]) auto
  then have "normalizeReasons xs = sorted_list_of_set ?S"
    using assms by (simp add: normalizeReasons_eq)
  then have "{x \<in> set (normalizeReasons xs @ ys). reason_ok x} = {x \<in> set (xs @ ys). reason_ok x}"
    by auto
  then show ?thesis by (simp only: normalizeReasons_eq)
qed

section \<open>The execution signal\<close>

definition failing :: "execution_check list \<Rightarrow> string list" where
  "failing cs = map (\<lambda>c. ''execution.'' @ xc_Name c) (filter (\<lambda>c. xc_Blocking c \<and> \<not> xc_Passed c) cs)"

lemma execution_loop_Inr:
  "execution_loop i previous cs = Inr reasons \<Longrightarrow>
     (\<forall>c\<in>set cs. validCheckName (xc_Name c)) \<and> reasons = failing cs"
  by (induction cs arbitrary: i previous reasons) (auto simp: failing_def split: if_splits sum.splits)

interpretation check_order: slice_order checkLess
  by unfold_locales (auto simp: checkLess_def)

lemma sort_slice_empty [simp]: "sort_slice lt xs = [] \<longleftrightarrow> xs = []"
  by (metis length_0_conv length_sort_slice)

lemma normalizeExecution_Inr:
  assumes "normalizeExecution x = Inr (x', reasons)"
  shows "xs_Score x' = xs_Score x" "0 \<le> xs_Score x \<and> xs_Score x \<le> GateScoreScale"
    "set (xs_Checks x') = set (xs_Checks x)" "length (xs_Checks x') \<le> MaxExecutionChecks"
    "\<forall>c\<in>set (xs_Checks x). validCheckName (xc_Name c)" "reasons = failing (xs_Checks x')"
    "normalizeExecution x' = Inr (x', reasons)"
proof -
  have ok: "\<not> outside 0 GateScoreScale (xs_Score x)" "xs_Checks x \<noteq> []" "length (xs_Checks x) \<le> MaxExecutionChecks"
    and loop: "execution_loop 0 None (sort_slice checkLess (xs_Checks x)) = Inr reasons"
    and x': "x' = \<lparr>xs_Score = xs_Score x, xs_Checks = sort_slice checkLess (xs_Checks x)\<rparr>"
    using assms by (auto simp: normalizeExecution_def Let_def split: if_splits sum.splits)
  show "xs_Score x' = xs_Score x" "0 \<le> xs_Score x \<and> xs_Score x \<le> GateScoreScale"
    "set (xs_Checks x') = set (xs_Checks x)" "length (xs_Checks x') \<le> MaxExecutionChecks"
    using ok by (simp_all add: x' outside_def)
  show "\<forall>c\<in>set (xs_Checks x). validCheckName (xc_Name c)" "reasons = failing (xs_Checks x')"
    using execution_loop_Inr [OF loop] by (simp_all add: x')
  show "normalizeExecution x' = Inr (x', reasons)"
    using ok loop by (simp add: normalizeExecution_def x' check_order.sort_sort)
qed

lemma digit7_byte: "digit7 c \<Longrightarrow> 128 \<le> (byte_of c :: nat)"
  by (cases c) (simp add: of_char_def)

lemma reason_ok_token:
  assumes "validCheckName s" and "length p \<le> 100" and "list_all (\<lambda>c. \<not> digit7 c \<and> 32 < byte_of c) (p :: string)"
  shows "reason_ok (p @ s)"
proof -
  have t: "\<not> digit7 c \<and> 32 < (byte_of c :: nat)" if "token_rest c" for c
    using that digit7_byte [of c] unfolding token_rest_def token_start_def Let_def by auto
  have "list_all (\<lambda>c. \<not> digit7 c \<and> 32 < (byte_of c :: nat)) s"
    using assms(1) t unfolding validCheckName_def token_shape_def
    by (auto simp: list_all_iff token_rest_def split: list.splits)
  then have a: "\<forall>c\<in>set (p @ s). \<not> digit7 c \<and> 32 < (byte_of c :: nat)"
    using assms(3) by (auto simp: list_all_iff)
  then have "utf8_valid (p @ s)" by (intro utf8_valid_ascii) (auto simp: list_all_iff)
  moreover have "set (p @ s) \<inter> set [CHR 0x00, CHR 0x0D, CHR 0x0A, CHR 0x09, CHR '' ''] = {}"
    using a by fastforce
  ultimately show ?thesis
    using assms(1,2) by (auto simp: reason_ok_def contains_any_iff validCheckName_def)
qed

section \<open>The weighted score\<close>

lemma to_int32_small: "0 \<le> v \<Longrightarrow> v \<le> GateScoreScale \<Longrightarrow> to_int32 v = v"
  by (simp add: to_int32_def)

lemma weighted_mean:
  fixes e c W V :: int
  assumes "0 \<le> W" and "0 \<le> V" and "W + V = GateScoreScale"
  shows "min e c \<le> (e * W + c * V) div GateScoreScale" and "(e * W + c * V) div GateScoreScale \<le> max e c"
proof -
  have V: "V = GateScoreScale - W" using assms(3) by simp
  have "min e c * W \<le> e * W" "min e c * V \<le> c * V" "e * W \<le> max e c * W" "c * V \<le> max e c * V"
    using assms(1,2) by (auto intro: mult_right_mono)
  then have "min e c * GateScoreScale \<le> e * W + c * V" "e * W + c * V \<le> max e c * GateScoreScale"
    unfolding V by (simp_all add: algebra_simps)
  then show "min e c \<le> (e * W + c * V) div GateScoreScale" "(e * W + c * V) div GateScoreScale \<le> max e c"
    by linarith+
qed

definition critic_weight :: "signals_spec \<Rightarrow> int" where
  "critic_weight s = (case Critic s of None \<Rightarrow> 0 | Some c \<Rightarrow> WeightBasisPoints c)"

lemma normalizeSignals_Inr:
  assumes "normalizeSignals spec = Inr s"
  shows "0 \<le> ExecutionWeight s" "0 \<le> critic_weight s" "ExecutionWeight s + critic_weight s = GateScoreScale"
    "normalizeSignals (Some s) = Inr s" "Critic s = Some c \<Longrightarrow> 1 \<le> MaxFindingsSpec c \<and> MaxFindingsSpec c \<le> MaxCriticFindings"
proof -
  show id: "normalizeSignals (Some s) = Inr s"
  proof (cases spec)
    case None
    with assms show ?thesis by (auto simp: normalizeSignals_def outside_def)
  next
    case (Some t)
    then have "t = s" using assms by (auto simp: normalizeSignals_def split: option.splits if_split_asm)
    with Some assms show ?thesis by simp
  qed
  have "\<not> outside 0 GateScoreScale (ExecutionWeight s) \<and> (case Critic s of None \<Rightarrow> ExecutionWeight s = GateScoreScale
      | Some c \<Rightarrow> \<not> outside 1 GateScoreScale (WeightBasisPoints c) \<and>
          ExecutionWeight s + WeightBasisPoints c = GateScoreScale \<and> \<not> outside 1 MaxCriticFindings (MaxFindingsSpec c))"
    using id by (simp add: normalizeSignals_def split: option.splits if_split_asm)
  then show "0 \<le> ExecutionWeight s" "0 \<le> critic_weight s" "ExecutionWeight s + critic_weight s = GateScoreScale"
    "Critic s = Some c \<Longrightarrow> 1 \<le> MaxFindingsSpec c \<and> MaxFindingsSpec c \<le> MaxCriticFindings"
    by (auto simp: critic_weight_def outside_def split: option.splits)
qed

lemma weightedScore_Inr:
  assumes "normalizeSignals spec = Inr s" and "weightedScore e s c = Inr w"
  shows "w = (e * ExecutionWeight s + c * critic_weight s) div GateScoreScale"
    and "min e c \<le> w \<and> w \<le> max e c" and "0 \<le> w \<and> w \<le> GateScoreScale"
proof -
  note sig = normalizeSignals_Inr [OF assms(1)]
  let ?n = "e * ExecutionWeight s + c * critic_weight s"
  have r: "0 \<le> e" "e \<le> GateScoreScale" "0 \<le> c" "c \<le> GateScoreScale"
    and w: "w = to_int32 (go_div ?n GateScoreScale)"
    using assms(2) by (auto simp: weightedScore_def critic_weight_def Let_def split: if_splits)
  have "0 \<le> ?n" using r sig(1,2) by simp
  then have g: "go_div ?n GateScoreScale = ?n div GateScoreScale"
    by (simp add: go_div_def sgn_if)
  note m = weighted_mean [OF sig(1,2,3), of e c]
  have b: "0 \<le> ?n div GateScoreScale" "?n div GateScoreScale \<le> GateScoreScale"
    using m r by linarith+
  show "w = ?n div GateScoreScale" using w g to_int32_small [OF b] by simp
  then show "min e c \<le> w \<and> w \<le> max e c" "0 \<le> w \<and> w \<le> GateScoreScale" using m b by simp_all
qed

section \<open>The critic signal\<close>

lemma result_items_blocking:
  "result_items prefix j b st ds = Inr (b', st') \<Longrightarrow> BlockingFindings (derived st') = BlockingFindings (derived st)"
proof (induction ds arbitrary: j b st)
  case Nil
  then show ?case by simp
next
  case (Cons d ds)
  have "BlockingFindings (derive_item d c) = BlockingFindings c" for c by (simp add: derive_item_def Let_def)
  with Cons show ?case by (auto simp: Let_def split: option.splits)
qed

lemma result_finding_Inr:
  assumes "result_finding i d st = Inr st'"
  shows "validateFinding (fd_Finding d) = None" and "fd_Evidence d \<noteq> None"
    and "BlockingFindings (derived st') = BlockingFindings (derived st) + (if fd_Route d = RouteBlocking then 1 else 0)"
proof -
  let ?st0 = "st\<lparr>seenFindings := cf_ID (fd_Finding d) # seenFindings st,
    totalEvidence := totalEvidence st + length (the (fd_Evidence d))\<rparr>"
  let ?p = "indexed_field ''result.findings'' i []"
  note run = assms [unfolded result_finding_def Let_def guard_Inr]
  from conjunct1 [OF run] show "validateFinding (fd_Finding d) = None"
    by (simp only: first_error_Cons reject_None not_not)
  from conjunct1 [OF run] show "fd_Evidence d \<noteq> None"
    by (cases "fd_Evidence d")
      (simp_all only: first_error_Cons reject_None option.case not_True_eq_False simp_thms option.distinct not_False_eq_True)
  obtain fb st1 where items: "result_items ?p 0 False ?st0 (the (fd_Evidence d)) = Inr (fb, st1)"
    using conjunct2 [OF run] unfolding bind_Inr by (metis surj_pair)
  from conjunct2 [OF run, unfolded items sum.case prod.case]
  have "fd_Route d = (if fb then RouteBlocking else RouteAdvisory)"
    and "BlockingFindings (derived st') = BlockingFindings (derived st1) + (if fb then 1 else 0)"
    by (auto split: if_split_asm)
  with result_items_blocking [OF items]
  show "BlockingFindings (derived st') = BlockingFindings (derived st) + (if fd_Route d = RouteBlocking then 1 else 0)"
    by simp
qed

lemma result_loop_Inr:
  "result_loop i st ds = Inr st' \<Longrightarrow>
     (\<forall>d\<in>set ds. validateFinding (fd_Finding d) = None \<and> fd_Evidence d \<noteq> None) \<and>
     BlockingFindings (derived st') =
       BlockingFindings (derived st) + length (filter (\<lambda>d. fd_Route d = RouteBlocking) ds)"
proof (induction ds arbitrary: i st)
  case Nil
  then show ?case by simp
next
  case (Cons d ds)
  obtain st1 where "result_finding i d st = Inr st1" "result_loop (Suc i) st1 ds = Inr st'"
    using Cons.prems by (auto split: sum.splits)
  with Cons.IH [of "Suc i" st1] result_finding_Inr [of i d st st1] show ?case by auto
qed

lemma canonical_critic:
  assumes "CanonicalCorroborationBytes cr = Inr b"
  obtains ds where "cr_Findings cr = Some ds" "\<forall>d\<in>set ds. validateFinding (fd_Finding d) = None \<and> fd_Evidence d \<noteq> None"
    "0 < BlockingFindings (cr_Counts cr) \<longleftrightarrow> (\<exists>d\<in>set ds. fd_Route d = RouteBlocking)"
proof -
  obtain ds st' where ds: "cr_Findings cr = Some ds" and loop: "result_loop 0 \<lparr>seenFindings = [], seenEvidenceIDs = [],
      seenEvidenceDigests = [], totalEvidence = 0, derived = zero_counts\<lparr>TotalFindings := length ds\<rparr>\<rparr> ds = Inr st'"
    and counts: "cr_Counts cr = derived st'"
    using assms unfolding CanonicalCorroborationBytes_def normalizeResult_def
    by (auto split: sum.splits option.splits if_splits)
  note r = result_loop_Inr [OF loop]
  have "BlockingFindings (cr_Counts cr) = length (filter (\<lambda>d. fd_Route d = RouteBlocking) ds)"
    using r by (simp add: counts zero_counts_def)
  then have "0 < BlockingFindings (cr_Counts cr) \<longleftrightarrow> (\<exists>d\<in>set ds. fd_Route d = RouteBlocking)"
    by (auto simp: filter_empty_conv)
  from that [OF ds conjunct1 [OF r] this] show ?thesis .
qed

lemma normalizeCriticResult_Inr:
  assumes "normalizeCriticResult cr n = Inr cr'"
  shows "0 < BlockingFindings (cr_Counts cr') \<longleftrightarrow> (\<exists>d\<in>set (the (cr_Findings cr)). fd_Route d = RouteBlocking)"
    and "(\<exists>r\<in>set (criticBlockingReasons cr'). reason_ok r) \<longleftrightarrow>
      (\<exists>d\<in>set (the (cr_Findings cr)). fd_Route d = RouteBlocking)"
proof -
  let ?c = "\<lambda>d. d\<lparr>fd_Evidence := clone_slice (fd_Evidence d)\<rparr>"
  let ?s = "\<lambda>d. d\<lparr>fd_Evidence := map_option (sort_slice itemLess) (fd_Evidence d)\<rparr>"
  obtain b where "CanonicalCorroborationBytes cr = Inr b"
    using assms by (auto simp: normalizeCriticResult_def Let_def split: if_splits sum.splits)
  then obtain ds where ds: "cr_Findings cr = Some ds"
    and v: "\<forall>d\<in>set ds. validateFinding (fd_Finding d) = None \<and> fd_Evidence d \<noteq> None"
    and pos: "0 < BlockingFindings (cr_Counts cr) \<longleftrightarrow> (\<exists>d\<in>set ds. fd_Route d = RouteBlocking)"
    by (rule canonical_critic)
  have cr': "cr' = cr\<lparr>cr_Findings := Some (map ?s (sort_slice decisionLess (map ?c ds)))\<rparr>"
    using assms by (auto simp: normalizeCriticResult_def Let_def ds split: if_splits sum.splits)
  show "0 < BlockingFindings (cr_Counts cr') \<longleftrightarrow> (\<exists>d\<in>set (the (cr_Findings cr)). fd_Route d = RouteBlocking)"
    using pos by (simp add: cr' ds)
  have "reason_ok (''critic.'' @ cf_ID (fd_Finding d))" if "d \<in> set ds" for d
    using v that
    by (intro reason_ok_token) (auto simp: validateFinding_def validateToken_def validCheckName_def of_char_def)
  then show "(\<exists>r\<in>set (criticBlockingReasons cr'). reason_ok r) \<longleftrightarrow>
      (\<exists>d\<in>set (the (cr_Findings cr)). fd_Route d = RouteBlocking)"
    by (force simp: criticBlockingReasons_def cr' ds)
qed

lemma critic_part_Inr:
  assumes "critic_part e1 e2 s cr = Inr (cr', score, reasons)"
  shows "score = 0 \<or> score = GateScoreScale"
    and "score = 0 \<longleftrightarrow> (\<exists>c ds d. cr = Some c \<and> cr_Findings c = Some ds \<and> d \<in> set ds \<and> fd_Route d = RouteBlocking)"
    and "(\<exists>r\<in>set reasons. reason_ok r) \<longleftrightarrow> score = 0"
proof -
  have "(score = 0 \<or> score = GateScoreScale) \<and>
    (score = 0 \<longleftrightarrow> (\<exists>c ds d. cr = Some c \<and> cr_Findings c = Some ds \<and> d \<in> set ds \<and> fd_Route d = RouteBlocking)) \<and>
    ((\<exists>r\<in>set reasons. reason_ok r) \<longleftrightarrow> score = 0)"
  proof (cases "Critic s")
    case None
    with assms show ?thesis by (simp add: critic_part_def split: if_splits)
  next
    case (Some spec)
    then obtain c n where c: "cr = Some c" and n: "normalizeCriticResult c (MaxFindingsSpec spec) = Inr n"
      and r: "score = criticScoreFor n" "reasons = criticBlockingReasons n"
      using assms by (auto simp: critic_part_def split: option.splits sum.splits)
    obtain ds where "cr_Findings c = Some ds"
      using n by (auto simp: normalizeCriticResult_def Let_def elim!: canonical_critic split: if_splits sum.splits)
    with normalizeCriticResult_Inr [OF n] show ?thesis
      by (auto simp: r c criticScoreFor_def)
  qed
  then show "score = 0 \<or> score = GateScoreScale"
    and "score = 0 \<longleftrightarrow> (\<exists>c ds d. cr = Some c \<and> cr_Findings c = Some ds \<and> d \<in> set ds \<and> fd_Route d = RouteBlocking)"
    and "(\<exists>r\<in>set reasons. reason_ok r) \<longleftrightarrow> score = 0" by blast+
qed

section \<open>The verdict\<close>

lemma canonicalizeResult_Inr:
  assumes "canonicalizeResult r = Inr r'"
  shows "sr_Signals r' = sr_Signals r" "sr_Verdict r' = sr_Verdict r" "sr_WeightedScore r' = sr_WeightedScore r"
    "sr_ExecutionScore r' = sr_ExecutionScore r" "sr_CriticScore r' = sr_CriticScore r"
    "sr_BlockingReasons r' = sr_BlockingReasons r"
proof -
  obtain s where s: "normalizeSignals (Some (sr_Signals r)) = Inr s"
    using assms unfolding canonicalizeResult_def by (auto simp: bind_Inr split: if_split_asm)
  have "s = sr_Signals r" using s by (auto simp: normalizeSignals_def split: option.splits if_split_asm)
  with assms s show "sr_Signals r' = sr_Signals r" "sr_Verdict r' = sr_Verdict r" "sr_WeightedScore r' = sr_WeightedScore r"
    "sr_ExecutionScore r' = sr_ExecutionScore r" "sr_CriticScore r' = sr_CriticScore r"
    "sr_BlockingReasons r' = sr_BlockingReasons r"
    unfolding canonicalizeResult_def
    by (auto simp: bind_Inr Let_def case_prod_unfold dest: normalizeExecution_Inr(1) split: if_split_asm)
qed

lemma Score_Evaluate_InrE:
  assumes "Score_Evaluate input = Inr r"
  obtains s x rs cr score crs w where "normalizeSignals (si_Signals input) = Inr s"
    "normalizeExecution (si_Execution input) = Inr (x, rs)"
    "critic_part (ScoringField ''critic'') (ScoringField ''critic'') s (si_Critic input) = Inr (cr, score, crs)"
    "weightedScore (xs_Score x) s score = Inr w"
    "sr_Signals r = s" "sr_ExecutionScore r = xs_Score x" "sr_CriticScore r = score" "sr_WeightedScore r = w"
    "sr_Verdict r = (if normalizeReasons (rs @ crs @ (if w < MinScore s then [''score.minimum''] else [])) \<noteq> []
       then ScoreRejected else ScoreAccepted)"
proof -
  obtain s x rs cr score crs w where parts: "normalizeSignals (si_Signals input) = Inr s"
    "normalizeExecution (si_Execution input) = Inr (x, rs)"
    "critic_part (ScoringField ''critic'') (ScoringField ''critic'') s (si_Critic input) = Inr (cr, score, crs)"
    "weightedScore (xs_Score x) s score = Inr w"
    using assms unfolding Score_Evaluate_def by (auto simp: bind_Inr)
  note c = canonicalizeResult_Inr [OF assms [unfolded Score_Evaluate_def Let_def, unfolded parts sum.case prod.case, unfolded parts sum.case prod.case]]
  show thesis
    by (rule that [OF parts]) (use c in \<open>simp_all split: if_splits\<close>)
qed

lemma reason_ok_fixed: "reason_ok ''score.minimum''"
  using reason_ok_token [of "''score.minimum''" "[]"]
  by (simp add: validCheckName_def token_shape_def token_start_def token_rest_def Let_def of_char_def utf8_valid_ascii)

section \<open>Scoring a routed critique\<close>

lemma clone_some: "clone_slice v = v" if "v \<noteq> Some []"
  using that by (auto simp: clone_slice_def split: option.splits)

lemma normalizeCriticResult_routed:
  assumes "Corroborate ci = Inr cr" and "cr_Findings cr = Some ds" and "int (length ds) \<le> n"
    and "\<forall>d\<in>set ds. fd_Evidence d \<noteq> Some []"
  shows "normalizeCriticResult cr n = Inr cr"
proof -
  from assms(1) obtain fs es b where a: "acceptable fs es" and cr: "cr = routed_sorted fs es"
    and b: "CanonicalCorroborationBytes cr = Inr b"
    by (rule Corroborate_InrE) blast
  have ds: "ds = map (decide_finding (sort_slice evidenceLess es)) (sort_slice findingLess fs)"
    using assms(2) by (simp add: cr routed_def)
  have "map (\<lambda>d. d\<lparr>fd_Evidence := clone_slice (fd_Evidence d)\<rparr>) ds = ds"
    using assms(4) by (intro map_idI) (simp add: clone_some)
  moreover have "sort_decisions ds = ds"
    unfolding ds using a by (intro sort_decisions_routed) (simp add: acceptable_def)
  ultimately have "cr\<lparr>cr_Findings := Some (map (\<lambda>d. d\<lparr>fd_Evidence := map_option (sort_slice itemLess) (fd_Evidence d)\<rparr>)
      (sort_slice decisionLess (map (\<lambda>d. d\<lparr>fd_Evidence := clone_slice (fd_Evidence d)\<rparr>) ds)))\<rparr> = cr"
    using assms(2) by (simp add: sort_decisions_def)
  then show ?thesis using assms(2,3) b by (simp add: normalizeCriticResult_def Let_def)
qed

lemma Score_Evaluate_stable:
  assumes s: "normalizeSignals sig = Inr s" and x: "normalizeExecution x = Inr (x', rs)"
    and c: "\<And>e1 e2. critic_part e1 e2 s cr = Inr (cr, score, crs)" and w: "weightedScore (xs_Score x') s score = Inr w"
    and n: "length rs + length crs \<le> MaxBlockingReasons"
  shows "\<exists>r. Score_Evaluate \<lparr>si_Signals = sig, si_Execution = x, si_Critic = cr\<rparr> = Inr r \<and> canonicalizeResult r = Inr r"
proof -
  note s' = normalizeSignals_Inr(4) [OF s] and x' = normalizeExecution_Inr(7) [OF x]
  have e: "\<lparr>xs_Score = xs_Score x', xs_Checks = xs_Checks x'\<rparr> = x'" by simp
  have m: "normalizeReasons (normalizeReasons (rs @ crs) @ [''score.minimum'']) = normalizeReasons (rs @ crs @ [''score.minimum''])"
    using normalizeReasons_short [of "rs @ crs"] n by simp
  show ?thesis
    by (auto simp: Score_Evaluate_def canonicalizeResult_def Let_def s x c w s' x' e m)
qed

lemma length_criticBlockingReasons: "cr_Findings cr = Some ds \<Longrightarrow> length (criticBlockingReasons cr) \<le> length ds"
  by (simp add: criticBlockingReasons_def)

lemma routed_critique_scored:
  assumes "Corroborate ci = Inr cr" and "cr_Findings cr = Some ds"
    and "normalizeSignals sig = Inr s" and "Critic s = Some spec" and "int (length ds) \<le> MaxFindingsSpec spec"
    and "normalizeExecution x = Inr (x', rs)" and all: "\<forall>d\<in>set ds. fd_Evidence d \<noteq> Some []"
  shows "\<exists>r. Score_Evaluate \<lparr>si_Signals = sig, si_Execution = x, si_Critic = Some cr\<rparr> = Inr r \<and> canonicalizeResult r = Inr r"
proof -
  have c: "critic_part e1 e2 s (Some cr) = Inr (Some cr, criticScoreFor cr, criticBlockingReasons cr)" for e1 e2
    using normalizeCriticResult_routed [OF assms(1,2,5) all] by (simp add: critic_part_def assms(4))
  note xs = normalizeExecution_Inr [OF assms(6)] and sg = normalizeSignals_Inr [OF assms(3)]
  have score: "0 \<le> criticScoreFor cr" "criticScoreFor cr \<le> GateScoreScale" by (simp_all add: criticScoreFor_def)
  obtain w where w: "weightedScore (xs_Score x') s (criticScoreFor cr) = Inr w"
    using xs(1,2) sg(3) score by (auto simp: weightedScore_def critic_weight_def Let_def assms(4))
  have "length rs \<le> MaxExecutionChecks" using xs(4) by (simp add: xs(6) failing_def le_trans [OF length_filter_le])
  moreover have "length (criticBlockingReasons cr) \<le> 256"
    using length_criticBlockingReasons [OF assms(2)] assms(5) sg(5) [OF assms(4)] by simp
  ultimately show ?thesis
    using Score_Evaluate_stable [OF assms(3,6) c w] by auto
qed


section \<open>A scored change\<close>

definition sample_signals :: signals_spec where
  "sample_signals = \<lparr>ExecutionWeight = 6000,
     Critic = Some \<lparr>WeightBasisPoints = 4000, ModelRouteRef = ''critic'', MaxFindingsSpec = 8\<rparr>, MinScore = 5000\<rparr>"

definition sample_execution :: execution_signal where
  "sample_execution = \<lparr>xs_Score = 9000, xs_Checks = [\<lparr>xc_Name = ''unit'', xc_Passed = True, xc_Blocking = True\<rparr>]\<rparr>"

definition sample_scoring :: scoring_input where
  "sample_scoring = \<lparr>si_Signals = Some sample_signals, si_Execution = sample_execution,
     si_Critic = Some (routed [sample_finding] [sample_evidence])\<rparr>"

lemma sample_normal:
  "normalizeSignals (Some sample_signals) = Inr sample_signals"
  "normalizeExecution sample_execution = Inr (sample_execution, [])"
proof -
  have "trim_space ''critic'' = ''critic''" by (intro trim_space_graphic) (simp add: of_char_def)
  then have "validRouteRef ''critic''"
    by (simp add: validRouteRef_def label_ok_def lower_alnum_def of_char_def contains_any_def upt_rec Let_def)
  then show "normalizeSignals (Some sample_signals) = Inr sample_signals"
    by (simp add: normalizeSignals_def sample_signals_def outside_def)
  have "validCheckName ''unit''"
    by (simp add: validCheckName_def token_shape_def token_start_def token_rest_def of_char_def utf8_valid_ascii)
  then show "normalizeExecution sample_execution = Inr (sample_execution, [])"
    by (simp add: normalizeExecution_def sample_execution_def outside_def)
qed

lemma sample_scored: "\<exists>r. Score_Evaluate sample_scoring = Inr r \<and> canonicalizeResult r = Inr r"
  unfolding sample_scoring_def
  by (rule routed_critique_scored [OF sample_runs _ sample_normal(1) _ _ sample_normal(2),
      where ds = "[decide_finding [sample_evidence] sample_finding]"
        and spec = "the (Critic sample_signals)"])
    (simp_all add: routed_def sample_signals_def decide_finding_def sample_routing Let_def)

section \<open>Properties\<close>

text \<open>
  C22. A scored change is accepted exactly when no blocking execution check failed, no finding
  of the critic was routed as blocking, and the weighted score reaches the configured minimum.
\<close>
theorem score_accepts_iff:
  assumes "Score_Evaluate input = Inr r"
  shows "sr_Verdict r = ScoreAccepted \<longleftrightarrow>
    (\<forall>c\<in>set (xs_Checks (si_Execution input)). xc_Blocking c \<longrightarrow> xc_Passed c) \<and>
    (\<forall>cr ds. si_Critic input = Some cr \<longrightarrow> cr_Findings cr = Some ds \<longrightarrow> (\<forall>d\<in>set ds. fd_Route d \<noteq> RouteBlocking)) \<and>
    MinScore (sr_Signals r) \<le> sr_WeightedScore r"
proof -
  obtain s x rs cr score crs w where x: "normalizeExecution (si_Execution input) = Inr (x, rs)"
    and crit: "critic_part (ScoringField ''critic'') (ScoringField ''critic'') s (si_Critic input) = Inr (cr, score, crs)"
    and r: "sr_Signals r = s" "sr_WeightedScore r = w"
      "sr_Verdict r = (if normalizeReasons (rs @ crs @ (if w < MinScore s then [''score.minimum''] else [])) \<noteq> []
       then ScoreRejected else ScoreAccepted)"
    using assms by (rule Score_Evaluate_InrE) blast
  note x = normalizeExecution_Inr [OF x]
  have "reason_ok (''execution.'' @ xc_Name c)" if "c \<in> set (xs_Checks x)" for c
    using x(3,5) that by (intro reason_ok_token) (auto simp: of_char_def)
  then have "(\<forall>q\<in>set rs. \<not> reason_ok q) \<longleftrightarrow>
      (\<forall>c\<in>set (xs_Checks (si_Execution input)). xc_Blocking c \<longrightarrow> xc_Passed c)"
    unfolding x(6) failing_def by (auto simp: x(3))
  moreover have "(\<forall>q\<in>set crs. \<not> reason_ok q) \<longleftrightarrow>
      (\<forall>cr ds. si_Critic input = Some cr \<longrightarrow> cr_Findings cr = Some ds \<longrightarrow> (\<forall>d\<in>set ds. fd_Route d \<noteq> RouteBlocking))"
    using critic_part_Inr(2,3) [OF crit] by blast
  moreover have "(\<forall>q\<in>set (if w < MinScore s then [''score.minimum''] else []). \<not> reason_ok q) \<longleftrightarrow> MinScore s \<le> w"
    using reason_ok_fixed by auto
  moreover have "sr_Verdict r = ScoreAccepted \<longleftrightarrow>
      (\<forall>q\<in>set (rs @ crs @ (if w < MinScore s then [''score.minimum''] else [])). \<not> reason_ok q)"
    unfolding r(3) normalizeReasons_empty [symmetric] by simp
  ultimately show ?thesis by (simp only: r(1,2) set_append ball_Un)
qed


theorem score_accepts_iff_witness:
  "\<exists>r. Score_Evaluate sample_scoring = Inr r \<and> sr_Verdict r \<noteq> ScoreAccepted"
proof -
  obtain r where r: "Score_Evaluate sample_scoring = Inr r" using sample_scored by blast
  have "sr_Verdict r \<noteq> ScoreAccepted"
    using score_accepts_iff [OF r]
    by (simp add: sample_scoring_def routed_def decide_finding_def sample_routing Let_def)
  with r show ?thesis by blast
qed

text \<open>
  C23. The weighted score lies between the execution score and the critic score, so the fixed
  point arithmetic neither wraps nor leaves the scale, and the critic signal is all or nothing.
\<close>
theorem weighted_between:
  assumes "Score_Evaluate input = Inr r"
  shows "min (sr_ExecutionScore r) (sr_CriticScore r) \<le> sr_WeightedScore r \<and>
    sr_WeightedScore r \<le> max (sr_ExecutionScore r) (sr_CriticScore r) \<and>
    0 \<le> sr_WeightedScore r \<and> sr_WeightedScore r \<le> GateScoreScale \<and>
    sr_CriticScore r \<in> {0, GateScoreScale} \<and>
    sr_WeightedScore r = (sr_ExecutionScore r * ExecutionWeight (sr_Signals r) +
      sr_CriticScore r * critic_weight (sr_Signals r)) div GateScoreScale"
proof -
  obtain s x rs cr score crs w where s: "normalizeSignals (si_Signals input) = Inr s"
    and x: "normalizeExecution (si_Execution input) = Inr (x, rs)"
    and crit: "critic_part (ScoringField ''critic'') (ScoringField ''critic'') s (si_Critic input) = Inr (cr, score, crs)"
    and w: "weightedScore (xs_Score x) s score = Inr w"
    and r: "sr_Signals r = s" "sr_ExecutionScore r = xs_Score x" "sr_CriticScore r = score" "sr_WeightedScore r = w"
    using assms by (rule Score_Evaluate_InrE) (rule that; assumption)
  note sc = weightedScore_Inr [OF s w] and cs = critic_part_Inr(1) [OF crit]
  show ?thesis using sc cs by (simp add: r)
qed

theorem weighted_between_witness:
  "\<exists>r. Score_Evaluate sample_scoring = Inr r \<and> min (sr_ExecutionScore r) (sr_CriticScore r) \<le> sr_WeightedScore r \<and>
    sr_WeightedScore r \<le> max (sr_ExecutionScore r) (sr_CriticScore r) \<and> sr_CriticScore r \<in> {0, GateScoreScale}"
  using sample_scored weighted_between by blast

text \<open>
  C24. A critique that the router produced is scored exactly when each of its findings carries
  evidence: the scorer copies an empty list of evidence into a nil one, which the validation of
  its own result then refuses, so one advisory finding without evidence stops the whole scoring.
\<close>
theorem routed_critique_scored_iff:
  assumes "Corroborate ci = Inr cr" and "cr_Findings cr = Some ds"
    and "normalizeSignals sig = Inr s" and "Critic s = Some spec" and "int (length ds) \<le> MaxFindingsSpec spec"
    and "normalizeExecution x = Inr (x', rs)"
  shows "(\<exists>r. Score_Evaluate \<lparr>si_Signals = sig, si_Execution = x, si_Critic = Some cr\<rparr> = Inr r) \<longleftrightarrow>
    (\<forall>d\<in>set ds. fd_Evidence d \<noteq> Some [])"
proof
  assume "\<forall>d\<in>set ds. fd_Evidence d \<noteq> Some []"
  from routed_critique_scored [OF assms this]
  show "\<exists>r. Score_Evaluate \<lparr>si_Signals = sig, si_Execution = x, si_Critic = Some cr\<rparr> = Inr r" by blast
next
  let ?cr = "\<lambda>ds. map (\<lambda>d. d\<lparr>fd_Evidence := map_option (sort_slice itemLess) (fd_Evidence d)\<rparr>)
      (sort_slice decisionLess (map (\<lambda>d. d\<lparr>fd_Evidence := clone_slice (fd_Evidence d)\<rparr>) ds))"
  assume "\<exists>r. Score_Evaluate \<lparr>si_Signals = sig, si_Execution = x, si_Critic = Some cr\<rparr> = Inr r"
  then obtain cr' n cr'' where n1: "normalizeCriticResult cr (MaxFindingsSpec spec) = Inr cr'"
    and n2: "normalizeCriticResult cr' n = Inr cr''"
    using assms(3,4,6)
    unfolding Score_Evaluate_def canonicalizeResult_def critic_part_def
    by (auto simp: bind_Inr Let_def normalizeSignals_Inr(4) split: if_split_asm option.splits)
  have cr': "cr_Findings cr' = Some (?cr ds)"
    using n1 by (auto simp: normalizeCriticResult_def Let_def assms(2) split: if_split_asm sum.splits)
  obtain b where "CanonicalCorroborationBytes cr' = Inr b"
    using n2 by (auto simp: normalizeCriticResult_def Let_def split: if_split_asm sum.splits)
  then have "\<forall>d\<in>set (?cr ds). fd_Evidence d \<noteq> None" using cr' by (elim canonical_critic) simp
  then show "\<forall>d\<in>set ds. fd_Evidence d \<noteq> Some []" by (auto simp: clone_slice_def)
qed

theorem routed_critique_scored_iff_witness:
  "\<exists>r. Score_Evaluate \<lparr>si_Signals = Some sample_signals, si_Execution = sample_execution,
     si_Critic = Some (routed [sample_finding] [sample_evidence])\<rparr> = Inr r"
  by (rule iffD2 [OF routed_critique_scored_iff [OF sample_runs _ sample_normal(1) _ _ sample_normal(2),
      where ds = "[decide_finding [sample_evidence] sample_finding]"
        and spec = "the (Critic sample_signals)"]])
    (simp_all add: routed_def sample_signals_def decide_finding_def sample_routing Let_def)

end
