(* ===== verification/Base64_Text.thy ===== *)
theory Base64_Text
  imports Gateway_Prelude
begin

text \<open>
  \<^verbatim>\<open>base64.RawStdEncoding\<close> of the Go library, the text form of public keys and signatures: no padding,
  line breaks are skipped when decoding, and the unused bits of the last letter are ignored.
\<close>

definition b64_letter :: "nat \<Rightarrow> char" where
  "b64_letter n =
     (if n < 26 then char_of (65 + n) else if n < 52 then char_of (71 + n)
      else if n < 62 then char_of (n - 4) else if n = 62 then CHR ''+'' else CHR ''/'')"

definition b64_value :: "char \<Rightarrow> nat option" where
  "b64_value c =
     (let b = byte_of c in
      if 65 \<le> b \<and> b \<le> 90 then Some (b - 65) else if 97 \<le> b \<and> b \<le> 122 then Some (b - 71)
      else if 48 \<le> b \<and> b \<le> 57 then Some (b + 4) else if b = 43 then Some 62
      else if b = 47 then Some 63 else None)"

fun b64_sextets :: "nat list \<Rightarrow> nat list" where
  "b64_sextets [] = []"
| "b64_sextets [x] = [x div 4, (x mod 4) * 16]"
| "b64_sextets [x, y] = [x div 4, (x mod 4) * 16 + y div 16, (y mod 16) * 4]"
| "b64_sextets (x # y # z # bs) =
     [x div 4, (x mod 4) * 16 + y div 16, (y mod 16) * 4 + z div 64, z mod 64] @ b64_sextets bs"

fun b64_bytes :: "nat list \<Rightarrow> nat list option" where
  "b64_bytes [] = Some []"
| "b64_bytes [a] = None"
| "b64_bytes [a, b] = Some [a * 4 + b div 16]"
| "b64_bytes [a, b, c] = Some [a * 4 + b div 16, (b mod 16) * 16 + c div 4]"
| "b64_bytes (a # b # c # d # vs) =
     map_option (\<lambda>bs. [a * 4 + b div 16, (b mod 16) * 16 + c div 4, (c mod 4) * 64 + d] @ bs) (b64_bytes vs)"

definition b64_encode :: "string \<Rightarrow> string" where
  "b64_encode s = map b64_letter (b64_sextets (map byte_of s))"

definition b64_decode :: "string \<Rightarrow> string option" where
  "b64_decode s =
     (let cs = filter (\<lambda>c. c \<noteq> CHR 0x0A \<and> c \<noteq> CHR 0x0D) s in
      if list_ex (\<lambda>c. b64_value c = None) cs then None
      else map_option (map char_of) (b64_bytes (map (\<lambda>c. the (b64_value c)) cs)))"

lemma b64_value_letter: "n < 64 \<Longrightarrow> b64_value (b64_letter n) = Some n"
  by (auto simp: b64_value_def b64_letter_def Let_def)

lemma b64_letter_line: "n < 64 \<Longrightarrow> b64_letter n \<noteq> CHR 0x0A \<and> b64_letter n \<noteq> CHR 0x0D"
proof -
  assume n: "n < 64"
  have "b64_value (CHR 0x0A) = None" "b64_value (CHR 0x0D) = None"
    by (simp_all add: b64_value_def of_char_def)
  then show ?thesis using b64_value_letter [OF n] by auto
qed

lemma b64_sextets_bound: "\<forall>b\<in>set bs. b < 256 \<Longrightarrow> \<forall>v\<in>set (b64_sextets bs). v < 64"
  by (induction bs rule: b64_sextets.induct) auto

lemma b64_bytes_sextets: "\<forall>b\<in>set bs. b < 256 \<Longrightarrow> b64_bytes (b64_sextets bs) = Some bs"
  by (induction bs rule: b64_sextets.induct) auto

lemma b64_roundtrip: "b64_decode (b64_encode s) = Some s"
proof -
  let ?vs = "b64_sextets (map byte_of s)"
  have bytes: "\<forall>b\<in>set (map byte_of s). b < 256" by auto
  have v: "\<forall>v\<in>set ?vs. v < 64" by (rule b64_sextets_bound [OF bytes])
  have "filter (\<lambda>c. c \<noteq> CHR 0x0A \<and> c \<noteq> CHR 0x0D) (map b64_letter ?vs) = map b64_letter ?vs"
    using v b64_letter_line by (auto intro: filter_True)
  moreover have "\<not> list_ex (\<lambda>c. b64_value c = None) (map b64_letter ?vs)"
    using v by (auto simp: list_ex_iff b64_value_letter)
  moreover have "map (\<lambda>c. the (b64_value c)) (map b64_letter ?vs) = ?vs"
    using v by (auto intro: map_idI simp: b64_value_letter)
  ultimately show ?thesis
    using b64_bytes_sextets [OF bytes] by (simp add: b64_decode_def b64_encode_def Let_def o_def)
qed

lemma length_b64_encode: "length (b64_encode s) \<le> 4 * length s"
proof -
  have "length (b64_sextets bs) \<le> 4 * length bs" for bs
    by (induction bs rule: b64_sextets.induct) auto
  from this [of "map byte_of s"] show ?thesis by (simp add: b64_encode_def)
qed

end
