(* ===== verification/Gate_Report.thy ===== *)
theory Gate_Report
  imports Gate_Decision Gate_Scores Base64_Text
begin

text \<open>
  The signed verification report, \<^verbatim>\<open>v3/internal/gate/report.go\<close>: \<^verbatim>\<open>BuildReport\<close> binds a decision of the
  gate and a scoring result to the inputs that were judged, \<^verbatim>\<open>canonicalizeReport\<close> is the
  validation every report passes before it is encoded, signed or verified. Collections are
  copied with \<^verbatim>\<open>append([]T(nil), xs...)\<close>, so an empty one is nil in a canonical report and is
  encoded as \<^verbatim>\<open>null\<close>. The Ed25519 primitives are arguments of the operations that use them.
\<close>

section \<open>Data\<close>

abbreviation ReportSchemaVersion :: string where
  "ReportSchemaVersion \<equiv> ''agents.astatide.com/verification/v1beta1''"

abbreviation MaxRunUIDBytes :: nat where "MaxRunUIDBytes \<equiv> 128"
abbreviation MaxReportMessageBytes :: nat where "MaxReportMessageBytes \<equiv> 1024"
definition MaxReportBytes :: nat where "MaxReportBytes = 8 * 2 ^ 20"
abbreviation MaxSkillDigests :: nat where "MaxSkillDigests \<equiv> 32"
abbreviation MaxHelperImages :: nat where "MaxHelperImages \<equiv> 16"
abbreviation MaxVerifierImageBytes :: nat where "MaxVerifierImageBytes \<equiv> 512"
abbreviation MaxReportCheckNameBytes :: nat where "MaxReportCheckNameBytes \<equiv> 128"
definition MaxReportChangedPathBytes :: nat where "MaxReportChangedPathBytes = MaxChangedPaths * MaxPathBytes"

record image_evidence =
  im_Name :: string
  im_Digest :: string

record route_evidence =
  rt_Name :: string
  rt_UID :: string
  rt_Generation :: int
  rt_Provider :: string
  rt_Family :: string

record scoring_evidence =
  sp_ResultDigest :: string
  sp_ExecutionWeight :: int
  sp_CriticWeight :: int
  sp_MinScore :: int
  sp_ExecutionScore :: int
  sp_CriticScore :: int
  sp_WeightedScore :: int
  sp_BlockingReasons :: "string list"
  sp_CriticRoute :: "route_evidence option"
  sp_CorroborationDigest :: string

record scoring_context =
  sc_Result :: scoring_result
  sc_CriticRoute :: "route_evidence option"
  sc_CorroborationDigest :: string

record report_context =
  cx_RunUID :: string
  cx_SpecDigest :: string
  cx_BaseSHA :: string
  cx_PatchDigest :: string
  cx_GateUID :: string
  cx_GateGeneration :: int
  cx_RuntimeImage :: string
  cx_VerifierImage :: string
  cx_HelperImages :: "image_evidence list"
  cx_SkillDigests :: "string list"
  cx_Scoring :: "scoring_context option"

record verification_report =
  vr_SchemaVersion :: string
  vr_RunUID :: string
  vr_SpecDigest :: string
  vr_BaseSHA :: string
  vr_PatchDigest :: string
  vr_GateUID :: string
  vr_GateGeneration :: int
  vr_RuntimeImage :: string
  vr_VerifierImage :: string
  vr_HelperImages :: "image_evidence list"
  vr_SkillDigests :: "string list"
  vr_Evidence :: evidence_summary
  vr_Commands :: "report_command list"
  vr_Checks :: "gate_check list"
  vr_Scoring :: scoring_evidence
  vr_Verdict :: verdict
  builtByGate :: bool

record signed_report =
  sg_Report :: verification_report
  sg_Algorithm :: string
  sg_PublicKey :: string
  sg_Signature :: string

text \<open>
  The errors carry their text; the two image fields are visited in the order of a Go map, so the
  name of the refused one is not part of the error. Errors of the scorer are wrapped.
\<close>

datatype report_error =
  ReportError string | InvalidImageDigest | MaterializeScoring scoring_error |
  CanonicalizeScoring scoring_error | DigestScoring scoring_error

definition refuse :: "bool \<Rightarrow> string \<Rightarrow> report_error option" where
  "refuse bad t = (if bad then Some (ReportError t) else None)"

section \<open>Field formats\<close>

abbreviation blank_bytes :: string where
  "blank_bytes \<equiv> [CHR 0x00, CHR 0x0D, CHR 0x0A, CHR 0x09, CHR '' '']"

definition validRunUID :: "string \<Rightarrow> bool" where
  "validRunUID v \<longleftrightarrow> length v > 0 \<and> length v \<le> MaxRunUIDBytes \<and> utf8_valid v \<and> \<not> contains_any v blank_bytes"

definition validRouteEvidence :: "route_evidence \<Rightarrow> bool" where
  "validRouteEvidence r \<longleftrightarrow> validRunUID (rt_Name r) \<and> validRunUID (rt_UID r) \<and> rt_Generation r > 0 \<and>
     validRunUID (rt_Provider r) \<and> validRunUID (rt_Family r)"

text \<open>\<^verbatim>\<open>^[a-f0-9]{40,64}$\<close>\<close>

definition baseSHA_shape :: "string \<Rightarrow> bool" where
  "baseSHA_shape v \<longleftrightarrow> 40 \<le> length v \<and> length v \<le> 64 \<and> list_all lower_hex v"

text \<open>\<^verbatim>\<open>^.+@sha256:[a-f0-9]{64}$\<close>; the dot matches every rune but a newline.\<close>

definition imageDigest_shape :: "string \<Rightarrow> bool" where
  "imageDigest_shape v \<longleftrightarrow>
     (let n = length v - 72; name = take n v; rest = drop n v
      in length v > 72 \<and> \<not> List.member name (CHR 0x0A) \<and> take 8 rest = ''@sha256:'' \<and> list_all lower_hex (drop 8 rest))"

text \<open>\<^verbatim>\<open>^[a-z][a-z0-9-]{0,62}$\<close>\<close>

definition imageRole_shape :: "string \<Rightarrow> bool" where
  "imageRole_shape v =
     (case v of [] \<Rightarrow> False
      | c # cs \<Rightarrow> 97 \<le> (byte_of c :: nat) \<and> byte_of c \<le> (122 :: nat) \<and> length cs \<le> 62 \<and>
          list_all (\<lambda>d. lower_alnum (byte_of d) \<or> d = CHR ''-'') cs)"

definition validImage :: "string \<Rightarrow> bool" where
  "validImage v \<longleftrightarrow> \<not> (length v = 0 \<or> length v > MaxVerifierImageBytes \<or> \<not> utf8_valid v \<or>
     \<not> imageDigest_shape v \<or> contains_any v blank_bytes)"

definition validHelperImage :: "image_evidence \<Rightarrow> bool" where
  "validHelperImage i \<longleftrightarrow> \<not> (\<not> imageRole_shape (im_Name i) \<or> length (im_Digest i) > MaxVerifierImageBytes \<or>
     \<not> imageDigest_shape (im_Digest i) \<or> contains_any (im_Digest i) blank_bytes)"

definition validateCheck :: "gate_check \<Rightarrow> report_error option" where
  "validateCheck c = first_error
     [refuse (length (gc_Name c) = 0 \<or> length (gc_Name c) > MaxReportCheckNameBytes \<or> \<not> utf8_valid (gc_Name c) \<or>
        List.member (gc_Name c) (CHR 0x00)) ''report check name is invalid'',
      refuse (length (gc_Message c) > MaxReportMessageBytes \<or> \<not> utf8_valid (gc_Message c) \<or>
        List.member (gc_Message c) (CHR 0x00)) ''report check message is invalid'']"

section \<open>Canonical parts\<close>

definition imageLess :: "image_evidence \<Rightarrow> image_evidence \<Rightarrow> bool" where
  "imageLess i j \<longleftrightarrow> im_Name i < im_Name j"

fun helper_loop :: "string option \<Rightarrow> image_evidence list \<Rightarrow> report_error option" where
  "helper_loop previous [] = None"
| "helper_loop previous (i # is) =
     (if \<not> validHelperImage i then Some (ReportError ''helper image evidence is invalid'')
      else if previous = Some (im_Name i) then Some (ReportError ''helper image evidence contains duplicate roles'')
      else helper_loop (Some (im_Name i)) is)"

definition canonicalizeHelpers :: "image_evidence list \<Rightarrow> report_error + image_evidence list" where
  "canonicalizeHelpers input =
     (if input = [] \<or> length input > MaxHelperImages
      then Inl (ReportError ''helper image evidence count is out of bounds'')
      else let sorted = sort_slice imageLess input
           in case helper_loop None sorted of Some err \<Rightarrow> Inl err | None \<Rightarrow> Inr sorted)"

fun repeated :: "'a option \<Rightarrow> 'a list \<Rightarrow> bool" where
  "repeated previous [] = False"
| "repeated previous (x # xs) = (previous = Some x \<or> repeated (Some x) xs)"

definition canonicalizeSkills :: "string list \<Rightarrow> report_error + string list" where
  "canonicalizeSkills input =
     (if length input > MaxSkillDigests then Inl (ReportError ''skill digest count is out of bounds'')
      else if list_ex (\<lambda>d. \<not> validSHA256Digest d) input then Inl (ReportError ''skill digest list is invalid'')
      else let sorted = sort input
           in if list_ex (\<lambda>d. \<not> validSHA256Digest d) sorted \<or> repeated None sorted
              then Inl (ReportError ''skill digest list is invalid'') else Inr sorted)"

fun path_bytes_loop :: "nat \<Rightarrow> string list \<Rightarrow> report_error option" where
  "path_bytes_loop totalPathBytes [] = None"
| "path_bytes_loop totalPathBytes (p # ps) =
     (if \<not> validRepoPath p then Some (ReportError ''report changed paths are invalid'')
      else if totalPathBytes + length p > MaxReportChangedPathBytes
      then Some (ReportError ''report changed path bytes are out of bounds'')
      else path_bytes_loop (totalPathBytes + length p) ps)"

definition canonicalizeEvidence :: "evidence_summary \<Rightarrow> report_error + evidence_summary" where
  "canonicalizeEvidence input =
     (let sorted = sort (ev_ChangedPaths input) in
      case first_error
        [refuse (length (ev_ChangedPaths input) > MaxChangedPaths) ''report changed path count is out of bounds'',
         path_bytes_loop 0 (ev_ChangedPaths input),
         refuse (list_ex (\<lambda>p. \<not> validRepoPath p) sorted \<or> repeated None sorted) ''report changed paths are invalid'',
         refuse (ev_FilesChanged input \<noteq> None \<and> \<not> validCounter (ev_FilesChanged input) MaxObservedFiles)
           ''report file count is invalid'',
         refuse (ev_LinesChanged input \<noteq> None \<and> \<not> validCounter (ev_LinesChanged input) MaxObservedLines)
           ''report line count is invalid'',
         refuse (case ev_CoverageDelta input of None \<Rightarrow> False | Some c \<Rightarrow> normalizeDecimal c = None)
           ''report coverage delta is invalid''] of
        Some err \<Rightarrow> Inl err
      | None \<Rightarrow> Inr (input\<lparr>ev_ChangedPaths := sorted,
          ev_CoverageDelta := (case ev_CoverageDelta input of None \<Rightarrow> None | Some c \<Rightarrow> normalizeDecimal c)\<rparr>))"

definition commandLess :: "report_command \<Rightarrow> report_command \<Rightarrow> bool" where
  "commandLess c d \<longleftrightarrow> rc_Index c < rc_Index d"

fun record_loop :: "int option \<Rightarrow> report_command list \<Rightarrow> report_error option" where
  "record_loop previous [] = None"
| "record_loop previous (c # cs) =
     (if rc_Index c < 0 \<or> rc_Index c \<ge> int MaxCommands \<or> \<not> validSHA256Digest (rc_ConfigDigest c)
      then Some (ReportError ''report command record is invalid'')
      else if previous = Some (rc_Index c)
      then Some (ReportError ''report command records contain duplicate indexes'')
      else if rc_Observed c \<and>
        (rc_ExitCode c = None \<or> \<not> validEvidenceDigest (rc_EvidenceDigest c) \<or> \<not> validDuration (rc_DurationMillis c))
      then Some (ReportError ''observed report command is missing evidence'')
      else if \<not> rc_Observed c \<and>
        (rc_ExitCode c \<noteq> None \<or> rc_EvidenceDigest c \<noteq> [] \<or> rc_DurationMillis c \<noteq> None)
      then Some (ReportError ''missing report command contains evidence'')
      else record_loop (Some (rc_Index c)) cs)"

definition canonicalizeCommands :: "report_command list \<Rightarrow> report_error + report_command list" where
  "canonicalizeCommands input =
     (if length input > MaxCommands then Inl (ReportError ''report command count is out of bounds'')
      else let sorted = sort_slice commandLess input
           in case record_loop None sorted of Some err \<Rightarrow> Inl err | None \<Rightarrow> Inr sorted)"

definition gateCheckLess :: "gate_check \<Rightarrow> gate_check \<Rightarrow> bool" where
  "gateCheckLess c d \<longleftrightarrow> gc_Name c < gc_Name d"

definition canonicalizeChecks :: "gate_check list \<Rightarrow> report_error + gate_check list" where
  "canonicalizeChecks input =
     (if length input > MaxChecks then Inl (ReportError ''report check count is out of bounds'')
      else case first_error (map validateCheck input) of
        Some err \<Rightarrow> Inl err
      | None \<Rightarrow>
          let sorted = sort_slice gateCheckLess input
          in if repeated None (map gc_Name sorted) then Inl (ReportError ''report checks contain duplicate names'')
             else Inr sorted)"

definition scoring_bounds :: "scoring_evidence \<Rightarrow> bool" where
  "scoring_bounds s \<longleftrightarrow> \<not> (outside 0 GateScoreScale (sp_ExecutionWeight s) \<or> outside 0 GateScoreScale (sp_CriticWeight s) \<or>
     outside 0 GateScoreScale (sp_MinScore s) \<or> outside 0 GateScoreScale (sp_ExecutionScore s) \<or>
     outside 0 GateScoreScale (sp_CriticScore s) \<or> outside 0 GateScoreScale (sp_WeightedScore s))"

definition scoring_provenance :: "scoring_evidence \<Rightarrow> report_error option" where
  "scoring_provenance s =
     (if sp_CriticWeight s = 0
      then refuse (sp_ExecutionWeight s \<noteq> GateScoreScale \<or> sp_MinScore s \<noteq> GateScoreScale \<or>
             sp_CriticScore s \<noteq> GateScoreScale \<or> sp_WeightedScore s \<noteq> sp_ExecutionScore s \<or>
             sp_CriticRoute s \<noteq> None \<or> sp_CorroborationDigest s \<noteq> [])
           ''execution-only scoring is not the explicit 10000-point form''
      else refuse (sp_CriticWeight s < 1 \<or> sp_ExecutionWeight s < 1 \<or>
             (case sp_CriticRoute s of None \<Rightarrow> True | Some r \<Rightarrow> \<not> validRouteEvidence r) \<or>
             \<not> validSHA256Digest (sp_CorroborationDigest s))
           ''critic scoring is missing route or corroboration provenance'')"

definition canonicalizeScoring :: "scoring_evidence \<Rightarrow> gate_check list \<Rightarrow> report_error + scoring_evidence" where
  "canonicalizeScoring input checked =
     (let reasons = sort (sp_BlockingReasons input);
          weighted = to_int32 (go_div (sp_ExecutionScore input * sp_ExecutionWeight input +
                       sp_CriticScore input * sp_CriticWeight input) GateScoreScale)
      in case first_error
        [refuse (\<not> validSHA256Digest (sp_ResultDigest input)) ''scoring result digest is invalid'',
         refuse (\<not> scoring_bounds input) ''scoring integer value is outside 0..10000'',
         refuse (sp_ExecutionWeight input + sp_CriticWeight input \<noteq> GateScoreScale) ''scoring weights do not sum to 10000'',
         refuse (sp_WeightedScore input \<noteq> weighted) ''scoring weighted value is inconsistent'',
         refuse (length (sp_BlockingReasons input) > MaxBlockingReasons) ''scoring blocking reason count is out of bounds'',
         refuse (list_ex (\<lambda>r. \<not> reason_ok r) (sp_BlockingReasons input)) ''scoring blocking reason is invalid'',
         refuse (repeated None reasons) ''scoring blocking reasons contain duplicates'',
         refuse (list_ex (\<lambda>c. \<not> gc_Passed c \<and> \<not> List.member reasons (''execution.'' @ gc_Name c)) checked)
           ''scoring does not preserve a failed Gate check as a blocking reason'',
         scoring_provenance input] of
        Some err \<Rightarrow> Inl err
      | None \<Rightarrow> Inr (input\<lparr>sp_BlockingReasons := reasons\<rparr>))"

definition scoringVerdictFromProjection :: "scoring_evidence \<Rightarrow> score_verdict" where
  "scoringVerdictFromProjection s =
     (if sp_BlockingReasons s \<noteq> [] \<or> sp_WeightedScore s < sp_MinScore s then ScoreRejected else ScoreAccepted)"

text \<open>The conversion \<^verbatim>\<open>Verdict(v)\<close> keeps the text.\<close>

fun to_verdict :: "score_verdict \<Rightarrow> verdict" where
  "to_verdict ScoreAccepted = Accepted"
| "to_verdict ScoreRejected = Rejected"
| "to_verdict (OtherVerdict v) = OtherGateVerdict v"

section \<open>Canonical reports\<close>

definition report_identity :: "verification_report \<Rightarrow> report_error option" where
  "report_identity r = first_error
     [refuse (vr_SchemaVersion r \<noteq> ReportSchemaVersion) ''unsupported verification report schema'',
      refuse (\<not> validRunUID (vr_RunUID r)) ''invalid report run UID'',
      refuse (\<not> validSHA256Digest (vr_SpecDigest r) \<or> \<not> validSHA256Digest (vr_PatchDigest r)) ''invalid report content digest'',
      refuse (\<not> baseSHA_shape (vr_BaseSHA r) \<or> length (vr_BaseSHA r) > 64) ''invalid report base SHA'',
      refuse (\<not> validRunUID (vr_GateUID r) \<or> vr_GateGeneration r \<le> 0) ''invalid report Gate identity'',
      (if \<not> validImage (vr_RuntimeImage r) \<or> \<not> validImage (vr_VerifierImage r) then Some InvalidImageDigest else None)]"

definition canonicalizeReport :: "verification_report \<Rightarrow> report_error + verification_report" where
  "canonicalizeReport input =
     (case report_identity input of Some err \<Rightarrow> Inl err | None \<Rightarrow>
     (case canonicalizeHelpers (vr_HelperImages input) of Inl err \<Rightarrow> Inl err | Inr helpers \<Rightarrow>
     (case canonicalizeSkills (vr_SkillDigests input) of Inl err \<Rightarrow> Inl err | Inr skills \<Rightarrow>
     (case canonicalizeEvidence (vr_Evidence input) of Inl err \<Rightarrow> Inl err | Inr ev \<Rightarrow>
     (case canonicalizeCommands (vr_Commands input) of Inl err \<Rightarrow> Inl err | Inr commands \<Rightarrow>
     (case canonicalizeChecks (vr_Checks input) of Inl err \<Rightarrow> Inl err | Inr checked \<Rightarrow>
     (case canonicalizeScoring (vr_Scoring input) checked of Inl err \<Rightarrow> Inl err | Inr scoring \<Rightarrow>
        let computed = to_verdict (scoringVerdictFromProjection scoring)
        in if checked = [] \<or> vr_Verdict input \<noteq> computed
           then Inl (ReportError ''report verdict does not match checks'')
           else Inr (input\<lparr>vr_HelperImages := helpers, vr_SkillDigests := skills, vr_Evidence := ev,
                  vr_Commands := commands, vr_Checks := checked, vr_Scoring := scoring,
                  vr_Verdict := computed\<rparr>))))))))"

section \<open>Building a report\<close>

fun decision_loop :: "string list \<Rightarrow> gate_check list \<Rightarrow> report_error option" where
  "decision_loop names [] = None"
| "decision_loop names (c # cs) =
     (case validateCheck c of
        Some err \<Rightarrow> Some err
      | None \<Rightarrow> if List.member names (gc_Name c) then Some (ReportError ''decision contains duplicate check names'')
                else decision_loop (gc_Name c # names) cs)"

definition validateDecision :: "decision \<Rightarrow> report_error option" where
  "validateDecision d = first_error
     [refuse (d_Checks d = [] \<or> length (d_Checks d) > MaxChecks) ''decision check count is out of bounds'',
      decision_loop [] (d_Checks d),
      refuse (d_Verdict d \<noteq> (if list_ex (\<lambda>c. \<not> gc_Passed c) (d_Checks d) then Rejected else Accepted))
        ''decision verdict does not match checks'',
      refuse (length (commandRecords d) > MaxCommands) ''decision command record count is out of bounds'']"

fun binding_loop :: "execution_check list \<Rightarrow> gate_check list \<Rightarrow> bool" where
  "binding_loop (x # xs) (c # cs) =
     (\<not> (xc_Name x \<noteq> gc_Name c \<or> xc_Passed x \<noteq> gc_Passed c \<or> \<not> xc_Blocking x) \<and> binding_loop xs cs)"
| "binding_loop _ _ = True"

definition validateScoringBinding ::
  "scoring_result \<Rightarrow> decision \<Rightarrow> route_evidence option \<Rightarrow> string \<Rightarrow> report_error option" where
  "validateScoringBinding result d rt corroborationDigest = first_error
     [refuse (length (sr_ExecutionChecks result) \<noteq> length (d_Checks d)) ''scoring result does not cover every Gate check'',
      refuse (\<not> binding_loop (sr_ExecutionChecks result) (sort_slice gateCheckLess (d_Checks d)))
        ''scoring result is not bound to the deterministic Gate checks'',
      (case Critic (sr_Signals result) of
         None \<Rightarrow> refuse (rt \<noteq> None \<or> corroborationDigest \<noteq> [] \<or> sr_CriticResult result \<noteq> None \<or>
             sr_CriticScore result \<noteq> GateScoreScale \<or> ExecutionWeight (sr_Signals result) \<noteq> GateScoreScale \<or>
             MinScore (sr_Signals result) \<noteq> GateScoreScale) ''execution-only scoring contains critic provenance''
       | Some critic \<Rightarrow> first_error
           [refuse (case rt of None \<Rightarrow> True | Some r \<Rightarrow> \<not> validRouteEvidence r)
              ''critic scoring is missing a valid route identity'',
            refuse (rt_Name (the rt) \<noteq> ModelRouteRef critic)
              ''critic route identity does not match the resolved scoring route'',
            refuse (\<not> validSHA256Digest corroborationDigest) ''critic scoring is missing a corroboration artifact digest'',
            refuse (sr_CriticResult result = None) ''critic scoring is missing its corroboration result''])]"

definition execution_only :: "decision \<Rightarrow> scoring_input" where
  "execution_only d = \<lparr>si_Signals = None,
     si_Execution = \<lparr>xs_Score = (if Decision_Accepted d then GateScoreScale else 0),
       xs_Checks = map (\<lambda>c. \<lparr>xc_Name = gc_Name c, xc_Passed = gc_Passed c, xc_Blocking = True\<rparr>) (d_Checks d)\<rparr>,
     si_Critic = None\<rparr>"

definition scoringForReport :: "report_context \<Rightarrow> decision \<Rightarrow> report_error + scoring_evidence \<times> score_verdict" where
  "scoringForReport context d =
     (let (rt, corroborationDigest) = (case cx_Scoring context of None \<Rightarrow> (None, [])
            | Some sc \<Rightarrow> (sc_CriticRoute sc, sc_CorroborationDigest sc))
      in case (case cx_Scoring context of
                 None \<Rightarrow> (case Score_Evaluate (execution_only d) of Inl err \<Rightarrow> Inl (MaterializeScoring err) | Inr r \<Rightarrow> Inr r)
               | Some sc \<Rightarrow> Inr (sc_Result sc)) of
           Inl err \<Rightarrow> Inl err
         | Inr result \<Rightarrow>
             (case ScoringResultBytes result of Inl err \<Rightarrow> Inl (CanonicalizeScoring err) | Inr _ \<Rightarrow>
             (case ScoringResultDigest result of Inl err \<Rightarrow> Inl (DigestScoring err) | Inr resultDigest \<Rightarrow>
             (case validateScoringBinding result d rt corroborationDigest of Some err \<Rightarrow> Inl err | None \<Rightarrow>
                Inr (\<lparr>sp_ResultDigest = resultDigest, sp_ExecutionWeight = ExecutionWeight (sr_Signals result),
                  sp_CriticWeight = (case Critic (sr_Signals result) of None \<Rightarrow> 0 | Some c \<Rightarrow> WeightBasisPoints c),
                  sp_MinScore = MinScore (sr_Signals result), sp_ExecutionScore = sr_ExecutionScore result,
                  sp_CriticScore = sr_CriticScore result, sp_WeightedScore = sr_WeightedScore result,
                  sp_BlockingReasons = (case sr_BlockingReasons result of None \<Rightarrow> [] | Some rs \<Rightarrow> rs),
                  sp_CriticRoute = rt, sp_CorroborationDigest = corroborationDigest\<rparr>, sr_Verdict result)))))"

definition BuildReport :: "report_context \<Rightarrow> decision \<Rightarrow> report_error + verification_report" where
  "BuildReport context d =
     (if \<not> evaluated d then Inl (ReportError ''gate decision was not produced by Evaluate'')
      else case validateDecision d of Some err \<Rightarrow> Inl err | None \<Rightarrow>
        (case scoringForReport context d of Inl err \<Rightarrow> Inl err | Inr (scoring, scoringVerdict) \<Rightarrow>
           canonicalizeReport \<lparr>vr_SchemaVersion = ReportSchemaVersion, vr_RunUID = cx_RunUID context,
             vr_SpecDigest = cx_SpecDigest context, vr_BaseSHA = cx_BaseSHA context,
             vr_PatchDigest = cx_PatchDigest context, vr_GateUID = cx_GateUID context,
             vr_GateGeneration = cx_GateGeneration context, vr_RuntimeImage = cx_RuntimeImage context,
             vr_VerifierImage = cx_VerifierImage context, vr_HelperImages = cx_HelperImages context,
             vr_SkillDigests = cx_SkillDigests context, vr_Evidence = evidence d,
             vr_Commands = commandRecords d, vr_Checks = d_Checks d, vr_Scoring = scoring,
             vr_Verdict = to_verdict scoringVerdict, builtByGate = True\<rparr>))"

section \<open>Encoding and signing\<close>

fun gate_verdict_text :: "verdict \<Rightarrow> string" where
  "gate_verdict_text Accepted = ''Accepted''"
| "gate_verdict_text Rejected = ''Rejected''"
| "gate_verdict_text (OtherGateVerdict v) = v"

definition json_nil_slice :: "('a \<Rightarrow> string) \<Rightarrow> 'a list \<Rightarrow> string" where
  "json_nil_slice f xs = json_slice f (clone_slice (Some xs))"

definition json_nonempty :: "string \<Rightarrow> string \<Rightarrow> (string \<times> string) list" where
  "json_nonempty key s = (if s = [] then [] else [(key, json_string s)])"

definition marshal_summary :: "evidence_summary \<Rightarrow> string" where
  "marshal_summary e = json_object
     ([(''changedPaths'', json_nil_slice json_string (ev_ChangedPaths e))]
      @ json_opt ''filesChanged'' json_int (ev_FilesChanged e) @ json_opt ''linesChanged'' json_int (ev_LinesChanged e)
      @ json_opt ''hasBinaryFiles'' json_bool (ev_HasBinaryFiles e)
      @ json_opt ''coverageDelta'' json_string (ev_CoverageDelta e)
      @ json_opt ''newTestsFailOnBase'' json_bool (ev_NewTestsFailOnBase e))"

definition marshal_record :: "report_command \<Rightarrow> string" where
  "marshal_record c = json_object
     ([(''index'', json_int (rc_Index c)), (''configDigest'', json_string (rc_ConfigDigest c)),
       (''observed'', json_bool (rc_Observed c))]
      @ json_opt ''exitCode'' json_int (rc_ExitCode c) @ json_nonempty ''evidenceDigest'' (rc_EvidenceDigest c)
      @ json_opt ''durationMillis'' json_int (rc_DurationMillis c))"

definition marshal_check :: "gate_check \<Rightarrow> string" where
  "marshal_check c = json_object
     ([(''name'', json_string (gc_Name c)), (''passed'', json_bool (gc_Passed c))] @ json_nonempty ''message'' (gc_Message c))"

definition marshal_route :: "route_evidence \<Rightarrow> string" where
  "marshal_route r = json_object
     [(''name'', json_string (rt_Name r)), (''uid'', json_string (rt_UID r)), (''generation'', json_int (rt_Generation r)),
      (''provider'', json_string (rt_Provider r)), (''family'', json_string (rt_Family r))]"

definition marshal_projection :: "scoring_evidence \<Rightarrow> string" where
  "marshal_projection s = json_object
     ([(''resultDigest'', json_string (sp_ResultDigest s)),
       (''executionWeightBasisPoints'', json_int (sp_ExecutionWeight s)),
       (''criticWeightBasisPoints'', json_int (sp_CriticWeight s)), (''minScoreBasisPoints'', json_int (sp_MinScore s)),
       (''executionScoreBasisPoints'', json_int (sp_ExecutionScore s)),
       (''criticScoreBasisPoints'', json_int (sp_CriticScore s)),
       (''weightedScoreBasisPoints'', json_int (sp_WeightedScore s)),
       (''blockingReasons'', json_nil_slice json_string (sp_BlockingReasons s))]
      @ json_opt ''criticRoute'' marshal_route (sp_CriticRoute s)
      @ json_nonempty ''corroborationArtifactDigest'' (sp_CorroborationDigest s))"

definition marshal_report :: "verification_report \<Rightarrow> string" where
  "marshal_report r = json_object
     [(''schemaVersion'', json_string (vr_SchemaVersion r)), (''runUID'', json_string (vr_RunUID r)),
      (''specDigest'', json_string (vr_SpecDigest r)), (''baseSHA'', json_string (vr_BaseSHA r)),
      (''patchDigest'', json_string (vr_PatchDigest r)), (''gateUID'', json_string (vr_GateUID r)),
      (''gateGeneration'', json_int (vr_GateGeneration r)), (''runtimeImageDigest'', json_string (vr_RuntimeImage r)),
      (''verifierImageDigest'', json_string (vr_VerifierImage r)),
      (''helperImageDigests'', json_nil_slice (\<lambda>i. json_object
         [(''name'', json_string (im_Name i)), (''digest'', json_string (im_Digest i))]) (vr_HelperImages r)),
      (''skillDigests'', json_nil_slice json_string (vr_SkillDigests r)), (''evidence'', marshal_summary (vr_Evidence r)),
      (''commands'', json_nil_slice marshal_record (vr_Commands r)), (''checks'', json_nil_slice marshal_check (vr_Checks r)),
      (''scoring'', marshal_projection (vr_Scoring r)), (''verdict'', json_string (gate_verdict_text (vr_Verdict r)))]"

definition CanonicalReportBytes :: "verification_report \<Rightarrow> report_error + string" where
  "CanonicalReportBytes report =
     (case canonicalizeReport report of
        Inl err \<Rightarrow> Inl err
      | Inr normalized \<Rightarrow>
          if length (marshal_report normalized) > MaxReportBytes
          then Inl (ReportError ''verification report exceeds bounded size'') else Inr (marshal_report normalized))"

definition ReportDigest :: "verification_report \<Rightarrow> report_error + string" where
  "ReportDigest report =
     (case CanonicalReportBytes report of Inl err \<Rightarrow> Inl err | Inr encoded \<Rightarrow> Inr (sha256_digest encoded))"

text \<open>
  A private key of 64 bytes ends with its public key. \<^verbatim>\<open>ed25519.Sign\<close> and \<^verbatim>\<open>ed25519.Verify\<close> are the
  arguments \<open>sign\<close> (key, message) and \<open>verify\<close> (public key, message, signature).
\<close>

definition SignReport ::
  "(string \<Rightarrow> string \<Rightarrow> string) \<Rightarrow> verification_report \<Rightarrow> string \<Rightarrow> report_error + signed_report" where
  "SignReport sign report privateKey =
     (if length privateKey \<noteq> 64 then Inl (ReportError ''invalid Ed25519 private key length'')
      else if \<not> builtByGate report then Inl (ReportError ''report was not produced by BuildReport'')
      else case canonicalizeReport report of
        Inl err \<Rightarrow> Inl err
      | Inr normalized \<Rightarrow>
          Inr \<lparr>sg_Report = normalized, sg_Algorithm = ''Ed25519'', sg_PublicKey = b64_encode (drop 32 privateKey),
               sg_Signature = b64_encode (sign privateKey (marshal_report normalized))\<rparr>)"

definition VerifySignedReport ::
  "(string \<Rightarrow> string \<Rightarrow> string \<Rightarrow> bool) \<Rightarrow> signed_report \<Rightarrow> string option \<Rightarrow> report_error option" where
  "VerifySignedReport verify envelope trusted =
     (if sg_Algorithm envelope \<noteq> ''Ed25519'' then Some (ReportError ''unsupported report signature algorithm'')
      else case b64_decode (sg_PublicKey envelope) of
        None \<Rightarrow> Some (ReportError ''invalid report public key'')
      | Some publicKey \<Rightarrow>
          if length publicKey \<noteq> 32 then Some (ReportError ''invalid report public key'')
          else case b64_decode (sg_Signature envelope) of
            None \<Rightarrow> Some (ReportError ''invalid report signature'')
          | Some signature \<Rightarrow>
              if length signature \<noteq> 64 \<or> length (sg_Signature envelope) > 256
              then Some (ReportError ''invalid report signature'')
              else if (case trusted of None \<Rightarrow> False | Some key \<Rightarrow> length key \<noteq> 32 \<or> publicKey \<noteq> key)
              then Some (ReportError ''report signer is not trusted'')
              else case CanonicalReportBytes (sg_Report envelope) of
                Inl err \<Rightarrow> Some err
              | Inr payload \<Rightarrow>
                  refuse (\<not> verify publicKey payload signature) ''verification report signature is invalid'')"

definition SignedReportBytes ::
  "(string \<Rightarrow> string \<Rightarrow> string \<Rightarrow> bool) \<Rightarrow> signed_report \<Rightarrow> report_error + string" where
  "SignedReportBytes verify envelope =
     (case VerifySignedReport verify envelope None of
        Some err \<Rightarrow> Inl err
      | None \<Rightarrow>
          (case canonicalizeReport (sg_Report envelope) of
             Inl err \<Rightarrow> Inl err
           | Inr normalized \<Rightarrow>
               let encoded = json_object [(''report'', marshal_report normalized),
                     (''algorithm'', json_string (sg_Algorithm envelope)), (''publicKey'', json_string (sg_PublicKey envelope)),
                     (''signature'', json_string (sg_Signature envelope))]
               in if length encoded > MaxReportBytes + 1024
                  then Inl (ReportError ''signed verification report exceeds bounded size'') else Inr encoded))"

end
