(* ===== verification/Report_Canonical.thy ===== *)
theory Report_Canonical
  imports Gate_Report
begin

text \<open>
  Canonical reports: canonicalization is idempotent, an accepted report has no failed check, and
  the checks, messages and command records a decision of the gate carries are within the
  bounds a report demands.
\<close>

section \<open>Canonicalization is idempotent\<close>

interpretation image_order: slice_order imageLess
  by unfold_locales (auto simp: imageLess_def)

interpretation record_order: slice_order commandLess
  by unfold_locales (auto simp: commandLess_def)

interpretation gate_check_order: slice_order gateCheckLess
  by unfold_locales (auto simp: gateCheckLess_def)

lemma refuse_None [simp]: "refuse bad t = None \<longleftrightarrow> \<not> bad"
  by (simp add: refuse_def)

lemma first_error_map: "first_error (map f xs) = None \<longleftrightarrow> (\<forall>x\<in>set xs. f x = None)"
  by (induction xs) auto

lemma repeated_sorted: "sorted xs \<Longrightarrow> repeated None xs \<longleftrightarrow> \<not> distinct (xs :: 'a :: linorder list)"
proof -
  have "sorted xs \<Longrightarrow> \<forall>x\<in>set xs. p \<le> x \<Longrightarrow> repeated (Some p) xs \<longleftrightarrow> p \<in> set xs \<or> \<not> distinct xs" for p :: 'a and xs
    by (induction xs arbitrary: p) (auto intro: antisym)
  then show "sorted xs \<Longrightarrow> ?thesis" by (cases xs) auto
qed

lemma normalizeDecimal_idem:
  assumes "normalizeDecimal s = Some t"
  shows "normalizeDecimal t = Some t"
proof -
  have v: "parseDecimal t = Some (decimal_value s)" by (rule normalizeDecimal_value [OF assms])
  then have sh: "decimal_shape t" "t \<noteq> []" "length t \<le> 64" and d: "decimal_value t = decimal_value s"
    by (auto simp: parseDecimal_def split: if_splits)
  obtain u where u: "normalizeDecimal t = Some u" using normalizeDecimal_render [OF sh] by blast
  obtain n i f where a: "canonical_parts n i f" "t = render_decimal n i f"
    using normalizeDecimal_canonical_parts [OF assms] by blast
  obtain m j g where b: "canonical_parts m j g" "u = render_decimal m j g"
    using normalizeDecimal_canonical_parts [OF u] by blast
  have "decimal_value u = decimal_value t"
    using normalizeDecimal_value [OF u] by (auto simp: parseDecimal_def split: if_splits)
  then show ?thesis using canonical_render_inj [OF a(1) b(1)] a b u by simp
qed

lemma canonicalizeHelpers_idem: "canonicalizeHelpers xs = Inr ys \<Longrightarrow> canonicalizeHelpers ys = Inr ys"
  by (auto simp: canonicalizeHelpers_def Let_def image_order.sort_sort split: if_splits option.splits)

lemma sort_again [simp]: "sort (sort xs) = sort (xs :: 'a :: linorder list)"
  by (simp add: sorted_sort_id)

lemma list_ex_sort [simp]: "list_ex P (sort xs) = list_ex P (xs :: 'a :: linorder list)"
  by (simp add: list_ex_iff)

lemma canonicalizeSkills_idem: "canonicalizeSkills xs = Inr ys \<Longrightarrow> canonicalizeSkills ys = Inr ys"
  by (auto simp: canonicalizeSkills_def Let_def split: if_splits)

lemma path_bytes_loop_None:
  "path_bytes_loop n ps = None \<longleftrightarrow>
     (\<forall>p\<in>set ps. validRepoPath p) \<and> (ps = [] \<or> n + sum_list (map length ps) \<le> MaxReportChangedPathBytes)"
  by (induction ps arbitrary: n) auto

lemma path_bytes_loop_sort: "path_bytes_loop n (sort ps) = None \<longleftrightarrow> path_bytes_loop n ps = None"
proof -
  have "sum_list (map length (sort ps)) = sum_list (map length ps)"
    by (metis mset_map mset_sort sum_mset_sum_list)
  moreover have "sort ps = [] \<longleftrightarrow> ps = []" by (metis length_0_conv length_sort)
  ultimately show ?thesis by (simp add: path_bytes_loop_None)
qed

lemma canonicalizeEvidence_idem:
  assumes "canonicalizeEvidence x = Inr y"
  shows "canonicalizeEvidence y = Inr y"
proof -
  note run = assms [unfolded canonicalizeEvidence_def Let_def guard_Inr]
  define cov where "cov = (case ev_CoverageDelta x of None \<Rightarrow> None | Some c \<Rightarrow> normalizeDecimal c)"
  have y: "y = x\<lparr>ev_ChangedPaths := sort (ev_ChangedPaths x), ev_CoverageDelta := cov\<rparr>"
    using conjunct2 [OF run] by (simp add: cov_def)
  have "\<not> (case cov of None \<Rightarrow> False | Some c \<Rightarrow> normalizeDecimal c = None)"
    and "(case cov of None \<Rightarrow> None | Some c \<Rightarrow> normalizeDecimal c) = cov"
    by (auto simp: cov_def normalizeDecimal_idem split: option.split)
  then show ?thesis
    using conjunct1 [OF run] unfolding canonicalizeEvidence_def Let_def guard_Inr y
    by (simp add: path_bytes_loop_sort)
qed

lemma canonicalizeCommands_idem: "canonicalizeCommands xs = Inr ys \<Longrightarrow> canonicalizeCommands ys = Inr ys"
  by (auto simp: canonicalizeCommands_def Let_def record_order.sort_sort split: if_splits option.splits)

lemma canonicalizeChecks_idem: "canonicalizeChecks xs = Inr ys \<Longrightarrow> canonicalizeChecks ys = Inr ys"
  by (auto simp: canonicalizeChecks_def Let_def guard_Inr first_error_map gate_check_order.sort_sort split: if_splits)

lemma scoring_parts [simp]:
  "scoring_bounds (x\<lparr>sp_BlockingReasons := rs\<rparr>) = scoring_bounds x"
  "scoring_provenance (x\<lparr>sp_BlockingReasons := rs\<rparr>) = scoring_provenance x"
  by (simp_all add: scoring_bounds_def scoring_provenance_def)

lemma canonicalizeScoring_idem:
  assumes "canonicalizeScoring x cs = Inr y"
  shows "canonicalizeScoring y cs = Inr y"
proof -
  note run = assms [unfolded canonicalizeScoring_def Let_def guard_Inr]
  have y: "y = x\<lparr>sp_BlockingReasons := sort (sp_BlockingReasons x)\<rparr>" using conjunct2 [OF run] by simp
  show ?thesis
    using conjunct1 [OF run] unfolding canonicalizeScoring_def Let_def guard_Inr y by simp
qed

lemma canonicalizeReport_InrE:
  assumes "canonicalizeReport r = Inr r'"
  obtains helpers skills ev commands checked scoring where "report_identity r = None"
    "canonicalizeHelpers (vr_HelperImages r) = Inr helpers" "canonicalizeSkills (vr_SkillDigests r) = Inr skills"
    "canonicalizeEvidence (vr_Evidence r) = Inr ev" "canonicalizeCommands (vr_Commands r) = Inr commands"
    "canonicalizeChecks (vr_Checks r) = Inr checked" "canonicalizeScoring (vr_Scoring r) checked = Inr scoring"
    "checked \<noteq> []" "vr_Verdict r = to_verdict (scoringVerdictFromProjection scoring)"
    "r' = r\<lparr>vr_HelperImages := helpers, vr_SkillDigests := skills, vr_Evidence := ev, vr_Commands := commands,
       vr_Checks := checked, vr_Scoring := scoring\<rparr>"
proof -
  note run = assms [unfolded canonicalizeReport_def guard_Inr bind_Inr]
  from run obtain helpers skills ev commands checked scoring where
    h: "report_identity r = None"
    "canonicalizeHelpers (vr_HelperImages r) = Inr helpers" "canonicalizeSkills (vr_SkillDigests r) = Inr skills"
    "canonicalizeEvidence (vr_Evidence r) = Inr ev" "canonicalizeCommands (vr_Commands r) = Inr commands"
    "canonicalizeChecks (vr_Checks r) = Inr checked" "canonicalizeScoring (vr_Scoring r) checked = Inr scoring"
    by blast
  from run h have "checked \<noteq> []" "vr_Verdict r = to_verdict (scoringVerdictFromProjection scoring)"
    "r' = r\<lparr>vr_HelperImages := helpers, vr_SkillDigests := skills, vr_Evidence := ev, vr_Commands := commands,
       vr_Checks := checked, vr_Scoring := scoring\<rparr>"
    by (auto simp: Let_def split: if_split_asm)
  from that [OF h this] show thesis .
qed

lemma canonicalizeReport_fixed:
  assumes "canonicalizeReport r = Inr r'"
  shows "canonicalizeReport r' = Inr r'"
  using assms
proof (rule canonicalizeReport_InrE)
  fix helpers skills ev commands checked scoring
  assume h: "report_identity r = None"
    "canonicalizeHelpers (vr_HelperImages r) = Inr helpers" "canonicalizeSkills (vr_SkillDigests r) = Inr skills"
    "canonicalizeEvidence (vr_Evidence r) = Inr ev" "canonicalizeCommands (vr_Commands r) = Inr commands"
    "canonicalizeChecks (vr_Checks r) = Inr checked" "canonicalizeScoring (vr_Scoring r) checked = Inr scoring"
    "checked \<noteq> []" "vr_Verdict r = to_verdict (scoringVerdictFromProjection scoring)"
    and r': "r' = r\<lparr>vr_HelperImages := helpers, vr_SkillDigests := skills, vr_Evidence := ev, vr_Commands := commands,
       vr_Checks := checked, vr_Scoring := scoring\<rparr>"
  have "report_identity r' = None" using h(1) by (simp add: r' report_identity_def)
  then show ?thesis
    using h(8,9) canonicalizeHelpers_idem [OF h(2)] canonicalizeSkills_idem [OF h(3)] canonicalizeEvidence_idem [OF h(4)]
      canonicalizeCommands_idem [OF h(5)] canonicalizeChecks_idem [OF h(6)] canonicalizeScoring_idem [OF h(7)]
    by (simp add: canonicalizeReport_def r')
qed

section \<open>Accepted reports\<close>

lemma to_verdict_accepted: "to_verdict v = Accepted \<longleftrightarrow> v = ScoreAccepted"
  by (cases v) auto

lemma canonical_checks_set: "canonicalizeChecks xs = Inr ys \<Longrightarrow> set ys = set xs"
  by (auto simp: canonicalizeChecks_def Let_def guard_Inr split: if_splits)

lemma accepted_report:
  assumes "canonicalizeReport r = Inr r'" and "vr_Verdict r = Accepted"
  shows "\<forall>c\<in>set (vr_Checks r). gc_Passed c" and "vr_Checks r \<noteq> []" and "sp_BlockingReasons (vr_Scoring r) = []"
    and "sp_MinScore (vr_Scoring r) \<le> sp_WeightedScore (vr_Scoring r)"
proof -
  obtain checked scoring where c: "canonicalizeChecks (vr_Checks r) = Inr checked" "checked \<noteq> []"
    and s: "canonicalizeScoring (vr_Scoring r) checked = Inr scoring"
    and v: "vr_Verdict r = to_verdict (scoringVerdictFromProjection scoring)"
    using assms(1) by (rule canonicalizeReport_InrE) blast
  have sc: "scoring = (vr_Scoring r)\<lparr>sp_BlockingReasons := sort (sp_BlockingReasons (vr_Scoring r))\<rparr>"
    and all: "\<forall>c\<in>set checked. gc_Passed c \<or> (''execution.'' @ gc_Name c) \<in> set (sp_BlockingReasons (vr_Scoring r))"
    using s by (auto simp: canonicalizeScoring_def Let_def guard_Inr list_ex_iff)
  have "sort (sp_BlockingReasons (vr_Scoring r)) = []" and m: "sp_MinScore (vr_Scoring r) \<le> sp_WeightedScore (vr_Scoring r)"
    using v assms(2) by (auto simp: to_verdict_accepted scoringVerdictFromProjection_def sc split: if_splits)
  then show none: "sp_BlockingReasons (vr_Scoring r) = []" by (metis length_0_conv length_sort)
  show "\<forall>c\<in>set (vr_Checks r). gc_Passed c" using all none canonical_checks_set [OF c(1)] by auto
  show "vr_Checks r \<noteq> []" using c canonical_checks_set [OF c(1)] by auto
  show "sp_MinScore (vr_Scoring r) \<le> sp_WeightedScore (vr_Scoring r)" by (rule m)
qed

section \<open>The decision of the gate is reportable\<close>

text \<open>Messages are printable ASCII within the bound of a report.\<close>

definition plain :: "string \<Rightarrow> bool" where
  "plain s \<longleftrightarrow> list_all (\<lambda>c. \<not> digit7 c \<and> 32 \<le> (byte_of c :: nat)) s"

lemma plain_append [simp]: "plain (s @ t) \<longleftrightarrow> plain s \<and> plain t"
  by (simp add: plain_def)

lemma plain_utf8: "plain s \<Longrightarrow> utf8_valid s"
  by (rule utf8_valid_ascii) (auto simp: plain_def list_all_iff)

lemma plain_no_nul: "plain s \<Longrightarrow> CHR 0x00 \<notin> set s"
  by (auto simp: plain_def list_all_iff)

lemma nat_digits_plain: "plain (nat_digits n)"
proof (induction n rule: nat_digits.induct)
  case (1 n)
  have "plain [char_of (48 + d)]" if "d < 10" for d :: nat
    using that digit7_byte [of "char_of (48 + d)"] by (auto simp: plain_def)
  with 1 show ?case by (subst nat_digits.simps) (auto simp: digit_char_def)
qed

lemma length_nat_digits: "length (nat_digits n) \<le> n + 1"
proof (induction n rule: nat_digits.induct)
  case (1 n)
  then show ?case by (subst nat_digits.simps) (auto simp: digit_char_def)
qed

definition reportable :: "request list \<Rightarrow> bool" where
  "reportable rs \<longleftrightarrow> (\<forall>r\<in>set rs. plain (rq_message r) \<and> length (rq_message r) \<le> MaxReportMessageBytes)"

lemma reportable_simps:
  "reportable (adding c n p m) \<longleftrightarrow> (c \<longrightarrow> plain m \<and> length m \<le> MaxReportMessageBytes)"
  "reportable (refusing c n m) \<longleftrightarrow> (c \<longrightarrow> plain m \<and> length m \<le> MaxReportMessageBytes)"
  "reportable (rs @ rs') \<longleftrightarrow> reportable rs \<and> reportable rs'" "reportable []"
  by (auto simp: reportable_def adding_def refusing_def)

lemma reportable_commands: "reportable (command_requests byIndex i cs)"
proof (induction cs arbitrary: i)
  case Nil
  then show ?case by (simp add: reportable_simps)
next
  case (Cons c cs)
  have "plain (command_message c items) \<and> length (command_message c items) \<le> MaxReportMessageBytes" for items
    by (simp add: command_message_def plain_def of_char_def split: list.split)
  with Cons show ?case by (simp add: reportable_simps)
qed

lemma policy_failures_bound:
  "blockingFailures (fold (policy_observe e k) obs t) \<le> blockingFailures t + length obs \<and>
   advisoryFailures (fold (policy_observe e k) obs t) \<le> advisoryFailures t + length obs"
proof (induction obs arbitrary: t)
  case Nil
  then show ?case by simp
next
  case (Cons ob obs)
  have "blockingFailures (policy_observe e k ob t) \<le> Suc (blockingFailures t)"
    "advisoryFailures (policy_observe e k ob t) \<le> Suc (advisoryFailures t)"
    by (simp_all add: policy_observe_def Let_def split: option.split)
  with Cons.IH [of "policy_observe e k ob t"] show ?case by (auto intro: order_trans)
qed

lemma policy_message:
  assumes "n \<le> 512" and "plain kind" and "length kind \<le> 16"
  shows "plain (policyFailureMessage n kind) \<and> length (policyFailureMessage n kind) \<le> MaxReportMessageBytes"
  using assms nat_digits_plain [of n] length_nat_digits [of n]
  by (simp add: policyFailureMessage_def plain_def of_char_def)

lemma reportable_policy:
  assumes "length obs \<le> 512"
  shows "reportable (policy_requests rules obs)"
proof -
  obtain ok t where t: "policy_tally_of rules obs = (ok, t)" by fastforce
  obtain e k ok0 where "policy_rules_loop [] [] True rules = (e, k, ok0)" by (metis prod_cases3)
  with t have t': "t = fold (policy_observe e k) obs
      \<lparr>seen_rules = [], blockingFailures = 0, advisoryFailures = 0, configValid = ok0\<rparr>"
    by (simp add: policy_tally_of_def Let_def)
  have b: "blockingFailures t \<le> 512" "advisoryFailures t \<le> 512"
    using policy_failures_bound [of e k obs "\<lparr>seen_rules = [], blockingFailures = 0, advisoryFailures = 0, configValid = ok0\<rparr>"]
      assms by (simp_all add: t')
  have k: "plain ''blocking''" "plain ''advisory''" by (simp_all add: plain_def of_char_def)
  note m = policy_message [OF b(1) k(1)] policy_message [OF b(2) k(2)]
  have "plain ''policy observations match the immutable contract''" "plain ''policy contract or policy evidence is missing''"
    by (simp_all add: plain_def of_char_def)
  with m show ?thesis
    unfolding policy_requests_def t Let_def prod.case reportable_simps by simp
qed

lemma reportable_gate: "reportable (gate_requests input)"
proof -
  have "length (PolicyChecks (normalizeObservations ob)) \<le> 512" for ob
    by (simp add: normalizeObservations_def)
  then have p: "reportable (policy_requests rules (PolicyChecks (normalizeObservations ob)))" for rules ob
    by (rule reportable_policy)
  have "reportable (bounds_requests input)" "reportable (shape_requests input obs)"
    "reportable (configuration_requests req)" for obs req
    unfolding bounds_requests_def shape_requests_def configuration_requests_def reportable_simps
    by (simp_all add: plain_def of_char_def)
  moreover have "reportable (requirement_requests input obs)" for obs
    unfolding requirement_requests_def reportable_simps Let_def by (simp add: plain_def of_char_def)
  moreover have "reportable (evaluation_requests input obs)" for obs
    unfolding evaluation_requests_def reportable_simps Let_def case_prod_unfold
    by (simp add: plain_def of_char_def reportable_commands)
  ultimately show ?thesis
    unfolding gate_requests_def Let_def reportable_simps using p by blast
qed

lemma check_names_tokens: "list_all validCheckName (check_names many)"
proof -
  have "list_all token_shape (check_names many)"
    unfolding check_names_def command_names
    by (simp add: token_shape_def token_start_def token_rest_def of_char_def)
  then show ?thesis
    using check_names_valid [of many] by (auto simp: list_all_iff validCheckName_def valid_name_def)
qed

lemma gate_check_names:
  assumes "c \<in> set (d_Checks (Evaluate input))"
  shows "validCheckName (gc_Name c)" and "validateCheck c = None"
proof -
  obtain r where r: "r \<in> set (gate_requests input)" "c = request_check r"
    using assms by (auto simp: Evaluate_requests)
  have "rq_name r \<in> set (check_names (length (in_Commands input) > MaxCommands))"
    using r(1) subseq_set [OF gate_requests_names [of input]] by auto
  then show v: "validCheckName (gc_Name c)"
    using check_names_tokens by (auto simp: r(2) request_check_def list_all_iff)
  have m: "plain (rq_message r)" "length (rq_message r) \<le> MaxReportMessageBytes"
    using reportable_gate r(1) by (auto simp: reportable_def)
  then have msg: "gc_Message c = rq_message r" by (simp add: r(2) request_check_def)
  have "CHR 0x00 \<notin> set (gc_Name c)"
    using v by (auto simp: validCheckName_def token_shape_def token_rest_def token_start_def list_all_iff of_char_def
        split: list.splits)
  then show "validateCheck c = None"
    using v m plain_utf8 [OF m(1)] plain_no_nul [OF m(1)]
    by (auto simp: validateCheck_def msg validCheckName_def)
qed

lemma decision_loop_None:
  "decision_loop names cs = None \<longleftrightarrow> (\<forall>c\<in>set cs. validateCheck c = None) \<and> distinct (map gc_Name cs) \<and>
     set names \<inter> gc_Name ` set cs = {}"
  by (induction cs arbitrary: names) (auto split: option.split)

lemma Evaluate_verdict: "d_Verdict (Evaluate input) = (if \<exists>c\<in>set (d_Checks (Evaluate input)). \<not> gc_Passed c then Rejected else Accepted)"
proof -
  have "d_Verdict (Evaluate input) = Accepted \<or> d_Verdict (Evaluate input) = Rejected"
    by (simp add: Evaluate_def Let_def case_prod_unfold)
  moreover have "(\<exists>c\<in>set (d_Checks (Evaluate input)). \<not> gc_Passed c) \<longleftrightarrow> d_Verdict (Evaluate input) \<noteq> Accepted"
    using refused_not_passed unfolding Evaluate_requests by (auto simp: request_check_def)
  ultimately show ?thesis by auto
qed

lemma Evaluate_checks:
  "d_Checks (Evaluate input) \<noteq> []" "length (d_Checks (Evaluate input)) \<le> MaxChecks"
  "distinct (map gc_Name (d_Checks (Evaluate input)))"
proof -
  have "map gc_Name (d_Checks (Evaluate input)) = map rq_name (gate_requests input)"
    by (simp add: Evaluate_requests request_check_def)
  then show "distinct (map gc_Name (d_Checks (Evaluate input)))"
    using gate_requests_room [of input] by (simp add: room_for_def)
  show "d_Checks (Evaluate input) \<noteq> []" "length (d_Checks (Evaluate input)) \<le> MaxChecks"
    using gate_requests_nonempty gate_requests_room [of input] by (simp_all add: Evaluate_requests room_for_def)
qed

text \<open>The records of the commands carry their index and are complete or empty.\<close>

definition record_fits :: "nat \<Rightarrow> report_command \<Rightarrow> bool" where
  "record_fits i c \<longleftrightarrow> rc_Index c = int i \<and> validSHA256Digest (rc_ConfigDigest c) \<and>
     (if rc_Observed c then rc_ExitCode c \<noteq> None \<and> validEvidenceDigest (rc_EvidenceDigest c) \<and> validDuration (rc_DurationMillis c)
      else rc_ExitCode c = None \<and> rc_EvidenceDigest c = [] \<and> rc_DurationMillis c = None)"

lemma validSHA256_sha256 [simp]: "validSHA256Digest (sha256_digest s)"
  using sha256_hex_lower [of s] by (simp add: validSHA256Digest_def sha256_digest_def)

lemma digestVerifyCommand_valid [simp]: "validSHA256Digest (digestVerifyCommand c)"
proof (cases "validVerifyCommand c")
  case True
  then show ?thesis by (simp add: digestVerifyCommand_def)
next
  case False
  moreover have "lower_hex (CHR ''0'')" by (simp add: lower_hex_def of_char_def)
  ultimately show ?thesis by (simp add: digestVerifyCommand_def validSHA256Digest_def list_all_iff)
qed

lemma command_record_fits: "record_fits i (command_record i c items)"
  by (auto simp: record_fits_def command_record_def Let_def valid_evidence_def split: list.split)

lemma command_loop_records:
  "list_all2 record_fits [i..<i + length cs] (fst (command_loop byIndex i cs bad st))"
proof (induction cs arbitrary: i bad st)
  case Nil
  then show ?case by simp
next
  case (Cons c cs)
  have "[i..<i + length (c # cs)] = i # [Suc i..<Suc i + length cs]" by (simp add: upt_conv_Cons del: upt_Suc)
  then show ?case
    using Cons.IH [of "Suc i"] command_record_fits by (simp add: Let_def case_prod_unfold del: upt_Suc)
qed

lemma commandRecords_loop:
  assumes "indexed_evidence input (normalizeObservations (in_Observations input)) = (byIndex, bad)"
  shows "\<exists>st. commandRecords (Evaluate input) = fst (command_loop byIndex 0 (take MaxCommands (in_Commands input)) bad st)"
  using assms
  unfolding Evaluate_def gate_checks_def run_commands_def evaluateCommands_def indexed_evidence_def Let_def case_prod_unfold
  by auto

lemma Evaluate_records:
  "list_all2 record_fits [0..<min (length (in_Commands input)) MaxCommands] (commandRecords (Evaluate input))"
proof -
  obtain byIndex bad where e: "indexed_evidence input (normalizeObservations (in_Observations input)) = (byIndex, bad)"
    by fastforce
  from commandRecords_loop [OF e] command_loop_records [of 0 "take MaxCommands (in_Commands input)"]
  show ?thesis by (auto simp: min.commute)
qed

lemma record_loop_fits:
  "list_all2 record_fits [i..<i + n] rs \<Longrightarrow> i + n \<le> MaxCommands \<Longrightarrow> (\<forall>p. previous = Some p \<longrightarrow> p < int i) \<Longrightarrow>
     record_loop previous rs = None"
proof (induction n arbitrary: i rs previous)
  case 0
  then show ?case by simp
next
  case (Suc n)
  have u: "[i..<i + Suc n] = i # [Suc i..<Suc i + n]" by (simp add: upt_conv_Cons del: upt_Suc)
  obtain c cs where rs: "rs = c # cs" and c: "record_fits i c" and cs: "list_all2 record_fits [Suc i..<Suc i + n] cs"
    using Suc.prems(1) unfolding u by (auto simp: list_all2_Cons1)
  have "record_loop (Some (int i)) cs = None" using Suc.IH [OF cs] Suc.prems(2) by simp
  then show ?case using c Suc.prems(2,3) by (auto simp: rs record_fits_def split: if_splits)
qed

lemma record_indices: "list_all2 record_fits is rs \<Longrightarrow> map rc_Index rs = map int is"
  by (induction rule: list_all2_induct) (auto simp: record_fits_def)

lemma records_canonical: "canonicalizeCommands (commandRecords (Evaluate input)) = Inr (commandRecords (Evaluate input))"
proof -
  let ?rs = "commandRecords (Evaluate input)" and ?n = "min (length (in_Commands input)) MaxCommands"
  note fits = Evaluate_records [of input]
  have len: "length ?rs = ?n" using list_all2_lengthD [OF fits] by simp
  have "sorted_wrt (<) (map rc_Index ?rs)"
    unfolding record_indices [OF fits] by (simp add: sorted_wrt_map)
  then have "sorted_wrt (\<lambda>c d. \<not> commandLess d c) ?rs"
    by (auto simp: sorted_wrt_map commandLess_def intro: sorted_wrt_mono_rel [rotated])
  then have "sort_slice commandLess ?rs = ?rs" by (rule record_order.sort_ordered)
  moreover have "record_loop None ?rs = None" using fits by (intro record_loop_fits [of 0 ?n]) auto
  ultimately show ?thesis using len by (simp add: canonicalizeCommands_def)
qed

lemma decision_valid: "validateDecision (Evaluate input) = None"
proof -
  have "length (commandRecords (Evaluate input)) \<le> MaxCommands"
    using list_all2_lengthD [OF Evaluate_records [of input]] by simp
  moreover have "decision_loop [] (d_Checks (Evaluate input)) = None"
    using Evaluate_checks(3) gate_check_names(2) by (auto simp: decision_loop_None)
  ultimately show ?thesis
    using Evaluate_checks(1,2) [of input]
    by (simp add: validateDecision_def Evaluate_verdict list_ex_iff)
qed

end
