(* ===== verification/Report_Building.thy ===== *)
theory Report_Building
  imports Report_Canonical
begin

text \<open>
  From a decision to a signed report: every decision of the gate can be reported, with its own
  verdict, checks and evidence; a report signed by the gate verifies; and an accepted report
  that verifies under a trusted key has no failed check.
\<close>

section \<open>The parts of a built report\<close>

lemma summary_paths_spec:
  "distinct (summary_paths seen_paths ps) \<and> set (summary_paths seen_paths ps) = {p \<in> set ps. validRepoPath p} - set seen_paths \<and>
   length (summary_paths seen_paths ps) \<le> length ps"
  by (induction ps arbitrary: seen_paths) (auto intro: le_SucI)

lemma path_sum: "\<forall>p\<in>set ps. validRepoPath p \<Longrightarrow> sum_list (map length ps) \<le> length ps * MaxPathBytes"
proof (induction ps)
  case Nil
  then show ?case by simp
next
  case (Cons p ps)
  then have "length p \<le> MaxPathBytes" by (auto simp: validRepoPath_def split: if_splits)
  with Cons show ?case by simp
qed

lemma summary_canonical:
  "canonicalizeEvidence (summary (normalizeObservations ob)) = Inr (summary (normalizeObservations ob))"
proof -
  let ?s = "summary (normalizeObservations ob)" and ?ps = "ChangedPaths (normalizeObservations ob)"
  let ?u = "summary_paths [] ?ps"
  have paths: "ev_ChangedPaths ?s = sort ?u" by (simp add: summary_def)
  have n: "length ?ps \<le> MaxChangedPaths" by (simp add: normalizeObservations_def)
  have u: "distinct ?u" "\<forall>p\<in>set ?u. validRepoPath p" "length ?u \<le> MaxChangedPaths"
    using summary_paths_spec [of "[]" ?ps] n by auto
  have "sum_list (map length ?u) \<le> length ?u * MaxPathBytes" by (rule path_sum [OF u(2)])
  also have "\<dots> \<le> MaxReportChangedPathBytes"
    using u(3) unfolding MaxReportChangedPathBytes_def by (rule mult_right_mono) simp
  finally have "path_bytes_loop 0 (sort ?u) = None"
    unfolding path_bytes_loop_sort using u(2) by (simp add: path_bytes_loop_None)
  moreover have "\<not> repeated None (sort ?u)" using u(1) by (simp add: repeated_sorted)
  moreover have "\<not> (case ev_CoverageDelta ?s of None \<Rightarrow> False | Some c \<Rightarrow> normalizeDecimal c = None)"
    and cov: "(case ev_CoverageDelta ?s of None \<Rightarrow> None | Some c \<Rightarrow> normalizeDecimal c) = ev_CoverageDelta ?s"
    by (auto simp: summary_def normalizeDecimal_idem split: option.split)
  moreover have "ev_FilesChanged ?s = None \<or> validCounter (ev_FilesChanged ?s) MaxObservedFiles"
    "ev_LinesChanged ?s = None \<or> validCounter (ev_LinesChanged ?s) MaxObservedLines"
    by (simp_all add: summary_def)
  moreover have "\<not> list_ex (\<lambda>p. \<not> validRepoPath p) ?u" using u(2) by (simp add: list_ex_iff)
  moreover have "?s\<lparr>ev_ChangedPaths := sort ?u, ev_CoverageDelta := ev_CoverageDelta ?s\<rparr> = ?s"
    using paths by (cases ?s) simp
  ultimately show ?thesis
    unfolding canonicalizeEvidence_def Let_def guard_Inr paths cov using u(3) by simp
qed

lemma gateCheckLess_key: "gateCheckLess = (\<lambda>c d. gc_Name c < gc_Name d)"
  by (intro ext) (simp add: gateCheckLess_def)

lemma sort_gate_checks: "sort_slice gateCheckLess cs = sort_key gc_Name cs"
  unfolding gateCheckLess_key sort_slice_key ..

lemma checks_canonical:
  "canonicalizeChecks (d_Checks (Evaluate input)) = Inr (sort_slice gateCheckLess (d_Checks (Evaluate input)))"
proof -
  let ?cs = "d_Checks (Evaluate input)"
  note k = sort_gate_checks [of ?cs]
  have "mset (map gc_Name (sort_key gc_Name ?cs)) = mset (map gc_Name ?cs)" by simp
  then have "distinct (map gc_Name (sort_key gc_Name ?cs))"
    using Evaluate_checks(3) [of input] mset_eq_imp_distinct_iff by blast
  then have "\<not> repeated None (map gc_Name (sort_key gc_Name ?cs))" by (simp add: repeated_sorted)
  then show ?thesis
    using Evaluate_checks(2) [of input] gate_check_names(2) [of _ input]
    by (simp add: canonicalizeChecks_def Let_def guard_Inr first_error_map k)
qed

section \<open>The execution-only score of a decision\<close>

definition as_execution :: "gate_check \<Rightarrow> execution_check" where
  "as_execution c = \<lparr>xc_Name = gc_Name c, xc_Passed = gc_Passed c, xc_Blocking = True\<rparr>"

lemma sort_as_execution:
  "sort_slice checkLess (map as_execution cs) = map as_execution (sort_slice gateCheckLess cs)"
proof -
  have "insert_slice checkLess (as_execution c) (map as_execution ds) = map as_execution (insert_slice gateCheckLess c ds)" for c ds
    by (induction ds) (auto simp: checkLess_def gateCheckLess_def as_execution_def)
  then show ?thesis by (induction cs) auto
qed

lemma execution_loop_fresh:
  "sorted_wrt (<) (map xc_Name cs) \<Longrightarrow> (\<forall>c\<in>set cs. validCheckName (xc_Name c) \<and> (\<forall>p. previous = Some p \<longrightarrow> p < xc_Name c)) \<Longrightarrow>
     execution_loop i previous cs = Inr (failing cs)"
  by (induction cs arbitrary: i previous) (auto simp: failing_def split: sum.split)

definition decision_score :: "decision \<Rightarrow> int" where
  "decision_score d = (if Decision_Accepted d then GateScoreScale else 0)"

lemma execution_normal:
  "normalizeExecution \<lparr>xs_Score = decision_score (Evaluate input), xs_Checks = map as_execution (d_Checks (Evaluate input))\<rparr> =
     Inr (\<lparr>xs_Score = decision_score (Evaluate input),
            xs_Checks = map as_execution (sort_slice gateCheckLess (d_Checks (Evaluate input)))\<rparr>,
          failing (map as_execution (sort_slice gateCheckLess (d_Checks (Evaluate input)))))"
proof -
  let ?cs = "d_Checks (Evaluate input)"
  let ?es = "map as_execution (sort_slice gateCheckLess ?cs)"
  note k = sort_gate_checks [of ?cs]
  have names: "map xc_Name ?es = map gc_Name (sort_key gc_Name ?cs)" by (simp add: k as_execution_def)
  have "mset (map gc_Name (sort_key gc_Name ?cs)) = mset (map gc_Name ?cs)" by simp
  then have "distinct (map xc_Name ?es)"
    unfolding names using Evaluate_checks(3) [of input] mset_eq_imp_distinct_iff by blast
  moreover have "sorted (map xc_Name ?es)" unfolding names by simp
  ultimately have "sorted_wrt (<) (map xc_Name ?es)" by (simp add: strict_sorted_iff)
  then have "execution_loop 0 None ?es = Inr (failing ?es)"
    using gate_check_names(1) [of _ input] by (intro execution_loop_fresh) (auto simp: as_execution_def)
  then show ?thesis
    using Evaluate_checks(1,2) [of input]
    by (simp add: normalizeExecution_def decision_score_def outside_def sort_as_execution Let_def)
qed

definition decision_reasons :: "decision \<Rightarrow> string list" where
  "decision_reasons d = sorted_list_of_set
     (set (failing (map as_execution (d_Checks d))) \<union> (if Decision_Accepted d then {} else {''score.minimum''}))"

definition decision_scoring :: "decision \<Rightarrow> scoring_result" where
  "decision_scoring d = \<lparr>sr_SchemaVersion = ScoringSchema,
     sr_Signals = \<lparr>ExecutionWeight = GateScoreScale, Critic = None, MinScore = GateScoreScale\<rparr>,
     sr_ExecutionScore = decision_score d, sr_CriticScore = GateScoreScale, sr_WeightedScore = decision_score d,
     sr_ExecutionChecks = map as_execution (sort_slice gateCheckLess (d_Checks d)), sr_CriticResult = None,
     sr_BlockingReasons = Some (decision_reasons d),
     sr_Verdict = (if Decision_Accepted d then ScoreAccepted else ScoreRejected)\<rparr>"

lemma set_failing: "set (failing (map as_execution cs)) = (\<lambda>c. ''execution.'' @ gc_Name c) ` {c \<in> set cs. \<not> gc_Passed c}"
proof -
  have "failing (map as_execution cs) = map (\<lambda>c. ''execution.'' @ gc_Name c) (filter (\<lambda>c. \<not> gc_Passed c) cs)"
    by (induction cs) (simp_all add: failing_def as_execution_def)
  then show ?thesis by (simp only: set_map set_filter)
qed

lemma decision_reason_ok: "q \<in> set (failing (map as_execution (d_Checks (Evaluate input)))) \<Longrightarrow> reason_ok q"
  using gate_check_names(1) [of _ input]
  by (auto simp: set_failing intro!: reason_ok_token [of _ "''execution.''", simplified] simp: of_char_def)

lemma length_failing: "length (failing cs) \<le> length cs"
  by (simp add: failing_def)

lemma decision_reasons_normal:
  assumes "set xs = set (failing (map as_execution (d_Checks (Evaluate input)))) \<union>
    (if Decision_Accepted (Evaluate input) then {} else {''score.minimum''})"
  shows "normalizeReasons xs = decision_reasons (Evaluate input)"
    and "length (decision_reasons (Evaluate input)) \<le> MaxBlockingReasons"
proof -
  let ?f = "failing (map as_execution (d_Checks (Evaluate input)))"
  have "{x \<in> set xs. reason_ok x} = set xs"
    using decision_reason_ok [of _ input] reason_ok_fixed unfolding assms by (auto split: if_splits)
  then have n: "normalizeReasons xs = take MaxBlockingReasons (decision_reasons (Evaluate input))"
    by (simp add: normalizeReasons_eq decision_reasons_def assms)
  have "card (set ?f \<union> (if Decision_Accepted (Evaluate input) then {} else {''score.minimum''})) \<le> card (set ?f) + 1"
    by (rule order_trans [OF card_Un_le]) simp
  also have "\<dots> \<le> length ?f + 1" by (simp add: card_length)
  also have "\<dots> \<le> MaxBlockingReasons"
    using length_failing [of "map as_execution (d_Checks (Evaluate input))"] Evaluate_checks(2) [of input] by simp
  finally show l: "length (decision_reasons (Evaluate input)) \<le> MaxBlockingReasons"
    by (simp add: decision_reasons_def)
  show "normalizeReasons xs = decision_reasons (Evaluate input)" using n l by simp
qed

lemma length_decision_reasons: "length (decision_reasons (Evaluate input)) \<le> MaxBlockingReasons"
  by (rule decision_reasons_normal(2) [of "failing (map as_execution (d_Checks (Evaluate input))) @
    (if Decision_Accepted (Evaluate input) then [] else [''score.minimum''])"]) simp

lemma Accepted_all: "Decision_Accepted (Evaluate input) \<longleftrightarrow> (\<forall>c\<in>set (d_Checks (Evaluate input)). gc_Passed c)"
  by (auto simp: Decision_Accepted_def Evaluate_verdict)

lemma decision_reasons_empty: "decision_reasons (Evaluate input) = [] \<longleftrightarrow> Decision_Accepted (Evaluate input)"
  using Accepted_all [of input] by (auto simp: decision_reasons_def set_failing)

lemma decision_weight:
  "weightedScore (decision_score d) \<lparr>ExecutionWeight = GateScoreScale, Critic = None, MinScore = GateScoreScale\<rparr> GateScoreScale =
     Inr (decision_score d)"
  by (simp add: weightedScore_def decision_score_def go_div_def to_int32_def)

lemma normalizeSignals_none:
  "normalizeSignals None = Inr \<lparr>ExecutionWeight = GateScoreScale, Critic = None, MinScore = GateScoreScale\<rparr>"
  "normalizeSignals (Some \<lparr>ExecutionWeight = GateScoreScale, Critic = None, MinScore = GateScoreScale\<rparr>) =
     Inr \<lparr>ExecutionWeight = GateScoreScale, Critic = None, MinScore = GateScoreScale\<rparr>"
  by (simp_all add: normalizeSignals_def outside_def)

lemma critic_part_none:
  "critic_part e1 e2 \<lparr>ExecutionWeight = GateScoreScale, Critic = None, MinScore = GateScoreScale\<rparr> None = Inr (None, GateScoreScale, [])"
  by (simp add: critic_part_def)

lemma set_failing_sort:
  "set (failing (map as_execution (sort_slice gateCheckLess cs))) = set (failing (map as_execution cs))"
  by (simp add: set_failing)

lemma decision_scoring_canonical: "canonicalizeResult (decision_scoring (Evaluate input)) = Inr (decision_scoring (Evaluate input))"
proof -
  let ?d = "Evaluate input" and ?f = "failing (map as_execution (sort_slice gateCheckLess (d_Checks (Evaluate input))))"
  note x = normalizeExecution_Inr(7) [OF execution_normal [of input]]
  have low: "decision_score ?d < GateScoreScale \<longleftrightarrow> \<not> Decision_Accepted ?d" by (simp add: decision_score_def)
  have r: "(if \<not> Decision_Accepted ?d then normalizeReasons (normalizeReasons (?f @ []) @ [''score.minimum'']) else normalizeReasons (?f @ []))
      = decision_reasons ?d"
  proof (cases "Decision_Accepted ?d")
    case True
    then show ?thesis by (simp add: decision_reasons_normal(1) set_failing_sort)
  next
    case False
    have "length ?f \<le> MaxBlockingReasons"
      using length_failing [of "map as_execution (sort_slice gateCheckLess (d_Checks ?d))"] Evaluate_checks(2) [of input] by simp
    then have "normalizeReasons (normalizeReasons ?f @ [''score.minimum'']) = normalizeReasons (?f @ [''score.minimum''])"
      by (rule normalizeReasons_short)
    with False show ?thesis by (simp add: decision_reasons_normal(1) set_failing_sort)
  qed
  have v: "(if decision_reasons ?d \<noteq> [] then ScoreRejected else ScoreAccepted) =
      (if Decision_Accepted ?d then ScoreAccepted else ScoreRejected)"
    by (simp add: decision_reasons_empty)
  show ?thesis
    unfolding canonicalizeResult_def decision_scoring_def scoring_result.simps normalizeSignals_none sum.case
      x prod.case critic_part_none execution_signal.simps decision_weight Let_def signals_spec.simps low r v
    by simp
qed

lemma decision_scored: "Score_Evaluate (execution_only (Evaluate input)) = Inr (decision_scoring (Evaluate input))"
proof -
  let ?d = "Evaluate input" and ?f = "failing (map as_execution (sort_slice gateCheckLess (d_Checks (Evaluate input))))"
  have x: "execution_only ?d = \<lparr>si_Signals = None,
      si_Execution = \<lparr>xs_Score = decision_score ?d, xs_Checks = map as_execution (d_Checks ?d)\<rparr>, si_Critic = None\<rparr>"
    by (simp add: execution_only_def decision_score_def as_execution_def [abs_def])
  have low: "decision_score ?d < GateScoreScale \<longleftrightarrow> \<not> Decision_Accepted ?d" by (simp add: decision_score_def)
  have r: "normalizeReasons (if \<not> Decision_Accepted ?d then (?f @ []) @ [''score.minimum''] else ?f @ []) = decision_reasons ?d"
    by (rule decision_reasons_normal(1)) (simp add: set_failing_sort)
  have v: "(if decision_reasons ?d \<noteq> [] then ScoreRejected else ScoreAccepted) =
      (if Decision_Accepted ?d then ScoreAccepted else ScoreRejected)"
    by (simp add: decision_reasons_empty)
  have "Score_Evaluate (execution_only ?d) = canonicalizeResult (decision_scoring ?d)"
    unfolding Score_Evaluate_def x scoring_input.simps normalizeSignals_none sum.case execution_normal prod.case
      critic_part_none execution_signal.simps decision_weight Let_def signals_spec.simps low r v decision_scoring_def ..
  then show ?thesis by (simp add: decision_scoring_canonical)
qed

section \<open>The built report\<close>

lemma json_array_bound:
  assumes "\<forall>x\<in>set xs. length x \<le> b"
  shows "length (json_array xs) \<le> 2 + length xs * (b + 1)"
proof -
  have "sum_list (map (\<lambda>x. length x + 1) xs) \<le> length xs * (b + 1)"
    using assms by (induction xs) auto
  with length_json_join [of xs] show ?thesis by (simp add: json_array_def)
qed

lemma decision_scoring_size: "length (marshal_scoring (decision_scoring (Evaluate input))) \<le> MaxScoringBytes"
proof -
  let ?d = "Evaluate input"
  let ?check = "\<lambda>c. json_object [(''name'', json_string (xc_Name c)), (''passed'', json_bool (xc_Passed c)),
    (''blocking'', json_bool (xc_Blocking c))]"
  have "length (?check c) \<le> 1000" if "c \<in> set (map as_execution (sort_slice gateCheckLess (d_Checks ?d)))" for c
  proof -
    have "length (xc_Name c) \<le> 128"
      using that gate_check_names(1) [of _ input] by (auto simp: as_execution_def validCheckName_def)
    then show ?thesis
      using length_json_string [of "xc_Name c"] short_bool [of "xc_Passed c"] short_bool [of "xc_Blocking c"]
      by (intro object_bound) simp
  qed
  then have c: "length (json_array (map ?check (sr_ExecutionChecks (decision_scoring ?d)))) \<le> 66000"
    using Evaluate_checks(2) [of input] mult_right_mono [of "length (d_Checks ?d)" 64 1001]
    by (intro order_trans [OF json_array_bound [of _ 1000]]) (auto simp: decision_scoring_def)
  have "length (json_string q) \<le> 1538" if "q \<in> set (decision_reasons ?d)" for q
  proof -
    have "reason_ok q"
      using that decision_reason_ok [of q input] reason_ok_fixed by (auto simp: decision_reasons_def split: if_splits)
    then show ?thesis using length_json_string [of q] by (auto simp: reason_ok_def)
  qed
  then have r: "length (json_slice json_string (Some (decision_reasons ?d))) \<le> 500000"
    unfolding json_slice_def option.case
    using length_decision_reasons [of input]
    by (intro order_trans [OF json_array_bound [of _ 1538]]) auto
  have i: "length (json_int v) \<le> 10002" if "0 \<le> v" "v \<le> GateScoreScale" for v
    using length_json_int [of v] that by simp
  have s: "length (marshal_signals (sr_Signals (decision_scoring ?d))) \<le> 21000"
    unfolding marshal_signals_def
    by (rule object_bound) (use i [of GateScoreScale] in \<open>simp add: decision_scoring_def json_opt_def\<close>)
  have e: "length (json_int (decision_score ?d)) \<le> 10002" using i by (simp add: decision_score_def)
  have v: "length (json_string (verdict_text (sr_Verdict (decision_scoring ?d)))) \<le> 100"
    using length_json_string [of "''Accepted''"] length_json_string [of "''Rejected''"] by (simp add: decision_scoring_def)
  have z: "length (json_string ScoringSchema) \<le> 1000" using length_json_string [of ScoringSchema] by (simp add: ScoringSchema_def)
  show ?thesis
    unfolding marshal_scoring_def
    by (rule object_bound) (use c r s e v z i [of GateScoreScale] in \<open>simp add: decision_scoring_def json_opt_def\<close>)
qed

lemma binding_self: "binding_loop (map as_execution cs) cs"
  by (induction cs) (simp_all add: as_execution_def)

lemma binding_valid: "validateScoringBinding (decision_scoring (Evaluate input)) (Evaluate input) None [] = None"
  by (simp add: validateScoringBinding_def decision_scoring_def binding_self)

text \<open>The projection of the execution-only score.\<close>

definition decision_projection :: "decision \<Rightarrow> scoring_evidence" where
  "decision_projection d = \<lparr>sp_ResultDigest = sha256_digest (marshal_scoring (decision_scoring d)),
     sp_ExecutionWeight = GateScoreScale, sp_CriticWeight = 0, sp_MinScore = GateScoreScale,
     sp_ExecutionScore = decision_score d, sp_CriticScore = GateScoreScale, sp_WeightedScore = decision_score d,
     sp_BlockingReasons = decision_reasons d, sp_CriticRoute = None, sp_CorroborationDigest = []\<rparr>"

lemma decision_projected:
  assumes "cx_Scoring ctx = None"
  shows "scoringForReport ctx (Evaluate input) =
    Inr (decision_projection (Evaluate input), if Decision_Accepted (Evaluate input) then ScoreAccepted else ScoreRejected)"
proof -
  have b: "ScoringResultBytes (decision_scoring (Evaluate input)) = Inr (marshal_scoring (decision_scoring (Evaluate input)))"
    using decision_scoring_size [of input] by (simp add: ScoringResultBytes_def decision_scoring_canonical)
  have g: "ScoringResultDigest (decision_scoring (Evaluate input)) = Inr (sha256_digest (marshal_scoring (decision_scoring (Evaluate input))))"
    by (simp add: ScoringResultDigest_def b)
  show ?thesis
    unfolding scoringForReport_def assms option.case Let_def prod.case decision_scored sum.case b g binding_valid
    by (simp add: decision_projection_def decision_scoring_def)
qed

lemma projection_canonical:
  assumes "set cs = set (d_Checks (Evaluate input))"
  shows "canonicalizeScoring (decision_projection (Evaluate input)) cs = Inr (decision_projection (Evaluate input))"
proof -
  let ?d = "Evaluate input"
  have s: "sort (decision_reasons ?d) = decision_reasons ?d" "distinct (decision_reasons ?d)"
    by (simp_all add: decision_reasons_def sorted_sort_id)
  have elems: "set (decision_reasons ?d) = set (failing (map as_execution (d_Checks ?d))) \<union>
      (if Decision_Accepted ?d then {} else {''score.minimum''})"
    by (simp add: decision_reasons_def)
  have "\<not> list_ex (\<lambda>r. \<not> reason_ok r) (decision_reasons ?d)"
    using decision_reason_ok [of _ input] reason_ok_fixed by (auto simp: list_ex_iff elems split: if_splits)
  moreover have "\<not> repeated None (decision_reasons ?d)"
    using s repeated_sorted [of "decision_reasons ?d"] by (metis sorted_sort)
  moreover have "\<not> list_ex (\<lambda>c. \<not> gc_Passed c \<and> \<not> List.member (decision_reasons ?d) (''execution.'' @ gc_Name c)) cs"
  proof -
    have "\<forall>c\<in>set cs. gc_Passed c \<or> ''execution.'' @ gc_Name c \<in> set (decision_reasons ?d)"
      unfolding assms elems set_failing by blast
    then show ?thesis by (auto simp: list_ex_iff)
  qed
  moreover have "decision_score ?d = to_int32 (go_div (decision_score ?d * GateScoreScale + GateScoreScale * 0) GateScoreScale)"
    by (simp add: decision_score_def go_div_def to_int32_def)
  moreover have "scoring_bounds (decision_projection ?d)" "scoring_provenance (decision_projection ?d) = None"
    by (simp_all add: scoring_bounds_def scoring_provenance_def decision_projection_def decision_score_def outside_def refuse_def)
  moreover have "(decision_projection ?d)\<lparr>sp_BlockingReasons := decision_reasons ?d\<rparr> = decision_projection ?d"
    by (simp add: decision_projection_def)
  ultimately show ?thesis
    unfolding canonicalizeScoring_def Let_def guard_Inr using length_decision_reasons [of input] s(1)
    by (simp add: decision_projection_def)
qed

text \<open>A context that passes the checks on its own fields.\<close>

definition context_ok :: "report_context \<Rightarrow> bool" where
  "context_ok c \<longleftrightarrow> validRunUID (cx_RunUID c) \<and> validSHA256Digest (cx_SpecDigest c) \<and> validSHA256Digest (cx_PatchDigest c) \<and>
     baseSHA_shape (cx_BaseSHA c) \<and> validRunUID (cx_GateUID c) \<and> 0 < cx_GateGeneration c \<and>
     validImage (cx_RuntimeImage c) \<and> validImage (cx_VerifierImage c) \<and>
     (\<exists>hs. canonicalizeHelpers (cx_HelperImages c) = Inr hs) \<and> (\<exists>ss. canonicalizeSkills (cx_SkillDigests c) = Inr ss)"

text \<open>The report of a decision, with the collections given.\<close>

definition reported ::
  "report_context \<Rightarrow> decision \<Rightarrow> image_evidence list \<Rightarrow> string list \<Rightarrow> gate_check list \<Rightarrow> verification_report" where
  "reported ctx d h s c = \<lparr>vr_SchemaVersion = ReportSchemaVersion, vr_RunUID = cx_RunUID ctx,
     vr_SpecDigest = cx_SpecDigest ctx, vr_BaseSHA = cx_BaseSHA ctx, vr_PatchDigest = cx_PatchDigest ctx,
     vr_GateUID = cx_GateUID ctx, vr_GateGeneration = cx_GateGeneration ctx, vr_RuntimeImage = cx_RuntimeImage ctx,
     vr_VerifierImage = cx_VerifierImage ctx, vr_HelperImages = h, vr_SkillDigests = s, vr_Evidence = evidence d,
     vr_Commands = commandRecords d, vr_Checks = c, vr_Scoring = decision_projection d, vr_Verdict = d_Verdict d,
     builtByGate = True\<rparr>"

lemma built_report:
  fixes input :: gate_input
  assumes "context_ok ctx" and "cx_Scoring ctx = None"
    and h: "canonicalizeHelpers (cx_HelperImages ctx) = Inr hs" "canonicalizeSkills (cx_SkillDigests ctx) = Inr ss"
  defines "r \<equiv> reported ctx (Evaluate input) hs ss (sort_slice gateCheckLess (d_Checks (Evaluate input)))"
  shows "BuildReport ctx (Evaluate input) = Inr r" and "canonicalizeReport r = Inr r"
proof -
  let ?d = "Evaluate input" and ?cs = "sort_slice gateCheckLess (d_Checks (Evaluate input))"
  have ne: "?cs \<noteq> []" using Evaluate_checks(1) [of input] by simp
  have ev: "canonicalizeEvidence (evidence ?d) = Inr (evidence ?d)"
    using summary_canonical by (simp add: Evaluate_def Let_def case_prod_unfold)
  have sc: "canonicalizeScoring (decision_projection ?d) ?cs = Inr (decision_projection ?d)"
    by (rule projection_canonical) simp
  have sv: "to_verdict (scoringVerdictFromProjection (decision_projection ?d)) = d_Verdict ?d"
    using decision_reasons_empty [of input] Evaluate_verdict [of input]
    by (simp add: scoringVerdictFromProjection_def decision_projection_def decision_score_def Decision_Accepted_def split: if_splits)
  have tv: "to_verdict (if Decision_Accepted ?d then ScoreAccepted else ScoreRejected) = d_Verdict ?d"
    using Evaluate_verdict [of input] by (simp add: Decision_Accepted_def split: if_splits)
  have ex: "evaluated ?d" by (simp add: Evaluate_def Let_def case_prod_unfold)
  let ?raw = "reported ctx ?d (cx_HelperImages ctx) (cx_SkillDigests ctx) (d_Checks ?d)"
  have "report_identity ?raw = None"
    using assms(1) by (simp add: report_identity_def reported_def context_ok_def baseSHA_shape_def)
  then have c: "canonicalizeReport ?raw = Inr r"
    using ne h sv ev sc by (simp add: canonicalizeReport_def reported_def records_canonical checks_canonical r_def)
  have "BuildReport ctx ?d = canonicalizeReport ?raw"
    unfolding BuildReport_def decision_valid decision_projected [OF assms(2)] sum.case prod.case option.case tv reported_def
    by (simp add: ex)
  with c show "BuildReport ctx ?d = Inr r" by simp
  from c show "canonicalizeReport r = Inr r" by (rule canonicalizeReport_fixed)
qed

section \<open>A sample report\<close>

definition zero_digest :: string where
  "zero_digest = DigestPrefix @ replicate 64 (CHR ''0'')"

definition sample_ref :: string where
  "sample_ref = ''img@'' @ zero_digest"

definition sample_context :: report_context where
  "sample_context = \<lparr>cx_RunUID = ''run'', cx_SpecDigest = zero_digest, cx_BaseSHA = replicate 40 (CHR ''0''),
     cx_PatchDigest = zero_digest, cx_GateUID = ''gate'', cx_GateGeneration = 1,
     cx_RuntimeImage = sample_ref, cx_VerifierImage = sample_ref,
     cx_HelperImages = [\<lparr>im_Name = ''clone'', im_Digest = sample_ref\<rparr>], cx_SkillDigests = [], cx_Scoring = None\<rparr>"

text \<open>A run whose only requirement is one command, which passed.\<close>

definition passing_input :: gate_input where
  "passing_input = \<lparr>in_Scope = \<lparr>Paths = [], Forbidden = []\<rparr>,
     in_Requirements = \<lparr>ScopeRespected = False, TestStrength = TestStrengthNone, req_CoverageDelta = [],
       MaxFilesChanged = 0, MaxDiffLines = 0, NoBinaryFiles = False\<rparr>,
     in_Commands = [\<lparr>Argv = [], Shell = Some ''make''\<rparr>], in_PolicyRules = [],
     in_Observations = \<lparr>ChangedPaths = [], FilesChanged = None, LinesChanged = None, HasBinaryFiles = None,
       CoverageDelta = None, NewTestsFailOnBase = None, Commands = [sample_item 0], PolicyChecks = []\<rparr>\<rparr>"

lemma hex_zero: "lower_hex (CHR ''0'')"
  by (simp add: lower_hex_def of_char_def)

lemma zero_digest_valid: "validSHA256Digest zero_digest"
  using hex_zero by (simp add: validSHA256Digest_def zero_digest_def list_all_iff)

lemma sample_ref_parts: "imageDigest_shape sample_ref" "length sample_ref = 75" "utf8_valid sample_ref"
  "\<not> contains_any sample_ref blank_bytes"
proof -
  show "imageDigest_shape sample_ref"
    using hex_zero by (simp add: imageDigest_shape_def sample_ref_def zero_digest_def list_all_iff Let_def)
  show "length sample_ref = 75" by (simp add: sample_ref_def zero_digest_def)
  have s: "set sample_ref = set ''img@sha256:0''" by (simp add: sample_ref_def zero_digest_def)
  have "\<forall>c\<in>set ''img@sha256:0''. \<not> digit7 c" "set ''img@sha256:0'' \<inter> set blank_bytes = {}" by simp_all
  then show "utf8_valid sample_ref" "\<not> contains_any sample_ref blank_bytes"
    unfolding s [symmetric] contains_any_iff by (simp_all only: utf8_valid_ascii list_all_iff simp_thms)
qed

lemma sample_context_ok: "context_ok sample_context"
proof -
  have u: "validRunUID ''run''" "validRunUID ''gate''"
    by (simp_all add: validRunUID_def utf8_valid_ascii contains_any_iff)
  have i: "validImage sample_ref" unfolding validImage_def using sample_ref_parts by simp
  have "imageRole_shape ''clone''" by (simp add: imageRole_shape_def lower_alnum_def of_char_def)
  then have "validHelperImage \<lparr>im_Name = ''clone'', im_Digest = sample_ref\<rparr>"
    unfolding validHelperImage_def using sample_ref_parts by simp
  then have "\<exists>hs. canonicalizeHelpers (cx_HelperImages sample_context) = Inr hs"
    by (simp add: canonicalizeHelpers_def sample_context_def)
  then show ?thesis
    using u i zero_digest_valid hex_zero
    by (simp add: context_ok_def sample_context_def baseSHA_shape_def list_all_iff canonicalizeSkills_def)
qed

lemma built_parts_size:
  assumes "canonicalizeReport r = Inr r"
  shows "length (json_nil_slice marshal_check (vr_Checks r)) \<le> 500000"
    and "length (json_nil_slice json_string (sp_BlockingReasons (vr_Scoring r))) \<le> 500000"
proof -
  obtain checked scoring where c: "canonicalizeChecks (vr_Checks r) = Inr checked"
    and s: "canonicalizeScoring (vr_Scoring r) checked = Inr scoring"
    using assms by (rule canonicalizeReport_InrE) blast
  have n: "length (vr_Checks r) \<le> 64" and v: "\<forall>c\<in>set (vr_Checks r). validateCheck c = None"
    using c by (auto simp: canonicalizeChecks_def guard_Inr first_error_map split: if_splits)
  have "length (marshal_check c) \<le> 7500" if "c \<in> set (vr_Checks r)" for c
  proof -
    have "length (gc_Name c) \<le> 128" "length (gc_Message c) \<le> 1024"
      using v that by (auto simp: validateCheck_def)
    then show ?thesis
      unfolding marshal_check_def
      using length_json_string [of "gc_Name c"] length_json_string [of "gc_Message c"] short_bool [of "gc_Passed c"]
      by (intro object_bound) (simp add: json_nonempty_def)
  qed
  then show "length (json_nil_slice marshal_check (vr_Checks r)) \<le> 500000"
    unfolding json_nil_slice_def json_slice_def clone_slice_def
    using n by (auto intro!: order_trans [OF json_array_bound [of _ 7500]])
  have m: "length (sp_BlockingReasons (vr_Scoring r)) \<le> 320" and ok: "\<forall>q\<in>set (sp_BlockingReasons (vr_Scoring r)). reason_ok q"
    using s by (auto simp: canonicalizeScoring_def Let_def guard_Inr list_ex_iff)
  have "length (json_string q) \<le> 1538" if "q \<in> set (sp_BlockingReasons (vr_Scoring r))" for q
    using ok that length_json_string [of q] by (auto simp: reason_ok_def)
  then show "length (json_nil_slice json_string (sp_BlockingReasons (vr_Scoring r))) \<le> 500000"
    unfolding json_nil_slice_def json_slice_def clone_slice_def
    using m by (auto intro!: order_trans [OF json_array_bound [of _ 1538]])
qed

definition sample_report :: verification_report where
  "sample_report = reported sample_context (Evaluate passing_input) (cx_HelperImages sample_context) []
     (sort_slice gateCheckLess (d_Checks (Evaluate passing_input)))"

lemma sample_built:
  "BuildReport sample_context (Evaluate passing_input) = Inr sample_report" "canonicalizeReport sample_report = Inr sample_report"
proof -
  have s: "cx_Scoring sample_context = None" "canonicalizeSkills (cx_SkillDigests sample_context) = Inr []"
    by (simp_all add: sample_context_def canonicalizeSkills_def)
  obtain hs where "canonicalizeHelpers (cx_HelperImages sample_context) = Inr hs"
    using sample_context_ok by (auto simp: context_ok_def)
  moreover from this have "hs = cx_HelperImages sample_context"
    by (auto simp: canonicalizeHelpers_def sample_context_def Let_def guard_Inr)
  ultimately have h: "canonicalizeHelpers (cx_HelperImages sample_context) = Inr (cx_HelperImages sample_context)" by simp
  show "BuildReport sample_context (Evaluate passing_input) = Inr sample_report" "canonicalizeReport sample_report = Inr sample_report"
    using built_report [OF sample_context_ok s(1) h s(2), where input = passing_input] by (simp_all add: sample_report_def)
qed

lemma sample_item_valid: "valid_evidence (sample_item i)"
proof -
  have "lower_hex (CHR ''a'')" by (simp add: lower_hex_def of_char_def)
  then show ?thesis
    by (simp add: valid_evidence_def sample_item_def sample_digest_def validEvidenceDigest_def validSHA256Digest_def validDuration_def list_all_iff)
qed

lemma passing_command: "validVerifyCommand \<lparr>Argv = [], Shell = Some ''make''\<rparr>"
  by (simp add: validVerifyCommand_def Let_def utf8_valid_ascii contains_byte_def)

lemma passing_accepted: "d_Verdict (Evaluate passing_input) = Accepted"
proof -
  have "gate_policy passing_input"
    using sample_item_valid passing_command
    by (simp add: gate_policy_def bounded_input_def sound_configuration_def change_respects_def commands_verified_def
        policy_satisfied_def passing_input_def sample_item_def Let_def)
  then show ?thesis by (simp add: Accepted_iff_policy)
qed

lemma passing_records: "commandRecords (Evaluate passing_input) = [command_record 0 \<lparr>Argv = [], Shell = Some ''make''\<rparr> [sample_item 0]]"
proof -
  obtain byIndex bad where e: "indexed_evidence passing_input (normalizeObservations (in_Observations passing_input)) = (byIndex, bad)"
    by fastforce
  then have "byIndex 0 = [sample_item 0]"
    by (auto simp: indexed_evidence_def passing_input_def normalizeObservations_def sample_item_def)
  with commandRecords_loop [OF e] show ?thesis by (auto simp: passing_input_def Let_def case_prod_unfold)
qed

lemma sample_small: "length (marshal_report sample_report) \<le> MaxReportBytes"
proof -
  have z: "length (json_string zero_digest) \<le> 1000" "length (json_string sample_ref) \<le> 1000"
    "length (json_string (replicate 40 (CHR ''0''))) \<le> 1000" "length (json_string ReportSchemaVersion) \<le> 1000"
    "length (json_string ''run'') \<le> 1000" "length (json_string ''gate'') \<le> 1000" "length (json_string ''clone'') \<le> 1000"
    "length (json_string ''Accepted'') \<le> 1000"
    using length_json_string sample_ref_parts(2) by (auto intro!: order_trans [OF length_json_string] simp: zero_digest_def)
  have i: "length (json_int v) \<le> 10002" if "0 \<le> v" "v \<le> GateScoreScale" for v
    using length_json_int [of v] that by simp
  have d: "length (json_string (sp_ResultDigest (vr_Scoring sample_report))) \<le> 1000"
    using length_json_string [of "sha256_digest m" for m]
    by (auto intro!: order_trans [OF length_json_string] simp: sample_report_def reported_def decision_projection_def sha256_digest_def)
  have p: "length (marshal_projection (vr_Scoring sample_report)) \<le> 600000"
    unfolding marshal_projection_def
    by (rule object_bound)
      (use built_parts_size(2) [OF sample_built(2)] d i [of 0] i [of GateScoreScale] in
        \<open>simp add: sample_report_def reported_def decision_projection_def decision_score_def json_opt_def json_nonempty_def\<close>)
  have e: "length (json_nil_slice marshal_record (vr_Commands sample_report)) \<le> 4000"
  proof -
    have "length (digestVerifyCommand c) = 71" for c
      using digestVerifyCommand_valid [of c] by (simp add: validSHA256Digest_def)
    then have k: "length (json_string (digestVerifyCommand c)) \<le> 1000" for c
      using length_json_string [of "digestVerifyCommand c"] by simp
    have g: "length (json_string sample_digest) \<le> 1000"
      using length_json_string [of sample_digest] by (simp add: sample_digest_def)
    have ne: "sample_digest \<noteq> []" by (simp add: sample_digest_def)
    have "length (marshal_record (command_record 0 c [sample_item 0])) \<le> 3000" for c
      unfolding marshal_record_def command_record_def
      using length_json_int [of 0] short_bool [of True] sample_item_valid [of 0] k [of c] g ne
      by (intro object_bound) (simp add: json_opt_def json_nonempty_def sample_item_def)
    from this [of "\<lparr>Argv = [], Shell = Some ''make''\<rparr>"] show ?thesis
      by (simp add: sample_report_def reported_def passing_records json_nil_slice_def clone_slice_def json_slice_def json_array_def)
  qed
  have s: "length (marshal_summary (vr_Evidence sample_report)) \<le> 1000"
  proof -
    have "evidence (Evaluate passing_input) = summary (normalizeObservations (in_Observations passing_input))"
      by (simp add: Evaluate_def Let_def case_prod_unfold)
    then show ?thesis
      unfolding marshal_summary_def
      by (intro object_bound) (simp add: sample_report_def reported_def passing_input_def summary_def normalizeObservations_def
          json_opt_def json_nil_slice_def clone_slice_def json_slice_def)
  qed
  have h: "length (json_nil_slice (\<lambda>i. json_object [(''name'', json_string (im_Name i)), (''digest'', json_string (im_Digest i))])
      (vr_HelperImages sample_report)) \<le> 4000"
    using length_json_object [of "[(''name'', json_string ''clone''), (''digest'', json_string sample_ref)]"] z
    by (simp add: sample_report_def reported_def sample_context_def json_nil_slice_def clone_slice_def json_slice_def json_array_def)
  show ?thesis
    unfolding marshal_report_def MaxReportBytes_def
    by (rule object_bound)
      (use built_parts_size(1) [OF sample_built(2)] p e s h z i [of 1] passing_accepted in
        \<open>simp add: sample_report_def reported_def sample_context_def json_nil_slice_def clone_slice_def json_slice_def\<close>)
qed

text \<open>A stand-in for the signature scheme: one fixed signature, which every key accepts.\<close>

definition sample_sign :: "string \<Rightarrow> string \<Rightarrow> string" where
  "sample_sign k m = replicate 64 (CHR ''s'')"

definition sample_verify :: "string \<Rightarrow> string \<Rightarrow> string \<Rightarrow> bool" where
  "sample_verify k m s \<longleftrightarrow> s = replicate 64 (CHR ''s'')"

definition sample_key :: string where
  "sample_key = replicate 64 (CHR ''k'')"

definition sample_envelope :: signed_report where
  "sample_envelope = \<lparr>sg_Report = sample_report, sg_Algorithm = ''Ed25519'', sg_PublicKey = b64_encode (drop 32 sample_key),
     sg_Signature = b64_encode (sample_sign sample_key (marshal_report sample_report))\<rparr>"

lemma sample_signed: "SignReport sample_sign sample_report sample_key = Inr sample_envelope"
  using sample_built(2)
  by (simp add: SignReport_def sample_key_def sample_envelope_def) (simp add: sample_report_def reported_def)

lemma sample_verifies: "VerifySignedReport sample_verify sample_envelope (Some (drop 32 sample_key)) = None"
  using sample_built(2) sample_small length_b64_encode [of "replicate 64 (CHR ''s'')"]
  by (simp add: VerifySignedReport_def sample_envelope_def b64_roundtrip sample_key_def sample_sign_def sample_verify_def
      CanonicalReportBytes_def)

section \<open>Properties\<close>

text \<open>
  C25. Every decision of the gate can be reported. For a context whose own fields are valid and
  without a critic, building the report of any evaluation succeeds, whatever was evaluated; the
  report carries the verdict, the sorted checks, the evidence and the command records of the
  decision unchanged, and is in canonical form.
\<close>

theorem every_decision_reportable:
  assumes "context_ok ctx" and "cx_Scoring ctx = None"
  shows "\<exists>r. BuildReport ctx (Evaluate input) = Inr r \<and> canonicalizeReport r = Inr r \<and> builtByGate r \<and>
    vr_Verdict r = d_Verdict (Evaluate input) \<and> vr_Checks r = sort_slice gateCheckLess (d_Checks (Evaluate input)) \<and>
    vr_Evidence r = evidence (Evaluate input) \<and> vr_Commands r = commandRecords (Evaluate input) \<and>
    vr_RunUID r = cx_RunUID ctx \<and> vr_SpecDigest r = cx_SpecDigest ctx \<and> vr_PatchDigest r = cx_PatchDigest ctx"
proof -
  obtain hs ss where h: "canonicalizeHelpers (cx_HelperImages ctx) = Inr hs" "canonicalizeSkills (cx_SkillDigests ctx) = Inr ss"
    using assms(1) by (auto simp: context_ok_def)
  from built_report [OF assms h, where input = input] show ?thesis by (auto simp: reported_def)
qed

theorem every_decision_reportable_witness:
  "\<exists>r. BuildReport sample_context (Evaluate passing_input) = Inr r \<and> vr_Verdict r = Accepted"
  using every_decision_reportable [OF sample_context_ok, of passing_input] passing_accepted by (auto simp: sample_context_def)

text \<open>
  C26. A report that verifies under a trusted key and says Accepted is what it says: its checks are
  not empty and all passed, no blocking reason is left, the weighted score reaches the minimum, and
  the signature was checked over the canonical bytes of this report with the trusted key.
\<close>

theorem verified_acceptance:
  assumes "VerifySignedReport verify env (Some key) = None" and "vr_Verdict (sg_Report env) = Accepted"
  shows "vr_Checks (sg_Report env) \<noteq> [] \<and> list_all gc_Passed (vr_Checks (sg_Report env)) \<and>
    sp_BlockingReasons (vr_Scoring (sg_Report env)) = [] \<and>
    sp_MinScore (vr_Scoring (sg_Report env)) \<le> sp_WeightedScore (vr_Scoring (sg_Report env)) \<and>
    (\<exists>payload signature. CanonicalReportBytes (sg_Report env) = Inr payload \<and>
       b64_decode (sg_Signature env) = Some signature \<and> verify key payload signature)"
proof -
  obtain payload signature where p: "CanonicalReportBytes (sg_Report env) = Inr payload"
    and s: "b64_decode (sg_Signature env) = Some signature" "verify key payload signature"
    using assms(1) by (auto simp: VerifySignedReport_def split: if_splits option.splits sum.splits)
  obtain r' where "canonicalizeReport (sg_Report env) = Inr r'"
    using p by (auto simp: CanonicalReportBytes_def bind_Inr)
  from accepted_report [OF this assms(2)] p s show ?thesis by (auto simp: list_all_iff)
qed

theorem verified_acceptance_witness:
  "list_all gc_Passed (vr_Checks (sg_Report sample_envelope)) \<and> vr_Checks (sg_Report sample_envelope) \<noteq> []"
proof -
  have "vr_Verdict (sg_Report sample_envelope) = Accepted"
    by (simp add: sample_envelope_def sample_report_def reported_def passing_accepted)
  from verified_acceptance [OF sample_verifies this] show ?thesis by blast
qed

text \<open>
  C27. Signing and verification agree. When the signature scheme accepts what the key signs and
  its signatures have 64 bytes, as Ed25519 does, a report signed by \<^const>\<open>SignReport\<close> and within
  the size bound verifies under the public half of the signing key.
\<close>

theorem sign_then_verify:
  assumes "SignReport sign r privateKey = Inr env" and "length (marshal_report (sg_Report env)) \<le> MaxReportBytes"
    and "\<And>m. length (sign privateKey m) = 64" and "\<And>m. verify (drop 32 privateKey) m (sign privateKey m)"
  shows "VerifySignedReport verify env (Some (drop 32 privateKey)) = None"
proof -
  obtain n where k: "length privateKey = 64" and n: "canonicalizeReport r = Inr n"
    and env: "env = \<lparr>sg_Report = n, sg_Algorithm = ''Ed25519'', sg_PublicKey = b64_encode (drop 32 privateKey),
       sg_Signature = b64_encode (sign privateKey (marshal_report n))\<rparr>"
    using assms(1) by (auto simp: SignReport_def bind_Inr split: if_splits)
  have "CanonicalReportBytes n = Inr (marshal_report n)"
    using canonicalizeReport_fixed [OF n] assms(2) by (simp add: CanonicalReportBytes_def env)
  moreover have "length (b64_encode (sign privateKey (marshal_report n))) \<le> 256"
    using length_b64_encode [of "sign privateKey (marshal_report n)"] assms(3) by simp
  ultimately show ?thesis
    using k assms(3,4) by (simp add: VerifySignedReport_def env b64_roundtrip refuse_def)
qed

theorem sign_then_verify_witness:
  "SignReport sample_sign sample_report sample_key = Inr sample_envelope \<and>
   VerifySignedReport sample_verify sample_envelope (Some (drop 32 sample_key)) = None"
proof
  show "SignReport sample_sign sample_report sample_key = Inr sample_envelope" by (rule sample_signed)
  show "VerifySignedReport sample_verify sample_envelope (Some (drop 32 sample_key)) = None"
    by (rule sign_then_verify [OF sample_signed])
      (use sample_small in \<open>simp_all add: sample_envelope_def sample_sign_def sample_verify_def\<close>)
qed

text \<open>
  C28. Canonical form is stable: the report that canonicalization returns is a fixed point of it,
  and has the bytes and the digest of the report it was computed from.
\<close>

theorem canonical_report_stable:
  assumes "canonicalizeReport r = Inr r'"
  shows "canonicalizeReport r' = Inr r' \<and> CanonicalReportBytes r' = CanonicalReportBytes r \<and> ReportDigest r' = ReportDigest r"
  using assms canonicalizeReport_fixed [OF assms] by (simp add: CanonicalReportBytes_def ReportDigest_def)

theorem canonical_report_stable_witness:
  "canonicalizeReport sample_report = Inr sample_report \<and> ReportDigest sample_report = ReportDigest sample_report"
  using canonical_report_stable [OF sample_built(2)] by simp

end
