(* ===== verification/Strict_JSON.thy ===== *)
theory Strict_JSON
  imports Content_Digest
begin

text \<open>
  The JSON contract of \<^verbatim>\<open>v3/pkg/strictjson/strictjson.go\<close>, used at every persistence and replay
  boundary. The parser state, a document and a position, is the suffix that is left to read. A Go
  map from member names to values is an association list sorted by name without repeated names,
  which is a unique representation of it. The mutually recursive parser is given fuel; the fuel
  \<^verbatim>\<open>parse\<close> provides is shown to be enough in the theory of its properties.
\<close>

section \<open>Values and limits\<close>

definition MaxDocumentBytes :: nat where "MaxDocumentBytes = 1048576"
definition MaxNumberLexemeBytes :: nat where "MaxNumberLexemeBytes = 16384"
definition MaxMantissaDigits :: nat where "MaxMantissaDigits = 8192"
abbreviation MaxAbsExponent :: int where "MaxAbsExponent \<equiv> 4096"
abbreviation MaxIntegerDigits :: int where "MaxIntegerDigits \<equiv> 12288"
abbreviation MaxFractionDigits :: int where "MaxFractionDigits \<equiv> 4096"
definition maxDepth :: nat where "maxDepth = 128"
definition maxObjectMembers :: nat where "maxObjectMembers = 1024"
definition maxArrayItems :: nat where "maxArrayItems = 1024"
definition maxStringBytes :: nat where "maxStringBytes = 65536"
abbreviation maxExponentDigits :: nat where "maxExponentDigits \<equiv> 6"

datatype json_error = ErrInvalid | ErrNotObject | ErrDuplicateKey | ErrNumberBudget | ErrLimit | OutOfFuel

record decimal =
  dec_negative :: bool
  dec_digits :: string
  dec_exponent :: int

abbreviation zero_decimal :: decimal where
  "zero_decimal \<equiv> \<lparr>dec_negative = False, dec_digits = [], dec_exponent = 0\<rparr>"

datatype json_value =
  NullValue | BooleanValue bool | StringValue string | NumberValue decimal |
  ObjectValue "(string \<times> json_value) list" | ArrayValue "json_value list"

section \<open>Characters\<close>

abbreviation quote_byte :: char where "quote_byte \<equiv> CHR 0x22"
abbreviation escape_byte :: char where "escape_byte \<equiv> CHR 0x5C"

definition is_space :: "char \<Rightarrow> bool" where
  "is_space c \<longleftrightarrow> c = CHR '' '' \<or> c = CHR 0x09 \<or> c = CHR 0x0A \<or> c = CHR 0x0D"

definition skipSpace :: "string \<Rightarrow> string" where
  "skipSpace data = dropWhile is_space data"

fun consume :: "char \<Rightarrow> string \<Rightarrow> string option" where
  "consume want [] = None"
| "consume want (c # cs) = (if c = want then Some cs else None)"

definition consumeLiteral :: "string \<Rightarrow> string \<Rightarrow> string option" where
  "consumeLiteral literal data = (if has_prefix data literal then Some (drop (length literal) data) else None)"

definition isValueDelimiter :: "char \<Rightarrow> bool" where
  "isValueDelimiter c \<longleftrightarrow> c = CHR '','' \<or> c = CHR '']'' \<or> c = CHR ''}'' \<or> is_space c"

section \<open>Strings\<close>

definition hex_value :: "char \<Rightarrow> nat option" where
  "hex_value c =
     (let b = byte_of c in
      if 48 \<le> b \<and> b \<le> 57 then Some (b - 48)
      else if 97 \<le> b \<and> b \<le> 102 then Some (b - 97 + 10)
      else if 65 \<le> b \<and> b \<le> 70 then Some (b - 65 + 10) else None)"

fun hex_loop :: "nat \<Rightarrow> string \<Rightarrow> nat option" where
  "hex_loop v [] = Some v"
| "hex_loop v (c # cs) = (case hex_value c of None \<Rightarrow> None | Some d \<Rightarrow> hex_loop (v * 16 + d) cs)"

definition parseHexEscape :: "string \<Rightarrow> json_error + nat \<times> string" where
  "parseHexEscape data =
     (if length data < 4 then Inl ErrInvalid
      else case hex_loop 0 (take 4 data) of None \<Rightarrow> Inl ErrInvalid | Some v \<Rightarrow> Inr (v, drop 4 data))"

text \<open>\<^verbatim>\<open>utf8.EncodeRune\<close> of a code point that is no surrogate.\<close>

definition utf8_encode :: "nat \<Rightarrow> nat list" where
  "utf8_encode r =
     (if r < 128 then [r]
      else if r < 2048 then [192 + r div 64, 128 + r mod 64]
      else if r < 65536 then [224 + r div 4096, 128 + r div 64 mod 64, 128 + r mod 64]
      else [240 + r div 262144, 128 + r div 4096 mod 64, 128 + r div 64 mod 64, 128 + r mod 64])"

definition parse_unicode :: "string \<Rightarrow> json_error + string \<times> string" where
  "parse_unicode data =
     (case parseHexEscape data of
        Inl err \<Rightarrow> Inl err
      | Inr (code, rest) \<Rightarrow>
          if code = 0 then Inl ErrInvalid
          else if 0xd800 \<le> code \<and> code \<le> 0xdbff then
            (if \<not> has_prefix rest [escape_byte, CHR ''u''] then Inl ErrInvalid
             else case parseHexEscape (drop 2 rest) of
               Inl err \<Rightarrow> Inl ErrInvalid
             | Inr (low, rest) \<Rightarrow>
                 if low < 0xdc00 \<or> low > 0xdfff then Inl ErrInvalid
                 else Inr (map char_of (utf8_encode (0x10000 + (code - 0xd800) * 1024 + (low - 0xdc00))), rest))
          else if 0xdc00 \<le> code \<and> code \<le> 0xdfff then Inl ErrInvalid
          else Inr (map char_of (utf8_encode code), rest))"

definition parse_escape :: "string \<Rightarrow> json_error + string \<times> string" where
  "parse_escape data =
     (case data of
        [] \<Rightarrow> Inl ErrInvalid
      | c # rest \<Rightarrow>
          if c = quote_byte \<or> c = escape_byte \<or> c = CHR ''/'' then Inr ([c], rest)
          else if c = CHR ''b'' then Inr ([CHR 0x08], rest)
          else if c = CHR ''f'' then Inr ([CHR 0x0C], rest)
          else if c = CHR ''n'' then Inr ([CHR 0x0A], rest)
          else if c = CHR ''r'' then Inr ([CHR 0x0D], rest)
          else if c = CHR ''t'' then Inr ([CHR 0x09], rest)
          else if c = CHR ''u'' then parse_unicode rest
          else Inl ErrInvalid)"

definition high_byte :: "char \<Rightarrow> bool" where
  "high_byte c \<longleftrightarrow> 128 \<le> (byte_of c :: nat)"

text \<open>One round of the loop of \<^verbatim>\<open>parseString\<close> on a byte other than the closing quote: the bytes it appends.\<close>

fun string_step :: "string \<Rightarrow> json_error + string \<times> string" where
  "string_step [] = Inl ErrInvalid"
| "string_step (c # cs) =
     (if c = escape_byte then parse_escape cs
      else if (byte_of c :: nat) < 0x20 then Inl ErrInvalid
      else if \<not> high_byte c then Inr ([c], cs)
      else let chunk = takeWhile high_byte (c # cs)
           in if \<not> utf8_valid chunk then Inl ErrInvalid else Inr (chunk, dropWhile high_byte (c # cs)))"

lemma parseHexEscape_shorter: "parseHexEscape data = Inr (v, rest) \<Longrightarrow> length rest < length data"
  by (auto simp: parseHexEscape_def split: if_splits option.splits)

lemma parse_unicode_shorter: "parse_unicode data = Inr (v, rest) \<Longrightarrow> length rest < length data"
  by (fastforce simp: parse_unicode_def Let_def dest: parseHexEscape_shorter split: sum.splits if_splits)

lemma parse_escape_shorter: "parse_escape data = Inr (v, rest) \<Longrightarrow> length rest < length data"
  by (auto simp: parse_escape_def less_Suc_eq dest: parse_unicode_shorter split: list.splits if_splits)

lemma string_step_shorter: "string_step data = Inr (v, rest) \<Longrightarrow> length rest < length data"
  by (cases data) (auto simp: Let_def less_Suc_eq_le length_dropWhile_le dest: parse_escape_shorter split: if_splits)

function parse_string_loop :: "string \<Rightarrow> string \<Rightarrow> json_error + string \<times> string" where
  "parse_string_loop decoded [] = Inl ErrInvalid"
| "parse_string_loop decoded (c # cs) =
     (if c = quote_byte then
        (if length decoded > maxStringBytes then Inl ErrLimit else Inr (decoded, cs))
      else case string_step (c # cs) of
        Inl err \<Rightarrow> Inl err
      | Inr (added, rest) \<Rightarrow>
          if length (decoded @ added) > maxStringBytes then Inl ErrLimit
          else parse_string_loop (decoded @ added) rest)"
  by pat_completeness auto
termination
  by (relation "measure (\<lambda>(d, s). length s)") (auto dest!: string_step_shorter simp del: string_step.simps)

definition parseString :: "string \<Rightarrow> json_error + string \<times> string" where
  "parseString data =
     (case consume quote_byte data of None \<Rightarrow> Inl ErrInvalid | Some rest \<Rightarrow> parse_string_loop [] rest)"

section \<open>Numbers\<close>

text \<open>The integer part: a lone zero, or digits that start with a nonzero one.\<close>

definition parse_integer :: "string \<Rightarrow> json_error + string \<times> string" where
  "parse_integer data =
     (case data of
        [] \<Rightarrow> Inl ErrInvalid
      | c # cs \<Rightarrow>
          if c = CHR ''0'' then
            (if cs \<noteq> [] \<and> is_digit (hd cs) then Inl ErrInvalid else Inr ([c], cs))
          else if is_digit c then Inr (takeWhile is_digit data, dropWhile is_digit data)
          else Inl ErrInvalid)"

definition parse_fraction :: "string \<Rightarrow> json_error + string \<times> string" where
  "parse_fraction data =
     (case consume (CHR ''.'') data of
        None \<Rightarrow> Inr ([], data)
      | Some rest \<Rightarrow>
          if takeWhile is_digit rest = [] then Inl ErrInvalid
          else Inr (takeWhile is_digit rest, dropWhile is_digit rest))"

fun exponent_loop :: "nat \<Rightarrow> int \<Rightarrow> string \<Rightarrow> json_error + int \<times> string" where
  "exponent_loop n e [] = Inr (e, [])"
| "exponent_loop n e (c # cs) =
     (if \<not> is_digit c then Inr (e, c # cs)
      else if Suc n > maxExponentDigits then Inl ErrNumberBudget
      else let digit = int (byte_of c) - 48
           in if e > (MaxAbsExponent - digit) div 10 then Inl ErrNumberBudget
              else if e * 10 + digit > MaxAbsExponent then Inl ErrNumberBudget
              else exponent_loop (Suc n) (e * 10 + digit) cs)"

definition parse_exponent :: "string \<Rightarrow> json_error + int \<times> string" where
  "parse_exponent data =
     (case data of
        [] \<Rightarrow> Inr (0, data)
      | c # cs \<Rightarrow>
          if c = CHR ''e'' \<or> c = CHR ''E'' then
            (let neg = (consume (CHR ''-'') cs \<noteq> None);
                 rest = (case consume (CHR ''-'') cs of Some r \<Rightarrow> r
                         | None \<Rightarrow> (case consume (CHR ''+'') cs of Some r \<Rightarrow> r | None \<Rightarrow> cs))
             in case exponent_loop 0 0 rest of
                  Inl err \<Rightarrow> Inl err
                | Inr (e, rest') \<Rightarrow>
                    if length rest' = length rest then Inl ErrInvalid else Inr (if neg then - e else e, rest'))
          else Inr (0, data))"

definition trim_mantissa :: "string \<Rightarrow> string" where
  "trim_mantissa ds = trim_right_byte (CHR ''0'') ds"

definition build_decimal :: "bool \<Rightarrow> string \<Rightarrow> string \<Rightarrow> int \<Rightarrow> json_error + decimal" where
  "build_decimal neg whole fraction e =
     (let mantissa = whole @ fraction;
          fractionDigits = int (length fraction);
          stripped = trim_left_byte (CHR ''0'') mantissa
      in if length mantissa > MaxMantissaDigits then Inl ErrNumberBudget
         else if stripped = [] then
           (if fractionDigits + (if e < 0 then - e else 0) > MaxFractionDigits then Inl ErrNumberBudget
            else Inr zero_decimal)
         else let digits = trim_mantissa stripped;
                  e = e + int (length stripped - length digits) - fractionDigits
              in if e > MaxAbsExponent \<or> e < - MaxAbsExponent \<or> int (length digits) + e > MaxIntegerDigits \<or>
                    e < - MaxFractionDigits
                 then Inl ErrNumberBudget
                 else Inr \<lparr>dec_negative = neg, dec_digits = digits, dec_exponent = e\<rparr>)"

definition parseNumber :: "string \<Rightarrow> json_error + decimal \<times> string" where
  "parseNumber data =
     (let neg = (consume (CHR ''-'') data \<noteq> None);
          body = (case consume (CHR ''-'') data of Some r \<Rightarrow> r | None \<Rightarrow> data)
      in case parse_integer body of Inl err \<Rightarrow> Inl err | Inr (whole, rest) \<Rightarrow>
        (case parse_fraction rest of Inl err \<Rightarrow> Inl err | Inr (fraction, rest) \<Rightarrow>
        (case parse_exponent rest of Inl err \<Rightarrow> Inl err | Inr (e, rest) \<Rightarrow>
           if length data - length rest > MaxNumberLexemeBytes then Inl ErrNumberBudget
           else if rest \<noteq> [] \<and> \<not> isValueDelimiter (hd rest) then Inl ErrInvalid
           else case build_decimal neg whole fraction e of Inl err \<Rightarrow> Inl err | Inr d \<Rightarrow> Inr (d, rest))))"

section \<open>Values\<close>

text \<open>\<^verbatim>\<open>object[key] = child\<close> for a key that is not yet in the map.\<close>

fun insert_member :: "string \<Rightarrow> json_value \<Rightarrow> (string \<times> json_value) list \<Rightarrow> (string \<times> json_value) list" where
  "insert_member k v [] = [(k, v)]"
| "insert_member k v ((k', v') # ms) = (if k < k' then (k, v) # (k', v') # ms else (k', v') # insert_member k v ms)"

text \<open>The branches of \<^verbatim>\<open>parseValue\<close> that do not recurse.\<close>

definition parse_scalar :: "char \<Rightarrow> string \<Rightarrow> json_error + json_value \<times> string" where
  "parse_scalar c data =
     (if c = CHR ''n'' then
        (case consumeLiteral ''null'' data of None \<Rightarrow> Inl ErrInvalid | Some rest \<Rightarrow> Inr (NullValue, rest))
      else if c = CHR ''t'' then
        (case consumeLiteral ''true'' data of None \<Rightarrow> Inl ErrInvalid | Some rest \<Rightarrow> Inr (BooleanValue True, rest))
      else if c = CHR ''f'' then
        (case consumeLiteral ''false'' data of None \<Rightarrow> Inl ErrInvalid | Some rest \<Rightarrow> Inr (BooleanValue False, rest))
      else if c = quote_byte then
        (case parseString data of Inl err \<Rightarrow> Inl err | Inr (s, rest) \<Rightarrow> Inr (StringValue s, rest))
      else if c = CHR ''-'' \<or> is_digit c then
        (case parseNumber data of Inl err \<Rightarrow> Inl err | Inr (n, rest) \<Rightarrow> Inr (NumberValue n, rest))
      else Inl ErrInvalid)"

text \<open>A round of the loop of \<^verbatim>\<open>parseObject\<close> up to the value: the checks, the member name and the colon.\<close>

definition member_head :: "(string \<times> json_value) list \<Rightarrow> string \<Rightarrow> json_error + string \<times> string" where
  "member_head ms data =
     (if length ms \<ge> maxObjectMembers then Inl ErrLimit
      else if data = [] \<or> hd data \<noteq> quote_byte then Inl ErrInvalid
      else case parseString data of Inl err \<Rightarrow> Inl err | Inr (key, rest) \<Rightarrow>
        if map_of ms key \<noteq> None then Inl ErrDuplicateKey
        else case consume (CHR '':'') (skipSpace rest) of
          None \<Rightarrow> Inl ErrInvalid
        | Some rest \<Rightarrow> Inr (key, skipSpace rest))"

text \<open>The end of a round of either loop: the closing bracket, or a comma and the next round.\<close>

definition member_end :: "char \<Rightarrow> string \<Rightarrow> json_error + bool \<times> string" where
  "member_end bracket data =
     (case consume bracket (skipSpace data) of
        Some rest \<Rightarrow> Inr (True, rest)
      | None \<Rightarrow>
          (case consume (CHR '','') (skipSpace data) of
             None \<Rightarrow> Inl ErrInvalid
           | Some rest \<Rightarrow> Inr (False, skipSpace rest)))"

text \<open>
  \<^verbatim>\<open>parseValue\<close> with the loops of \<^verbatim>\<open>parseObject\<close> and \<^verbatim>\<open>parseArray\<close>; a closing bracket is looked
  for before the first round of a loop and after each one.
\<close>

fun parseValue :: "nat \<Rightarrow> nat \<Rightarrow> string \<Rightarrow> json_error + json_value \<times> string"
  and parse_members :: "nat \<Rightarrow> nat \<Rightarrow> (string \<times> json_value) list \<Rightarrow> string \<Rightarrow> json_error + json_value \<times> string"
  and parse_items :: "nat \<Rightarrow> nat \<Rightarrow> json_value list \<Rightarrow> string \<Rightarrow> json_error + json_value \<times> string" where
  "parseValue 0 depth data = Inl OutOfFuel"
| "parseValue (Suc fuel) depth data =
     (if depth > maxDepth then Inl ErrLimit
      else case data of
        [] \<Rightarrow> Inl ErrInvalid
      | c # cs \<Rightarrow>
          if c = CHR ''{'' then
            (case consume (CHR ''}'') (skipSpace cs) of
               Some rest \<Rightarrow> Inr (ObjectValue [], rest)
             | None \<Rightarrow> parse_members fuel depth [] (skipSpace cs))
          else if c = CHR ''['' then
            (case consume (CHR '']'') (skipSpace cs) of
               Some rest \<Rightarrow> Inr (ArrayValue [], rest)
             | None \<Rightarrow> parse_items fuel depth [] (skipSpace cs))
          else parse_scalar c data)"
| "parse_members 0 depth ms data = Inl OutOfFuel"
| "parse_members (Suc fuel) depth ms data =
     (case member_head ms data of Inl err \<Rightarrow> Inl err | Inr (key, rest) \<Rightarrow>
     (case parseValue fuel (Suc depth) rest of Inl err \<Rightarrow> Inl err | Inr (child, rest) \<Rightarrow>
     (case member_end (CHR ''}'') rest of Inl err \<Rightarrow> Inl err | Inr (final, rest) \<Rightarrow>
        if final then Inr (ObjectValue (insert_member key child ms), rest)
        else parse_members fuel depth (insert_member key child ms) rest)))"
| "parse_items 0 depth vs data = Inl OutOfFuel"
| "parse_items (Suc fuel) depth vs data =
     (if length vs \<ge> maxArrayItems then Inl ErrLimit
      else case parseValue fuel (Suc depth) data of Inl err \<Rightarrow> Inl err | Inr (child, rest) \<Rightarrow>
     (case member_end (CHR '']'') rest of Inl err \<Rightarrow> Inl err | Inr (final, rest) \<Rightarrow>
        if final then Inr (ArrayValue (vs @ [child]), rest) else parse_items fuel depth (vs @ [child]) rest))"

definition parse :: "string \<Rightarrow> json_error + json_value" where
  "parse document =
     (if length document = 0 \<or> length document > MaxDocumentBytes \<or> \<not> utf8_valid document then Inl ErrInvalid
      else let data = skipSpace document
           in if data = [] then Inl ErrInvalid
              else case parseValue (2 * length data + 1) 0 data of
                Inl err \<Rightarrow> Inl err
              | Inr (v, rest) \<Rightarrow> if skipSpace rest \<noteq> [] then Inl ErrInvalid else Inr v)"

definition Validate :: "string \<Rightarrow> json_error option" where
  "Validate document = (case parse document of Inl err \<Rightarrow> Some err | Inr _ \<Rightarrow> None)"

definition ValidateObject :: "string \<Rightarrow> json_error option" where
  "ValidateObject document =
     (case parse document of Inl err \<Rightarrow> Some err | Inr (ObjectValue _) \<Rightarrow> None | Inr _ \<Rightarrow> Some ErrNotObject)"

section \<open>Comparison\<close>

definition signedMagnitudeCompare :: "int \<Rightarrow> bool \<Rightarrow> int" where
  "signedMagnitudeCompare magnitude neg = (if neg then - magnitude else magnitude)"

text \<open>The digits are compared as bytes; a missing digit counts as zero.\<close>

fun compare_digits :: "string \<Rightarrow> string \<Rightarrow> int" where
  "compare_digits [] [] = 0"
| "compare_digits (c # cs) [] =
     (if (byte_of c :: nat) < 48 then -1 else if (byte_of c :: nat) > 48 then 1 else compare_digits cs [])"
| "compare_digits [] (d # ds) =
     (if (48 :: nat) < byte_of d then -1 else if (48 :: nat) > byte_of d then 1 else compare_digits [] ds)"
| "compare_digits (c # cs) (d # ds) =
     (if (byte_of c :: nat) < byte_of d then -1 else if (byte_of c :: nat) > byte_of d then 1 else compare_digits cs ds)"

definition compareMagnitude :: "decimal \<Rightarrow> decimal \<Rightarrow> int" where
  "compareMagnitude l r =
     (let leftPosition = int (length (dec_digits l)) + dec_exponent l;
          rightPosition = int (length (dec_digits r)) + dec_exponent r
      in if leftPosition < rightPosition then -1 else if leftPosition > rightPosition then 1
         else compare_digits (dec_digits l) (dec_digits r))"

definition compareDecimal :: "decimal \<Rightarrow> decimal \<Rightarrow> int" where
  "compareDecimal l r =
     (if dec_digits l = [] \<or> dec_digits r = [] then
        (if dec_digits l = dec_digits r then 0
         else if dec_digits l = [] then signedMagnitudeCompare (-1) (dec_negative r)
         else signedMagnitudeCompare 1 (dec_negative l))
      else if dec_negative l \<noteq> dec_negative r then (if dec_negative l then -1 else 1)
      else if dec_negative l then - compareMagnitude l r else compareMagnitude l r)"

fun equalValue :: "json_value \<Rightarrow> json_value \<Rightarrow> bool"
  and equal_members :: "(string \<times> json_value) list \<Rightarrow> (string \<times> json_value) list \<Rightarrow> bool"
  and equal_items :: "json_value list \<Rightarrow> json_value list \<Rightarrow> bool" where
  "equalValue NullValue NullValue = True"
| "equalValue (BooleanValue a) (BooleanValue b) = (a = b)"
| "equalValue (StringValue s) (StringValue t) = (s = t)"
| "equalValue (NumberValue m) (NumberValue n) = (compareDecimal m n = 0)"
| "equalValue (ObjectValue ms) (ObjectValue ns) = (length ms = length ns \<and> equal_members ms ns)"
| "equalValue (ArrayValue vs) (ArrayValue ws) = (length vs = length ws \<and> equal_items vs ws)"
| "equalValue _ _ = False"
| "equal_members [] ns = True"
| "equal_members ((k, v) # ms) ns =
     (case map_of ns k of None \<Rightarrow> False | Some w \<Rightarrow> equalValue v w \<and> equal_members ms ns)"
| "equal_items (v # vs) (w # ws) = (equalValue v w \<and> equal_items vs ws)"
| "equal_items _ _ = True"

definition Equal :: "string \<Rightarrow> string \<Rightarrow> bool" where
  "Equal left right =
     (case parse left of Inl _ \<Rightarrow> False | Inr l \<Rightarrow>
     (case parse right of Inl _ \<Rightarrow> False | Inr r \<Rightarrow> equalValue l r))"

definition EqualObjects :: "string \<Rightarrow> string \<Rightarrow> bool" where
  "EqualObjects expected actual =
     (case parse expected of
        Inr (ObjectValue ms) \<Rightarrow>
          (case parse actual of Inr (ObjectValue ns) \<Rightarrow> equalValue (ObjectValue ms) (ObjectValue ns) | _ \<Rightarrow> False)
      | _ \<Rightarrow> False)"

section \<open>Canonical text\<close>

definition canonicalDecimal :: "decimal \<Rightarrow> string" where
  "canonicalDecimal d =
     (if dec_digits d = [] then ''0''
      else let p = (if dec_negative d then ''-'' else [])
           in if dec_exponent d = 0 then p @ dec_digits d
              else if dec_exponent d > 0 then p @ dec_digits d @ replicate (nat (dec_exponent d)) (CHR ''0'')
              else p @ dec_digits d @ ''e-'' @ nat_digits (nat (- dec_exponent d)))"

fun writeValue :: "json_value \<Rightarrow> string"
  and write_members :: "(string \<times> json_value) list \<Rightarrow> string"
  and write_items :: "json_value list \<Rightarrow> string" where
  "writeValue NullValue = ''null''"
| "writeValue (BooleanValue b) = (if b then ''true'' else ''false'')"
| "writeValue (StringValue s) = json_string s"
| "writeValue (NumberValue d) = canonicalDecimal d"
| "writeValue (ObjectValue ms) = ''{'' @ write_members ms @ ''}''"
| "writeValue (ArrayValue vs) = ''['' @ write_items vs @ '']''"
| "write_members [] = []"
| "write_members ((k, v) # ms) =
     json_string k @ '':'' @ writeValue v @ (if ms = [] then [] else '','' @ write_members ms)"
| "write_items [] = []"
| "write_items (v # vs) = writeValue v @ (if vs = [] then [] else '','' @ write_items vs)"

definition Normalize :: "string \<Rightarrow> json_error + string" where
  "Normalize document = (case parse document of Inl err \<Rightarrow> Inl err | Inr v \<Rightarrow> Inr (writeValue v))"

end
