(* ===== verification/JSON_Strings.thy ===== *)
theory JSON_Strings
  imports Strict_JSON
begin

text \<open>
  Strings of JSON documents: well-formed UTF-8 is a sequence of encoded runes, the string parser of
  \<^verbatim>\<open>strictjson\<close> returns well-formed strings without NUL, and it reads back what
  \<^verbatim>\<open>json.Marshal\<close> writes.
\<close>

section \<open>Well-formed UTF-8\<close>

text \<open>The encoding of one rune.\<close>

fun rune_bytes :: "nat list \<Rightarrow> bool" where
  "rune_bytes [b] = (b < 128)"
| "rune_bytes [b, c1] = (194 \<le> b \<and> b \<le> 223 \<and> utf8_cont c1)"
| "rune_bytes [b, c1, c2] = (utf8_second3 b c1 \<and> utf8_cont c2)"
| "rune_bytes [b, c1, c2, c3] = (utf8_second4 b c1 \<and> utf8_cont c2 \<and> utf8_cont c3)"
| "rune_bytes _ = False"

lemma second_bytes:
  "utf8_second3 b c \<Longrightarrow> 224 \<le> b \<and> b \<le> 239 \<and> utf8_cont c" "utf8_second4 b c \<Longrightarrow> 240 \<le> b \<and> b \<le> 244 \<and> utf8_cont c"
  by (auto simp: utf8_second3_def utf8_second4_def utf8_cont_def split: if_splits)

lemma rune_bytes_cases:
  assumes "rune_bytes p"
  obtains b where "p = [b]" "b < 128"
  | b c1 where "p = [b, c1]" "194 \<le> b" "b \<le> 223" "utf8_cont c1"
  | b c1 c2 where "p = [b, c1, c2]" "utf8_second3 b c1" "utf8_cont c2" "224 \<le> b" "b \<le> 239" "utf8_cont c1"
  | b c1 c2 c3 where "p = [b, c1, c2, c3]" "utf8_second4 b c1" "utf8_cont c2" "utf8_cont c3" "240 \<le> b" "b \<le> 244" "utf8_cont c1"
  using assms second_bytes by (cases p rule: rune_bytes.cases) auto

lemma rune_bytes_nonempty: "rune_bytes p \<Longrightarrow> p \<noteq> []"
  by auto

lemma utf8_decode_rune: "rune_bytes p \<Longrightarrow> utf8_decode (p @ bs) = None \<longleftrightarrow> utf8_decode bs = None"
  by (erule rune_bytes_cases) (auto dest: second_bytes)

lemma utf8_pieces:
  "utf8_decode bs \<noteq> None \<Longrightarrow> \<exists>ps. list_all rune_bytes ps \<and> bs = concat ps"
proof (induction bs rule: utf8_decode.induct)
  case 1
  then show ?case by (intro exI [of _ "[]"]) simp
next
  case (2 b bs)
  have "\<exists>p rest. rune_bytes p \<and> b # bs = p @ rest \<and> utf8_decode rest \<noteq> None \<and>
      (\<exists>ps. list_all rune_bytes ps \<and> rest = concat ps)"
  proof (cases "b < 128")
    case True
    with 2 show ?thesis by (intro exI [of _ "[b]"] exI [of _ bs]) auto
  next
    case b: False
    then obtain c1 bs1 where c1: "bs = c1 # bs1" using 2(5) by (auto split: list.splits)
    show ?thesis
    proof (cases "194 \<le> b \<and> b \<le> 223 \<and> utf8_cont c1")
      case True
      with 2(2) [OF b c1 True] 2(5) b c1 show ?thesis by (intro exI [of _ "[b, c1]"] exI [of _ bs1]) auto
    next
      case r2: False
      then obtain c2 bs2 where c2: "bs1 = c2 # bs2" using 2(5) b c1 by (auto split: list.splits)
      show ?thesis
      proof (cases "utf8_second3 b c1 \<and> utf8_cont c2")
        case True
        with 2(3) [OF b c1 r2 c2 True] 2(5) b c1 r2 c2 show ?thesis
          by (intro exI [of _ "[b, c1, c2]"] exI [of _ bs2]) auto
      next
        case r3: False
        then obtain c3 bs3 where c3: "bs2 = c3 # bs3" using 2(5) b c1 r2 c2 by (auto split: list.splits)
        have r4: "utf8_second4 b c1 \<and> utf8_cont c2 \<and> utf8_cont c3"
          using 2(5) b c1 r2 c2 r3 c3 by (auto split: if_splits)
        with 2(4) [OF b c1 r2 c2 r3 c3 r4] 2(5) b c1 r2 c2 r3 c3 show ?thesis
          by (intro exI [of _ "[b, c1, c2, c3]"] exI [of _ bs3]) auto
      qed
    qed
  qed
  then obtain p rest ps where "rune_bytes p" "b # bs = p @ rest" "list_all rune_bytes ps" "rest = concat ps" by blast
  then show ?case by (intro exI [of _ "p # ps"]) simp
qed

lemma utf8_decode_pieces: "list_all rune_bytes ps \<Longrightarrow> utf8_decode (concat ps @ bs) = None \<longleftrightarrow> utf8_decode bs = None"
  by (induction ps) (auto simp: utf8_decode_rune)

lemma utf8_valid_append: "utf8_valid s \<Longrightarrow> utf8_valid (s @ t) \<longleftrightarrow> utf8_valid t"
proof -
  assume "utf8_valid s"
  then obtain ps where "list_all rune_bytes ps" "map byte_of s = concat ps"
    unfolding utf8_valid_def using utf8_pieces by blast
  then show ?thesis by (simp add: utf8_valid_def utf8_decode_pieces)
qed

lemma rune_bytes_range:
  assumes "rune_bytes p" and "b \<in> set p"
  shows "b < 256" and "length p \<noteq> 1 \<Longrightarrow> 128 \<le> b"
  using assms by (auto elim!: rune_bytes_cases simp: utf8_cont_def)

lemma utf8_encode_rune:
  assumes "r < 0x110000" and "\<not> (0xd800 \<le> r \<and> r < 0xe000)"
  shows "rune_bytes (utf8_encode r)"
proof -
  have r2: "r = 64 * (r div 64) + r mod 64" by simp
  have "r div 64 = 64 * (r div 4096) + r div 64 mod 64"
    using div_mult_mod_eq [of "r div 64" 64] by (simp add: div_mult2_eq [symmetric])
  with r2 have r3: "r = 4096 * (r div 4096) + 64 * (r div 64 mod 64) + r mod 64" by linarith
  have r4: "r div 4096 = 64 * (r div 262144) + r div 4096 mod 64"
    using div_mult_mod_eq [of "r div 4096" 64] by (simp add: div_mult2_eq [symmetric])
  have m: "r mod 64 < 64" "r div 64 mod 64 < 64" "r div 4096 mod 64 < 64" by simp_all
  consider "r < 128" | "128 \<le> r" "r < 2048" | "2048 \<le> r" "r < 65536" | "65536 \<le> r" by linarith
  then show ?thesis
  proof cases
    case 3
    have "r div 64 mod 64 \<le> 31" if "r div 4096 = 13" using that r3 m assms(2) by linarith
    moreover have "32 \<le> r div 64 mod 64" if "r div 4096 = 0" using that r3 m 3 by linarith
    moreover have "r div 4096 \<le> 15" using r3 3 by linarith
    ultimately show ?thesis using 3 m by (auto simp: utf8_encode_def utf8_second3_def utf8_cont_def)
  next
    case 4
    have "r div 4096 mod 64 \<le> 15" if "r div 262144 = 4" using that r3 r4 m assms(1) by linarith
    moreover have "16 \<le> r div 4096 mod 64" if "r div 262144 = 0" using that r3 r4 m 4 by linarith
    moreover have "r div 262144 \<le> 4" using r3 r4 assms(1) by linarith
    ultimately show ?thesis using 4 m by (auto simp: utf8_encode_def utf8_second4_def utf8_cont_def)
  next
    case 2
    have "2 \<le> r div 64" "r div 64 \<le> 31" using 2 by auto
    then show ?thesis using 2 m by (auto simp: utf8_encode_def utf8_cont_def)
  qed (auto simp: utf8_encode_def)
qed

section \<open>What the string parser returns\<close>

definition no_nul :: "string \<Rightarrow> bool" where
  "no_nul s \<longleftrightarrow> list_all (\<lambda>c. (byte_of c :: nat) \<noteq> 0) s"

definition string_ok :: "string \<Rightarrow> bool" where
  "string_ok s \<longleftrightarrow> utf8_valid s \<and> no_nul s \<and> length s \<le> maxStringBytes"

lemma utf8_encode_ok:
  assumes "r < 0x110000" and "\<not> (0xd800 \<le> r \<and> r < 0xe000)" and "r \<noteq> 0"
  shows "utf8_valid (map char_of (utf8_encode r))" and "no_nul (map char_of (utf8_encode r))"
proof -
  note p = utf8_encode_rune [OF assms(1,2)]
  have b: "b < 256" if "b \<in> set (utf8_encode r)" for b using rune_bytes_range(1) [OF p that] .
  have m: "map byte_of (map char_of (utf8_encode r) :: string) = utf8_encode r"
    unfolding map_map by (rule map_idI) (simp add: b)
  show "utf8_valid (map char_of (utf8_encode r))"
    unfolding utf8_valid_def m using utf8_decode_rune [OF p, of "[]"] by simp
  have "b \<noteq> 0" if "b \<in> set (utf8_encode r)" for b
    using that rune_bytes_range(2) [OF p that] assms(3) by (auto simp: utf8_encode_def split: if_splits)
  then show "no_nul (map char_of (utf8_encode r))" using b by (auto simp: no_nul_def list_all_iff)
qed

lemma hex_loop_less: "hex_loop v cs = Some w \<Longrightarrow> w < (v + 1) * 16 ^ length cs"
proof (induction v cs rule: hex_loop.induct)
  case (2 v c cs)
  from 2(2) obtain d where d: "hex_value c = Some d" and w: "hex_loop (v * 16 + d) cs = Some w" by (auto split: option.splits)
  have "d < 16" using d by (auto simp: hex_value_def Let_def split: if_splits)
  then have "(v * 16 + d + 1) * 16 ^ length cs \<le> (v + 1) * 16 * 16 ^ length cs" by (intro mult_right_mono) auto
  from less_le_trans [OF 2(1) [OF d w] this] show ?case by (simp only: length_Cons power_Suc mult.assoc)
qed simp

lemma parseHexEscape_less: "parseHexEscape s = Inr (v, rest) \<Longrightarrow> v < 65536"
  using hex_loop_less [of 0 "take 4 s" v] by (auto simp: parseHexEscape_def split: if_splits option.splits)

lemma parse_unicode_ok:
  assumes "parse_unicode s = Inr (t, rest)"
  shows "utf8_valid t \<and> no_nul t"
proof -
  obtain code r1 where c: "parseHexEscape s = Inr (code, r1)" "code \<noteq> 0"
    using assms by (auto simp: parse_unicode_def split: sum.splits prod.splits if_splits)
  note less = parseHexEscape_less [OF c(1)]
  show ?thesis
  proof (cases "0xd800 \<le> code \<and> code \<le> 0xdbff")
    case True
    with assms c obtain low where l: "\<not> low < 0xdc00" "\<not> 0xdfff < low"
      "t = map char_of (utf8_encode (0x10000 + (code - 0xd800) * 1024 + (low - 0xdc00)))"
      by (auto simp: parse_unicode_def split: sum.splits prod.splits if_splits)
    show ?thesis unfolding l(3) using True l by (intro conjI utf8_encode_ok) auto
  next
    case False
    with assms c have l: "\<not> (0xdc00 \<le> code \<and> code \<le> 0xdfff)" "t = map char_of (utf8_encode code)"
      by (auto simp: parse_unicode_def split: if_splits)
    show ?thesis unfolding l(2) using False l less c(2) by (intro conjI utf8_encode_ok) auto
  qed
qed

lemma ascii_ok: "(byte_of c :: nat) < 128 \<Longrightarrow> byte_of c \<noteq> (0 :: nat) \<Longrightarrow> utf8_valid [c] \<and> no_nul [c]"
  by (simp add: utf8_valid_def no_nul_def)

lemma string_step_ok: "string_step s = Inr (t, rest) \<Longrightarrow> utf8_valid t \<and> no_nul t"
proof (cases s)
  case (Cons c cs)
  assume *: "string_step s = Inr (t, rest)"
  show ?thesis
  proof (cases "c = escape_byte")
    case True
    with * Cons have "parse_escape cs = Inr (t, rest)" by simp
    then show ?thesis
      by (auto simp: parse_escape_def ascii_ok parse_unicode_ok split: list.splits if_splits)
  next
    case False
    have "no_nul (takeWhile high_byte (c # cs))"
      by (auto simp: no_nul_def list_all_iff high_byte_def dest!: set_takeWhileD)
    with * Cons False show ?thesis by (auto simp: Let_def high_byte_def ascii_ok split: if_splits)
  qed
qed simp

lemma parse_string_loop_ok:
  "parse_string_loop d s = Inr (t, rest) \<Longrightarrow> utf8_valid d \<Longrightarrow> no_nul d \<Longrightarrow> string_ok t"
proof (induction d s rule: parse_string_loop.induct)
  case (2 d c cs)
  show ?case
  proof (cases "c = quote_byte")
    case True
    with 2(2-4) show ?thesis by (auto simp: string_ok_def split: if_splits)
  next
    case False
    with 2(2) obtain a r where a: "string_step (c # cs) = Inr (a, r)" "\<not> maxStringBytes < length (d @ a)"
      "parse_string_loop (d @ a) r = Inr (t, rest)"
      by (auto simp del: string_step.simps split: sum.splits if_splits)
    have "utf8_valid (d @ a)" "no_nul (d @ a)"
      using string_step_ok [OF a(1)] 2(3,4) by (auto simp: utf8_valid_append no_nul_def)
    with 2(1) [OF False a(1) refl a(2,3)] show ?thesis .
  qed
qed simp

lemma parseString_ok: "parseString s = Inr (t, rest) \<Longrightarrow> string_ok t"
  using parse_string_loop_ok [of "[]"] by (auto simp: parseString_def utf8_valid_def no_nul_def split: option.splits)

section \<open>Reading back what json.Marshal writes\<close>

lemma decode_rune_piece:
  assumes "rune_bytes p"
  shows "decode_rune (p @ bs) = decode_rune p" and "snd (decode_rune p) = length p"
    and "fst (decode_rune p) < 128 \<longleftrightarrow> length p = 1" and "length p = 1 \<Longrightarrow> p = [fst (decode_rune p)]"
  using assms by (auto elim!: rune_bytes_cases simp: decode_rune_def utf8_second3_def utf8_second4_def utf8_cont_def split: if_splits)

lemma json_rune_piece: "rune_bytes p \<Longrightarrow> json_rune (p @ bs) = json_rune p"
  using decode_rune_piece(1,2) by (simp add: json_rune_def Let_def case_prod_beta)

lemma json_escape_pieces:
  "list_all rune_bytes ps \<Longrightarrow> json_escape (concat ps) = concat (map json_rune ps)"
proof (induction ps)
  case (Cons p ps)
  then have p: "rune_bytes p" "p \<noteq> []" by auto
  have "json_escape (p @ concat ps) = json_rune p @ json_escape (concat ps)"
    by (subst json_escape.simps) (simp add: p decode_rune_piece json_rune_piece)
  with Cons show ?case by simp
qed (simp add: json_escape.simps)

text \<open>The pieces that are written as they are and lie above ASCII; runs of them are read as one chunk.\<close>

definition plain_piece :: "nat list \<Rightarrow> bool" where
  "plain_piece p \<longleftrightarrow> length p \<noteq> 1 \<and> json_rune p = map char_of p"

lemma separator_piece:
  assumes "rune_bytes p" and "fst (decode_rune p) = 8232 \<or> fst (decode_rune p) = 8233"
  shows "p = utf8_encode (fst (decode_rune p))"
  using assms
proof (cases p rule: rune_bytes_cases)
  case (3 b c1 c2)
  then have v: "fst (decode_rune p) = (b - 224) * 4096 + (c1 - 128) * 64 + (c2 - 128)"
    by (simp add: decode_rune_def)
  obtain x y z where x: "b = 224 + x" "c1 = 128 + y" "c2 = 128 + z" "y < 64" "z < 64"
    using 3 by (auto simp: utf8_cont_def nat_le_iff_add)
  with v assms(2) have xyz: "x * 4096 + y * 64 + z = 8232 \<or> x * 4096 + y * 64 + z = 8233" by simp
  then have "x \<le> 2" "2 \<le> x" using x(4,5) by linarith+
  then have "x = 2" by simp
  with xyz have yz: "y * 64 + z = 40 \<or> y * 64 + z = 41" by simp
  then have "y = 0" by auto
  with yz \<open>x = 2\<close> have "x = 2 \<and> y = 0 \<and> (z = 40 \<or> z = 41)" by simp
  then show ?thesis using v 3(1) x by (auto simp: utf8_encode_def)
qed (auto simp: decode_rune_def utf8_cont_def utf8_second4_def split: if_splits)

lemma parseHexEscape_four:
  "length h = 4 \<Longrightarrow> parseHexEscape (h @ rest) = (case hex_loop 0 h of None \<Rightarrow> Inl ErrInvalid | Some v \<Rightarrow> Inr (v, rest))"
  by (simp add: parseHexEscape_def split: option.split)

lemma ascii_step:
  assumes "b < 128" and "b \<noteq> 0"
  shows "string_step (json_ascii b @ rest) = Inr ([char_of b], rest)"
    and "hd (json_ascii b) \<noteq> quote_byte" and "\<not> high_byte (hd (json_ascii b))" and "json_ascii b \<noteq> []"
proof -
  have hv: "hex_value (hex_char d) = Some d" if "d < 16" for d
    using that by (auto simp: hex_value_def hex_char_def)
  have esc: "string_step (CHR 0x5C # ''u00'' @ hex_byte b @ rest) = Inr ([char_of b], rest)"
  proof -
    have z: "hex_value (CHR ''0'') = Some 0" by (simp add: hex_value_def)
    have "hex_loop 0 (''00'' @ hex_byte b) = Some b"
      using assms(1) hv [of "b div 16"] hv [of "b mod 16"] by (simp add: hex_byte_def z)
    then have "parseHexEscape (''00'' @ hex_byte b @ rest) = Inr (b, rest)"
      using parseHexEscape_four [of "''00'' @ hex_byte b" rest] by (simp add: hex_byte_def)
    then show ?thesis using assms by (simp add: parse_escape_def parse_unicode_def utf8_encode_def)
  qed
  have self: "string_step (char_of b # rest) = Inr ([char_of b], rest)" if "32 \<le> b" "b \<noteq> 92"
  proof -
    have "char_of b \<noteq> escape_byte"
    proof
      assume "char_of b = escape_byte"
      then have "(of_char (char_of b :: char) :: nat) = of_char escape_byte" by simp
      then show False using assms that by simp
    qed
    then show ?thesis using assms that by (simp add: high_byte_def)
  qed
  consider "b \<in> {34, 92, 8, 12, 10, 13, 9}"
    | "b \<notin> {34, 92, 8, 12, 10, 13, 9}" "b < 32 \<or> b = 60 \<or> b = 62 \<or> b = 38"
    | "b \<notin> {34, 92, 8, 12, 10, 13, 9}" "\<not> (b < 32 \<or> b = 60 \<or> b = 62 \<or> b = 38)" by blast
  then show "string_step (json_ascii b @ rest) = Inr ([char_of b], rest)"
  proof cases
    case 1
    then show ?thesis by (elim insertE) (simp_all add: json_ascii_def parse_escape_def char_of_def bit_0)
  next
    case 2
    then have "json_ascii b = CHR 0x5C # ''u00'' @ hex_byte b" by (simp add: json_ascii_def)
    with esc show ?thesis by simp
  next
    case 3
    then have "json_ascii b = [char_of b]" by (simp add: json_ascii_def)
    with self 3 show ?thesis by simp
  qed
  have q: "char_of b \<noteq> quote_byte" if "b \<noteq> 34"
  proof
    assume "char_of b = quote_byte"
    then have "(of_char (char_of b :: char) :: nat) = of_char quote_byte" by simp
    then show False using assms that by simp
  qed
  show "hd (json_ascii b) \<noteq> quote_byte" "\<not> high_byte (hd (json_ascii b))" "json_ascii b \<noteq> []"
    using q assms by (auto simp: json_ascii_def high_byte_def)
qed

lemma escaped_step:
  assumes "rune_bytes p" and "\<not> plain_piece p" and "p \<noteq> [0]"
  shows "string_step (json_rune p @ rest) = Inr (map char_of p, rest)"
    and "hd (json_rune p) \<noteq> quote_byte" and "\<not> high_byte (hd (json_rune p))" and "json_rune p \<noteq> []"
proof -
  let ?r = "fst (decode_rune p)"
  have "string_step (json_rune p @ rest) = Inr (map char_of p, rest) \<and> hd (json_rune p) \<noteq> quote_byte \<and>
    \<not> high_byte (hd (json_rune p)) \<and> json_rune p \<noteq> []"
  proof (cases "length p = 1")
    case True
    then have p: "p = [?r]" "?r < 128" using decode_rune_piece [OF assms(1)] by auto
    then have "?r \<noteq> 0" using assms(3) by metis
    with p have "json_rune p = json_ascii ?r" by (simp add: json_rune_def case_prod_beta)
    with ascii_step [OF p(2) \<open>?r \<noteq> 0\<close>] p(1) show ?thesis by (metis list.simps(8,9))
  next
    case False
    have d: "snd (decode_rune p) \<noteq> 1" "\<not> ?r < 128" "take (snd (decode_rune p)) p = p"
      using decode_rune_piece [OF assms(1)] False by auto
    with assms(2) False have r: "?r = 8232 \<or> ?r = 8233"
      by (auto simp: plain_piece_def json_rune_def case_prod_beta split: if_splits)
    then have p: "p = utf8_encode ?r" by (rule separator_piece [OF assms(1)])
    have j: "json_rune p = CHR 0x5C # (if ?r = 8232 then ''u2028'' else ''u2029'')"
      using r d by (auto simp: json_rune_def case_prod_beta)
    have "hex_loop 0 ''2028'' = Some 8232" "hex_loop 0 ''2029'' = Some 8233" by (simp_all add: hex_value_def)
    then have "string_step (CHR 0x5C # (if ?r = 8232 then ''u2028'' else ''u2029'') @ rest) = Inr (map char_of (utf8_encode ?r), rest)"
      using r parseHexEscape_four [of "''2028''" rest] parseHexEscape_four [of "''2029''" rest]
      by (auto simp: parse_escape_def parse_unicode_def)
    then show ?thesis unfolding j using p by (auto simp: high_byte_def)
  qed
  then show "string_step (json_rune p @ rest) = Inr (map char_of p, rest)"
    and "hd (json_rune p) \<noteq> quote_byte" and "\<not> high_byte (hd (json_rune p))" and "json_rune p \<noteq> []" by auto
qed

lemma plain_high:
  assumes "rune_bytes p" and "plain_piece p"
  shows "list_all high_byte (map char_of p :: string)" and "json_rune p = map char_of p"
proof -
  have "high_byte (char_of b)" if "b \<in> set p" for b
    using rune_bytes_range [OF assms(1) that] assms(2) by (simp add: high_byte_def plain_piece_def)
  then show "list_all high_byte (map char_of p :: string)" by (simp add: list_all_iff)
qed (use assms in \<open>simp add: plain_piece_def\<close>)

lemma chars_valid: "list_all rune_bytes ps \<Longrightarrow> utf8_valid (map char_of (concat ps))"
proof -
  assume *: "list_all rune_bytes ps"
  have "map byte_of (map char_of (concat ps) :: string) = concat ps"
    unfolding map_map using * rune_bytes_range(1) by (intro map_idI) (auto simp: list_all_iff)
  then show ?thesis unfolding utf8_valid_def using utf8_decode_pieces [OF *, of "[]"] by simp
qed

lemma takeWhile_run: "list_all P xs \<Longrightarrow> ys = [] \<or> \<not> P (hd ys) \<Longrightarrow> takeWhile P (xs @ ys) = xs \<and> dropWhile P (xs @ ys) = ys"
  by (induction xs) (auto, (cases ys, auto)+)

lemma leading_run: "\<exists>t u. xs = t @ u \<and> list_all P t \<and> (t = [] \<longleftrightarrow> xs = [] \<or> \<not> P (hd xs)) \<and> (u = [] \<or> \<not> P (hd u))"
proof (induction xs)
  case (Cons x xs)
  then obtain t u where "xs = t @ u" "list_all P t" "u = [] \<or> \<not> P (hd u)" by blast
  then show ?case
    by (cases "P x") (intro exI [of _ "x # t"] exI [of _ u], simp, intro exI [of _ "[]"] exI [of _ "x # xs"], simp)
qed simp

lemma chunk_step:
  assumes "list_all rune_bytes ps" and "list_all plain_piece ps" and "ps \<noteq> []" and "u = [] \<or> \<not> high_byte (hd u)"
  shows "string_step (concat (map json_rune ps) @ u) = Inr (map char_of (concat ps), u)"
    and "hd (concat (map json_rune ps) @ u) \<noteq> quote_byte"
proof -
  let ?c = "map char_of (concat ps) :: string"
  have j: "concat (map json_rune ps) = ?c"
    using assms(1,2) plain_high(2) by (induction ps) auto
  have h: "list_all high_byte ?c" using assms(1,2) plain_high(1) by (induction ps) auto
  have ne: "?c \<noteq> []" using assms(1,3) rune_bytes_nonempty by (cases ps) auto
  then obtain c cs where c: "?c = c # cs" by (cases ?c) auto
  have "high_byte c" using h unfolding c by simp
  then have "c \<noteq> escape_byte" "c \<noteq> quote_byte" "\<not> (byte_of c :: nat) < 32" by (auto simp: high_byte_def)
  then show "string_step (concat (map json_rune ps) @ u) = Inr (?c, u)"
    using takeWhile_run [OF h assms(4)] chars_valid [OF assms(1)] \<open>high_byte c\<close> unfolding j c by (simp add: Let_def)
  show "hd (concat (map json_rune ps) @ u) \<noteq> quote_byte" unfolding j c using \<open>c \<noteq> quote_byte\<close> by simp
qed

lemma parse_string_loop_step:
  assumes "string_step s = Inr (t, rest)" and "hd s \<noteq> quote_byte" and "length (d @ t) \<le> maxStringBytes"
  shows "parse_string_loop d s = parse_string_loop (d @ t) rest"
  using assms by (cases s) (simp_all del: string_step.simps, simp)

lemma parse_string_loop_pieces:
  assumes "list_all rune_bytes ps" and "[0] \<notin> set ps" and "length d + length (concat ps) \<le> maxStringBytes"
  shows "parse_string_loop d (concat (map json_rune ps) @ quote_byte # rest) = Inr (d @ map char_of (concat ps), rest)"
  using assms
proof (induction ps arbitrary: d rule: measure_induct_rule [of length])
  case (less ps)
  show ?case
  proof (cases ps)
    case Nil
    with less show ?thesis by simp
  next
    case (Cons p qs)
    show ?thesis
    proof (cases "plain_piece p")
      case False
      note e = escaped_step(2,4) [of p] escaped_step(1) [of p "concat (map json_rune qs) @ quote_byte # rest"]
      have "parse_string_loop d (concat (map json_rune ps) @ quote_byte # rest) =
          parse_string_loop (d @ map char_of p) (concat (map json_rune qs) @ quote_byte # rest)"
        using e False less.prems Cons by (intro parse_string_loop_step) auto
      also have "\<dots> = Inr ((d @ map char_of p) @ map char_of (concat qs), rest)"
        using less.prems Cons by (intro less.IH) auto
      finally show ?thesis using Cons by simp
    next
      case True
      obtain t u where tu: "ps = t @ u" "list_all plain_piece t" "t \<noteq> []" "u = [] \<or> \<not> plain_piece (hd u)"
        using leading_run [of ps plain_piece] True Cons by auto
      have r: "list_all rune_bytes t" "list_all rune_bytes u" "[0] \<notin> set u"
        and len: "length d + length (concat t) + length (concat u) \<le> maxStringBytes"
        using less.prems by (auto simp: tu(1))
      let ?v = "concat (map json_rune u) @ quote_byte # rest"
      have v: "\<not> high_byte (hd ?v)"
        using escaped_step(3,4) [of "hd u"] r(2,3) tu(4) by (cases u) (auto simp: high_byte_def)
      have "parse_string_loop d (concat (map json_rune t) @ ?v) = parse_string_loop (d @ map char_of (concat t)) ?v"
        using chunk_step [OF r(1) tu(2,3), of ?v] v len by (intro parse_string_loop_step) auto
      also have "\<dots> = Inr ((d @ map char_of (concat t)) @ map char_of (concat u), rest)"
        using r len tu(3) by (intro less.IH) (auto simp: tu(1))
      finally show ?thesis by (simp add: tu(1))
    qed
  qed
qed

lemma parse_json_string:
  assumes "string_ok s"
  shows "parseString (json_string s @ rest) = Inr (s, rest)"
proof -
  obtain ps where ps: "list_all rune_bytes ps" "map byte_of s = concat ps"
    using assms utf8_pieces by (auto simp: string_ok_def utf8_valid_def)
  have s: "map char_of (concat ps) = s" unfolding ps(2) [symmetric] map_map by (rule map_idI) simp
  have "0 \<notin> set (concat ps)" unfolding ps(2) [symmetric] using assms by (auto simp: string_ok_def no_nul_def list_all_iff)
  then have "[0] \<notin> set ps" by auto
  moreover have "length (concat ps) = length s" unfolding ps(2) [symmetric] by simp
  ultimately show ?thesis
    using parse_string_loop_pieces [OF ps(1), of "[]" rest] assms s
    by (simp add: parseString_def json_string_def ps(2) json_escape_pieces [OF ps(1)] string_ok_def)
qed

end
