(* ===== verification/JSON_Numbers.thy ===== *)
theory JSON_Numbers
  imports Strict_JSON Coverage_Policy
begin

text \<open>
  Numbers of JSON documents: a decimal denotes a rational number, parsed decimals are in lowest
  terms, their comparison is the order of the rationals, and the canonical text of a decimal reads
  back as the decimal it was written from.
\<close>

section \<open>Well-formed decimals\<close>

definition decimal_number :: "decimal \<Rightarrow> rat" where
  "decimal_number d = (if dec_negative d then -1 else 1) * (of_nat (digits_value (dec_digits d)) * 10 powi dec_exponent d)"

definition decimal_ok :: "decimal \<Rightarrow> bool" where
  "decimal_ok d \<longleftrightarrow>
     (if dec_digits d = [] then d = zero_decimal
      else list_all is_digit (dec_digits d) \<and> hd (dec_digits d) \<noteq> CHR ''0'' \<and> last (dec_digits d) \<noteq> CHR ''0'' \<and>
        length (dec_digits d) \<le> MaxMantissaDigits \<and> \<bar>dec_exponent d\<bar> \<le> MaxAbsExponent)"

lemma exponent_loop_bound: "exponent_loop n e s = Inr (x, rest) \<Longrightarrow> 0 \<le> e \<Longrightarrow> e \<le> MaxAbsExponent \<Longrightarrow> 0 \<le> x \<and> x \<le> MaxAbsExponent"
  by (induction n e s rule: exponent_loop.induct) (auto simp: Let_def is_digit_def split: if_splits)

lemma trim_left_hd: "trim_left_byte c s \<noteq> [] \<Longrightarrow> hd (trim_left_byte c s) \<noteq> c"
  unfolding trim_left_byte_def using hd_dropWhile [of "\<lambda>x. x = c" s] by simp

lemma trim_mantissa_ok:
  assumes "list_all is_digit s" and "s \<noteq> []" and "hd s \<noteq> CHR ''0''"
  shows "trim_mantissa s \<noteq> []" and "hd (trim_mantissa s) = hd s" and "last (trim_mantissa s) \<noteq> CHR ''0''"
    and "list_all is_digit (trim_mantissa s)" and "length (trim_mantissa s) \<le> length s"
proof -
  obtain k where k: "s = trim_mantissa s @ replicate k (CHR ''0'')"
    unfolding trim_mantissa_def using trim_right_zeros [OF assms(1)] by blast
  then show ne: "trim_mantissa s \<noteq> []" using assms(2,3) by (cases k) auto
  show "hd (trim_mantissa s) = hd s" using arg_cong [OF k, of hd] ne by simp
  show "last (trim_mantissa s) \<noteq> CHR ''0''" using ne unfolding trim_mantissa_def by (rule trim_right_last)
  show "list_all is_digit (trim_mantissa s)" unfolding trim_mantissa_def by (rule list_all_trim_right [OF assms(1)])
  show "length (trim_mantissa s) \<le> length s" using arg_cong [OF k, of length] by simp
qed

lemma build_decimal_ok:
  assumes "build_decimal neg w f e = Inr d" and "list_all is_digit (w @ f)"
  shows "decimal_ok d"
proof -
  let ?s = "trim_left_byte (CHR ''0'') (w @ f)"
  have s: "list_all is_digit ?s" "length ?s \<le> length (w @ f)"
    using assms(2) length_dropWhile_le [of _ "w @ f"]
    by (auto simp: trim_left_byte_def list_all_iff dest!: set_dropWhileD simp del: length_append)
  show ?thesis
  proof (cases "?s = []")
    case True
    with assms(1) have "d = zero_decimal" by (auto simp: build_decimal_def Let_def split: if_splits)
    then show ?thesis by (simp add: decimal_ok_def)
  next
    case False
    note t = trim_mantissa_ok [OF s(1) False trim_left_hd [OF False]]
    have "length (w @ f) \<le> MaxMantissaDigits" and "dec_digits d = trim_mantissa ?s" and "\<bar>dec_exponent d\<bar> \<le> MaxAbsExponent"
      using assms(1) False by (auto simp: build_decimal_def Let_def split: if_splits)
    then show ?thesis using t s(2) trim_left_hd [OF False] by (simp add: decimal_ok_def)
  qed
qed

lemma parse_integer_digits: "parse_integer s = Inr (w, rest) \<Longrightarrow> list_all is_digit w"
  using digits_zero(1) by (auto simp: parse_integer_def list_all_iff split: list.splits if_splits dest: set_takeWhileD)

lemma parse_fraction_digits: "parse_fraction s = Inr (w, rest) \<Longrightarrow> list_all is_digit w"
  by (auto simp: parse_fraction_def list_all_iff split: option.splits if_splits dest: set_takeWhileD)

lemma parseNumber_ok:
  assumes "parseNumber s = Inr (d, rest)"
  shows "decimal_ok d"
proof -
  obtain body w r1 f r2 e neg where "parse_integer body = Inr (w, r1)" "parse_fraction r1 = Inr (f, r2)"
    and b: "build_decimal neg w f e = Inr d"
    using assms by (auto simp: parseNumber_def Let_def split: sum.splits prod.splits if_splits)
  then have "list_all is_digit (w @ f)" using parse_integer_digits parse_fraction_digits by auto
  then show ?thesis by (rule build_decimal_ok [OF b])
qed

section \<open>Comparison is the order of the numbers\<close>

definition order_of :: "'a :: linorder \<Rightarrow> 'a \<Rightarrow> int" where
  "order_of x y = (if x < y then -1 else if x = y then 0 else 1)"

text \<open>The value of the digits when zeros are appended up to a length.\<close>

definition padded :: "nat \<Rightarrow> string \<Rightarrow> nat" where
  "padded k s = digits_value s * 10 ^ (k - length s)"

lemma digits_value_Cons: "digits_value (c # s) = digit_value c * 10 ^ length s + digits_value s"
  using digits_value_append [of "[c]" s] digits_value_snoc [of "[]" c] by simp

lemma padded_Cons: "length cs \<le> k \<Longrightarrow> padded (Suc k) (c # cs) = digit_value c * 10 ^ k + padded k cs"
  by (simp add: padded_def digits_value_Cons algebra_simps flip: power_add)

lemma padded_less: "list_all is_digit s \<Longrightarrow> length s \<le> k \<Longrightarrow> padded k s < 10 ^ k"
proof -
  assume *: "list_all is_digit s" "length s \<le> k"
  have "padded k s < 10 ^ length s * 10 ^ (k - length s)"
    unfolding padded_def using digits_value_less [OF *(1)] by simp
  also have "\<dots> = 10 ^ k" using *(2) by (simp flip: power_add)
  finally show ?thesis .
qed

lemma order_of_lead:
  fixes p q c d :: nat
  assumes "p < 10 ^ k" and "q < 10 ^ k"
  shows "order_of (c * 10 ^ k + p) (d * 10 ^ k + q) = (if c < d then -1 else if d < c then 1 else order_of p q)"
proof -
  have less: "a * 10 ^ k + x < b * 10 ^ k + y" if "a < b" "x < 10 ^ k" for a b x y :: nat
  proof -
    have "(a + 1) * 10 ^ k \<le> b * 10 ^ k" using that(1) by (intro mult_right_mono) auto
    then show ?thesis using that(2) by simp
  qed
  consider "c < d" | "d < c" | "c = d" by linarith
  then show ?thesis
    using less [of c d p q] less [of d c q p] assms by cases (auto simp: order_of_def)
qed

lemma byte_digits: "is_digit c \<Longrightarrow> byte_of c = 48 + digit_value c"
  by (simp add: is_digit_def digit_value_def)

lemma compare_digits_value:
  "list_all is_digit l \<Longrightarrow> list_all is_digit r \<Longrightarrow> length l \<le> k \<Longrightarrow> length r \<le> k \<Longrightarrow>
   compare_digits l r = order_of (padded k l) (padded k r)"
proof (induction l r arbitrary: k rule: compare_digits.induct)
  case 1
  then show ?case by (simp add: padded_def order_of_def)
next
  case (2 c cs)
  then obtain j where j: "k = Suc j" "length cs \<le> j" by (cases k) auto
  have z: "padded (Suc j) [] = 0 * 10 ^ j + padded j []" by (simp add: padded_def)
  show ?case unfolding j(1) z padded_Cons [OF j(2)]
    using 2 j order_of_lead [OF padded_less padded_less, of cs j "[]" "digit_value c" 0] by (auto simp: byte_digits)
next
  case (3 d ds)
  then obtain j where j: "k = Suc j" "length ds \<le> j" by (cases k) auto
  have z: "padded (Suc j) [] = 0 * 10 ^ j + padded j []" by (simp add: padded_def)
  show ?case unfolding j(1) z padded_Cons [OF j(2)]
    using 3 j order_of_lead [OF padded_less padded_less, of "[]" j ds 0 "digit_value d"] by (auto simp: byte_digits)
next
  case (4 c cs d ds)
  then obtain j where j: "k = Suc j" "length cs \<le> j" "length ds \<le> j" by (cases k) auto
  show ?case unfolding j(1) padded_Cons [OF j(2)] padded_Cons [OF j(3)]
    using 4 j order_of_lead [OF padded_less padded_less, of cs j ds "digit_value c" "digit_value d"]
      digit_value_inj [of c d] by (auto simp: byte_digits)
qed

definition magnitude :: "decimal \<Rightarrow> rat" where
  "magnitude d = of_nat (digits_value (dec_digits d)) * 10 powi dec_exponent d"

abbreviation position :: "decimal \<Rightarrow> int" where
  "position d \<equiv> int (length (dec_digits d)) + dec_exponent d"

lemma ten_shift: "(10 :: rat) powi (int n + e) = of_nat (10 ^ n) * 10 powi e"
  by (simp add: power_int_add)

lemma magnitude_padded:
  assumes "length (dec_digits d) \<le> n"
  shows "magnitude d = of_nat (padded n (dec_digits d)) * 10 powi (position d - int n)"
proof -
  have "(10 :: rat) powi dec_exponent d = 10 powi (int (n - length (dec_digits d)) + (position d - int n))"
    using assms by simp
  then show ?thesis unfolding ten_shift by (simp add: magnitude_def padded_def)
qed

lemma magnitude_bounds:
  assumes "decimal_ok d" and "dec_digits d \<noteq> []"
  shows "10 powi (position d - 1) \<le> magnitude d" and "magnitude d < 10 powi position d" and "0 < magnitude d"
proof -
  let ?n = "length (dec_digits d)"
  have d: "list_all is_digit (dec_digits d)" "hd (dec_digits d) \<noteq> CHR ''0''" using assms by (auto simp: decimal_ok_def)
  have lo: "10 ^ (?n - 1) \<le> digits_value (dec_digits d)" using digits_value_ge [OF d(1) assms(2) d(2)] .
  have hi: "digits_value (dec_digits d) < 10 ^ ?n" using digits_value_less [OF d(1)] .
  have m: "magnitude d = of_nat (digits_value (dec_digits d)) * 10 powi dec_exponent d" by (simp add: magnitude_def)
  have "position d - 1 = int (?n - 1) + dec_exponent d" using assms(2) by (cases "dec_digits d") auto
  then have "(10 :: rat) powi (position d - 1) = of_nat (10 ^ (?n - 1)) * 10 powi dec_exponent d"
    by (simp only: ten_shift)
  also have "\<dots> \<le> magnitude d" unfolding m using lo by (intro mult_right_mono of_nat_mono) auto
  finally show l: "10 powi (position d - 1) \<le> magnitude d" .
  have "magnitude d < of_nat (10 ^ ?n) * 10 powi dec_exponent d"
    unfolding m using hi by (intro mult_strict_right_mono) (simp_all only: of_nat_less_iff, simp)
  also have "\<dots> = 10 powi position d" by (rule ten_shift [symmetric])
  finally show "magnitude d < 10 powi position d" .
  show "0 < magnitude d" using l by (rule less_le_trans [rotated]) simp
qed

lemma compareMagnitude_order:
  assumes "decimal_ok l" and "decimal_ok r" and "dec_digits l \<noteq> []" and "dec_digits r \<noteq> []"
  shows "compareMagnitude l r = order_of (magnitude l) (magnitude r)"
proof -
  have less: "magnitude a < magnitude b" if "decimal_ok a" "decimal_ok b" "dec_digits a \<noteq> []" "dec_digits b \<noteq> []"
    "position a < position b" for a b
  proof -
    have "(10 :: rat) powi position a \<le> 10 powi (position b - 1)" using that(5) by (intro power_int_increasing) auto
    then show ?thesis using magnitude_bounds(2) [OF that(1,3)] magnitude_bounds(1) [OF that(2,4)] by linarith
  qed
  consider "position l < position r" | "position r < position l" | "position l = position r" by linarith
  then show ?thesis
  proof cases
    case 3
    let ?n = "max (length (dec_digits l)) (length (dec_digits r))" and ?k = "10 powi (position r - int (max (length (dec_digits l)) (length (dec_digits r)))) :: rat"
    have m: "magnitude l = of_nat (padded ?n (dec_digits l)) * ?k" "magnitude r = of_nat (padded ?n (dec_digits r)) * ?k"
      using magnitude_padded [of l ?n] magnitude_padded [of r ?n] 3 by simp_all
    have "0 < ?k" by simp
    then have "order_of (magnitude l) (magnitude r) = order_of (padded ?n (dec_digits l)) (padded ?n (dec_digits r))"
      unfolding m order_of_def by simp
    moreover have "compareMagnitude l r = compare_digits (dec_digits l) (dec_digits r)"
      using 3 by (simp add: compareMagnitude_def)
    moreover have "list_all is_digit (dec_digits l)" "list_all is_digit (dec_digits r)"
      using assms by (auto simp: decimal_ok_def)
    ultimately show ?thesis using compare_digits_value [of "dec_digits l" "dec_digits r" ?n] by simp
  qed (use less [of l r] less [of r l] assms in \<open>auto simp: compareMagnitude_def order_of_def\<close>)
qed

lemma compareDecimal_order:
  assumes "decimal_ok l" and "decimal_ok r"
  shows "compareDecimal l r = order_of (decimal_number l) (decimal_number r)"
proof -
  have num: "decimal_number d = (if dec_negative d then - magnitude d else magnitude d)" for d
    by (simp add: decimal_number_def magnitude_def)
  have zero: "magnitude d = 0" if "dec_digits d = []" for d using that by (simp add: magnitude_def)
  have pos: "0 < magnitude l \<or> dec_digits l = []" "0 < magnitude r \<or> dec_digits r = []"
    using magnitude_bounds(3) assms by blast+
  show ?thesis
  proof (cases "dec_digits l = [] \<or> dec_digits r = []")
    case True
    then show ?thesis using pos zero [of l] zero [of r] unfolding num
      by (auto simp: compareDecimal_def signedMagnitudeCompare_def order_of_def)
  next
    case False
    then show ?thesis using pos compareMagnitude_order [OF assms] unfolding num
      by (auto simp: compareDecimal_def order_of_def)
  qed
qed

text \<open>Well-formed decimals are unique: comparison only answers zero for equal ones.\<close>

lemma zero_byte: "byte_of c = (48 :: nat) \<longleftrightarrow> c = CHR ''0''"
  using of_char_eq_iff [of c "CHR ''0''", where ?'a = nat] by simp

lemma compare_digits_eq:
  "compare_digits l r = 0 \<Longrightarrow> l = [] \<or> last l \<noteq> CHR ''0'' \<Longrightarrow> r = [] \<or> last r \<noteq> CHR ''0'' \<Longrightarrow> l = r"
proof (induction l r rule: compare_digits.induct)
  case (2 c cs)
  then have "byte_of c = (48 :: nat)" "compare_digits cs [] = 0" by (auto split: if_splits)
  then have "cs = [] \<and> c = CHR ''0''" using 2 by (cases "cs = []") (auto simp: zero_byte)
  with 2 show ?case by simp
next
  case (3 d ds)
  then have "byte_of d = (48 :: nat)" "compare_digits [] ds = 0" by (auto split: if_splits)
  then have "ds = [] \<and> d = CHR ''0''" using 3 by (cases "ds = []") (auto simp: zero_byte)
  with 3 show ?case by simp
next
  case (4 c cs d ds)
  then have "byte_of c = (byte_of d :: nat)" "compare_digits cs ds = 0" by (auto split: if_splits)
  with 4 show ?case by (auto split: if_splits)
qed simp

lemma compareDecimal_zero:
  assumes "decimal_ok l" and "decimal_ok r"
  shows "compareDecimal l r = 0 \<longleftrightarrow> l = r"
proof
  assume z: "compareDecimal l r = 0"
  show "l = r"
  proof (cases "dec_digits l = [] \<or> dec_digits r = []")
    case True
    then have "dec_digits l = dec_digits r"
      using z by (auto simp: compareDecimal_def signedMagnitudeCompare_def split: if_splits)
    with True assms show ?thesis by (auto simp: decimal_ok_def)
  next
    case False
    with z have n: "dec_negative l = dec_negative r" and m: "compareMagnitude l r = 0"
      by (auto simp: compareDecimal_def split: if_splits)
    from m have p: "position l = position r" and c: "compare_digits (dec_digits l) (dec_digits r) = 0"
      by (auto simp: compareMagnitude_def Let_def split: if_splits)
    have "dec_digits l = dec_digits r" using c assms False by (intro compare_digits_eq) (auto simp: decimal_ok_def)
    with p n show ?thesis by simp
  qed
next
  assume "l = r"
  then show "compareDecimal l r = 0" using compareDecimal_order [OF assms] by (simp add: order_of_def)
qed

section \<open>Canonical text\<close>

text \<open>The decimals whose canonical text, written without an exponent, stays within the mantissa bound.\<close>

definition writable :: "decimal \<Rightarrow> bool" where
  "writable d \<longleftrightarrow> length (dec_digits d) + nat (dec_exponent d) \<le> MaxMantissaDigits"

definition delimited :: "string \<Rightarrow> bool" where
  "delimited rest \<longleftrightarrow> rest = [] \<or> isValueDelimiter (hd rest)"

lemma delimited_no_number:
  assumes "delimited rest"
  shows "rest = [] \<or> \<not> is_digit (hd rest) \<and> hd rest \<noteq> CHR ''.'' \<and> hd rest \<noteq> CHR ''e'' \<and> hd rest \<noteq> CHR ''E''"
  using assms by (auto simp: delimited_def isValueDelimiter_def is_space_def is_digit_def)

lemma takeWhile_digits:
  assumes "list_all is_digit ds" and "rest = [] \<or> \<not> is_digit (hd rest)"
  shows "takeWhile is_digit (ds @ rest) = ds" and "dropWhile is_digit (ds @ rest) = rest"
  using assms by (induction ds) (auto, (cases rest, auto)+)

lemma digit_chars: "n < 10 \<Longrightarrow> is_digit (digit_char n) \<and> digit_value (digit_char n) = n"
  by (simp add: is_digit_def digit_char_def digit_value_def)

lemma nat_digits_ok: "list_all is_digit (nat_digits n) \<and> digits_value (nat_digits n) = n \<and> nat_digits n \<noteq> []"
proof (induction n rule: nat_digits.induct)
  case (1 n)
  then show ?case
    using digit_chars [of n] digit_chars [of "n mod 10"] digits_value_snoc [of "[]" "digit_char n"]
    by (subst (1 2 3) nat_digits.simps) auto
qed

lemma nat_digits_bound: "n < 10 ^ Suc k \<Longrightarrow> length (nat_digits n) \<le> Suc k"
proof (induction k arbitrary: n)
  case 0
  then show ?case by (simp add: nat_digits.simps)
next
  case (Suc k)
  then have "n div 10 < 10 ^ Suc k" by (simp add: less_mult_imp_div_less)
  with Suc.IH show ?case by (subst nat_digits.simps) auto
qed

lemma exponent_loop_digits:
  "list_all is_digit ds \<Longrightarrow> n + length ds \<le> maxExponentDigits \<Longrightarrow> rest = [] \<or> \<not> is_digit (hd rest) \<Longrightarrow>
   0 \<le> e \<Longrightarrow> e * 10 ^ length ds + int (digits_value ds) \<le> MaxAbsExponent \<Longrightarrow>
   exponent_loop n e (ds @ rest) = Inr (e * 10 ^ length ds + int (digits_value ds), rest)"
proof (induction ds arbitrary: n e)
  case Nil
  then show ?case by (cases rest) auto
next
  case (Cons c ds)
  let ?g = "int (byte_of c) - 48"
  have g: "?g = int (digit_value c)" "0 \<le> ?g" using Cons.prems(1) by (auto simp: byte_digits)
  have v: "e * 10 ^ length (c # ds) + int (digits_value (c # ds)) = (e * 10 + ?g) * 10 ^ length ds + int (digits_value ds)"
    by (simp add: digits_value_Cons g(1) algebra_simps)
  have "e * 10 + ?g \<le> (e * 10 + ?g) * 10 ^ length ds"
    using Cons.prems(4) g(2) mult_left_mono [of 1 "10 ^ length ds" "e * 10 + ?g"] by simp
  then have b: "e * 10 + ?g \<le> MaxAbsExponent" using Cons.prems(5) unfolding v by linarith
  then have "\<not> e > (MaxAbsExponent - ?g) div 10" by linarith
  then have "exponent_loop n e ((c # ds) @ rest) = exponent_loop (Suc n) (e * 10 + ?g) (ds @ rest)"
    using Cons.prems(1,2) b by (auto simp: Let_def)
  also have "\<dots> = Inr ((e * 10 + ?g) * 10 ^ length ds + int (digits_value ds), rest)"
    using Cons.prems Cons.prems(5) [unfolded v] g(2) by (intro Cons.IH) auto
  finally show ?case unfolding v .
qed

lemma parse_exponent_text:
  assumes "0 < n" and "int n \<le> MaxAbsExponent" and "rest = [] \<or> \<not> is_digit (hd rest)"
  shows "parse_exponent (''e-'' @ nat_digits n @ rest) = Inr (- int n, rest)"
proof -
  have "length (nat_digits n) \<le> Suc 3" using assms(2) by (intro nat_digits_bound) simp
  then have "exponent_loop 0 0 (nat_digits n @ rest) = Inr (int n, rest)"
    using exponent_loop_digits [of "nat_digits n" 0 rest 0] nat_digits_ok [of n] assms by simp
  then show ?thesis using nat_digits_ok [of n] by (simp add: parse_exponent_def)
qed

lemma parseNumber_parts:
  assumes "list_all is_digit ds" and "ds \<noteq> []" and "hd ds \<noteq> CHR ''0''"
    and "tail = [] \<or> \<not> is_digit (hd tail) \<and> hd tail \<noteq> CHR ''.''" and "parse_exponent tail = Inr (e, rest)"
    and "delimited rest" and "1 + length ds + length tail - length rest \<le> MaxNumberLexemeBytes"
    and "build_decimal neg ds [] e = Inr d"
  shows "parseNumber ((if neg then ''-'' else []) @ ds @ tail) = Inr (d, rest)"
proof -
  obtain c cs where ds: "ds = c # cs" using assms(2) by (cases ds) auto
  have c: "is_digit c" "c \<noteq> CHR ''0''" "c \<noteq> CHR ''-''" using assms(1,3) ds by (auto simp: is_digit_def)
  have i: "parse_integer (ds @ tail) = Inr (ds, tail)"
    using takeWhile_digits [OF assms(1), of tail] assms(4) c by (auto simp: parse_integer_def ds)
  have f: "parse_fraction tail = Inr ([], tail)"
    using assms(4) by (cases tail) (auto simp: parse_fraction_def)
  have "consume (CHR ''-'') (ds @ tail) = None" using c by (simp add: ds)
  then show ?thesis
    using i f assms(5-8) by (cases neg) (auto simp: parseNumber_def Let_def delimited_def)
qed

lemma trim_right_keep: "s \<noteq> [] \<Longrightarrow> last s \<noteq> c \<Longrightarrow> trim_right_byte c (s @ replicate k c) = s"
proof -
  have "dropWhile (\<lambda>x. x = c) (replicate k c @ t) = dropWhile (\<lambda>x. x = c) t" for t by (induction k) auto
  then show "s \<noteq> [] \<Longrightarrow> last s \<noteq> c \<Longrightarrow> trim_right_byte c (s @ replicate k c) = s"
    by (cases s rule: rev_cases) (simp_all add: trim_right_byte_def)
qed

lemma build_decimal_zeros:
  assumes "decimal_ok d" and "dec_digits d \<noteq> []" and "length (dec_digits d) + k \<le> MaxMantissaDigits"
    and "dec_exponent d = e + int k"
  shows "build_decimal (dec_negative d) (dec_digits d @ replicate k (CHR ''0'')) [] e = Inr d"
proof -
  let ?m = "dec_digits d @ replicate k (CHR ''0'')"
  have ok: "hd (dec_digits d) \<noteq> CHR ''0''" "last (dec_digits d) \<noteq> CHR ''0''" "\<bar>dec_exponent d\<bar> \<le> MaxAbsExponent"
    "length (dec_digits d) \<le> MaxMantissaDigits"
    using assms(1,2) by (auto simp: decimal_ok_def)
  have s: "trim_left_byte (CHR ''0'') ?m = ?m"
    using assms(2) ok(1) by (cases "dec_digits d") (auto simp: trim_left_byte_def)
  have t: "trim_mantissa ?m = dec_digits d" unfolding trim_mantissa_def by (rule trim_right_keep [OF assms(2) ok(2)])
  have p: "int (length (dec_digits d)) + dec_exponent d \<le> MaxIntegerDigits"
    using ok(3,4) by (auto simp: MaxMantissaDigits_def)
  show ?thesis
    unfolding build_decimal_def Let_def append_Nil2 s t using assms(2-4) ok(3) p by auto
qed

lemma parseNumber_text:
  assumes "decimal_ok d" and "writable d" and "delimited rest"
  shows "parseNumber (canonicalDecimal d @ rest) = Inr (d, rest)"
proof (cases "dec_digits d = []")
  case True
  then have d: "d = zero_decimal" using assms(1) by (simp add: decimal_ok_def)
  have "parse_exponent rest = Inr (0, rest)" "parse_fraction rest = Inr ([], rest)"
    using delimited_no_number [OF assms(3)] by (cases rest; simp add: parse_exponent_def parse_fraction_def)+
  moreover have "parse_integer (CHR ''0'' # rest) = Inr (''0'', rest)"
    using delimited_no_number [OF assms(3)] by (auto simp: parse_integer_def)
  moreover have "build_decimal False ''0'' [] 0 = Inr zero_decimal"
    by (simp add: build_decimal_def trim_left_byte_def MaxMantissaDigits_def)
  ultimately show ?thesis
    using assms(3) by (simp add: d canonicalDecimal_def parseNumber_def MaxNumberLexemeBytes_def delimited_def)
next
  case False
  note nn = delimited_no_number [OF assms(3)]
  let ?ds = "dec_digits d" and ?k = "nat (dec_exponent d)"
  have ok: "list_all is_digit ?ds" "hd ?ds \<noteq> CHR ''0''" "\<bar>dec_exponent d\<bar> \<le> MaxAbsExponent" "length ?ds \<le> MaxMantissaDigits"
    using assms(1) False by (auto simp: decimal_ok_def)
  have z: "list_all is_digit (?ds @ replicate ?k (CHR ''0''))" using ok(1) digits_zero(1) by (auto simp: list_all_iff)
  show ?thesis
  proof (cases "0 \<le> dec_exponent d")
    case True
    have "parse_exponent rest = Inr (0, rest)" using nn by (cases rest) (simp_all add: parse_exponent_def)
    then have "parseNumber ((if dec_negative d then ''-'' else []) @ (?ds @ replicate ?k (CHR ''0'')) @ rest) = Inr (d, rest)"
      using build_decimal_zeros [OF assms(1) False, of ?k 0] True z False ok(2) nn assms(2,3)
      by (intro parseNumber_parts [where e = 0])
        (auto simp: writable_def MaxMantissaDigits_def MaxNumberLexemeBytes_def)
    then show ?thesis using False True by (auto simp: canonicalDecimal_def split: if_splits)
  next
    case neg: False
    let ?n = "nat (- dec_exponent d)"
    have l: "length (nat_digits ?n) \<le> Suc 3" using ok(3) by (intro nat_digits_bound) auto
    have x: "parse_exponent (''e-'' @ nat_digits ?n @ rest) = Inr (- int ?n, rest)"
      using neg ok(3) nn by (intro parse_exponent_text) auto
    have "parseNumber ((if dec_negative d then ''-'' else []) @ ?ds @ ''e-'' @ nat_digits ?n @ rest) = Inr (d, rest)"
      using build_decimal_zeros [OF assms(1) False, of 0 "- int ?n"] neg ok False l assms(3)
      by (intro parseNumber_parts [OF ok(1) False ok(2) _ x])
        (auto simp: is_digit_def MaxMantissaDigits_def MaxNumberLexemeBytes_def)
    then show ?thesis using False neg by (auto simp: canonicalDecimal_def Let_def)
  qed
qed

end
