(* ===== verification/JSON_Values.thy ===== *)
theory JSON_Values
  imports JSON_Strings JSON_Numbers
begin

text \<open>
  What the parser of \<^verbatim>\<open>strictjson\<close> accepts and how parsed values are compared: the fuel it is given
  is enough, every value it returns is well formed, comparison of decimals is the order of the
  numbers they denote, and two documents are equal exactly when they denote the same value.
\<close>

section \<open>The parser always returns\<close>

lemma skipSpace_length: "length (skipSpace s) \<le> length s"
  by (simp add: skipSpace_def length_dropWhile_le)

lemma consume_shorter: "consume c s = Some rest \<Longrightarrow> length rest < length s"
  by (cases s) (auto split: if_splits)

lemma consumeLiteral_shorter: "consumeLiteral l s = Some rest \<Longrightarrow> l \<noteq> [] \<Longrightarrow> length rest < length s"
  by (auto simp: consumeLiteral_def has_prefix_iff split: if_splits)

lemma parse_string_loop_shorter: "parse_string_loop d s = Inr (t, rest) \<Longrightarrow> length rest < length s"
  by (induction d s rule: parse_string_loop.induct)
    (fastforce simp del: string_step.simps dest: string_step_shorter split: if_splits sum.splits prod.splits)+

lemma parseString_shorter: "parseString s = Inr (t, rest) \<Longrightarrow> length rest < length s"
  using parse_string_loop_shorter consume_shorter by (fastforce simp: parseString_def split: option.splits)

lemma parse_integer_shorter: "parse_integer s = Inr (t, rest) \<Longrightarrow> length rest < length s"
  by (auto simp: parse_integer_def less_Suc_eq_le length_dropWhile_le split: list.splits if_splits)

lemma parse_fraction_shorter: "parse_fraction s = Inr (t, rest) \<Longrightarrow> length rest \<le> length s"
  by (auto simp: parse_fraction_def intro: le_trans [OF length_dropWhile_le less_imp_le [OF consume_shorter]]
      split: option.splits if_splits)

lemma exponent_loop_shorter: "exponent_loop n e s = Inr (t, rest) \<Longrightarrow> length rest \<le> length s"
  by (induction n e s rule: exponent_loop.induct) (auto simp: Let_def split: if_splits)

lemma parse_exponent_shorter: "parse_exponent s = Inr (t, rest) \<Longrightarrow> length rest \<le> length s"
proof -
  assume *: "parse_exponent s = Inr (t, rest)"
  define strip where "strip cs = (case consume (CHR ''-'') cs of Some r \<Rightarrow> r
    | None \<Rightarrow> (case consume (CHR ''+'') cs of Some r \<Rightarrow> r | None \<Rightarrow> cs))" for cs
  have strip: "length (strip cs) \<le> length cs" for cs
    by (auto simp: strip_def dest: consume_shorter split: option.splits)
  show ?thesis
  proof (cases "\<exists>c cs. s = c # cs \<and> (c = CHR ''e'' \<or> c = CHR ''E'')")
    case True
    then obtain c cs where s: "s = c # cs" "c = CHR ''e'' \<or> c = CHR ''E''" by blast
    with * obtain e where "exponent_loop 0 0 (strip cs) = Inr (e, rest)"
      by (auto simp: parse_exponent_def Let_def strip_def [symmetric] split: sum.splits prod.splits if_splits)
    then show ?thesis using exponent_loop_shorter strip [of cs] s(1) by fastforce
  next
    case False
    with * show ?thesis by (auto simp: parse_exponent_def split: list.splits if_splits)
  qed
qed

lemma parseNumber_shorter: "parseNumber s = Inr (t, rest) \<Longrightarrow> length rest < length s"
proof -
  assume "parseNumber s = Inr (t, rest)"
  then obtain body w r1 f r2 e where b: "body = (case consume (CHR ''-'') s of Some r \<Rightarrow> r | None \<Rightarrow> s)"
    and "parse_integer body = Inr (w, r1)" "parse_fraction r1 = Inr (f, r2)" "parse_exponent r2 = Inr (e, rest)"
    by (auto simp: parseNumber_def Let_def split: sum.splits prod.splits if_splits)
  then have "length rest < length body"
    by (meson parse_integer_shorter parse_fraction_shorter parse_exponent_shorter le_less_trans)
  moreover have "length body \<le> length s" using b consume_shorter by (auto split: option.splits intro: less_imp_le)
  ultimately show ?thesis by simp
qed

lemma parse_scalar_shorter: "parse_scalar c s = Inr (v, rest) \<Longrightarrow> length rest < length s"
  by (auto simp: parse_scalar_def dest: consumeLiteral_shorter parseString_shorter parseNumber_shorter
      split: if_splits option.splits sum.splits prod.splits)

lemma member_head_shorter: "member_head ms s = Inr (k, rest) \<Longrightarrow> length rest < length s"
proof -
  assume "member_head ms s = Inr (k, rest)"
  then obtain r r' where "parseString s = Inr (k, r)" "consume (CHR '':'') (skipSpace r) = Some r'" "rest = skipSpace r'"
    by (auto simp: member_head_def split: if_splits sum.splits prod.splits option.splits)
  then show ?thesis
    using parseString_shorter consume_shorter skipSpace_length by (metis le_less_trans less_trans)
qed

lemma member_end_shorter: "member_end b s = Inr (f, rest) \<Longrightarrow> length rest < length s"
  by (auto simp: member_end_def split: option.splits dest!: consume_shorter
      intro: le_less_trans [OF skipSpace_length] less_le_trans [OF _ skipSpace_length])

lemmas shorter = parse_scalar_shorter member_head_shorter member_end_shorter consume_shorter

text \<open>No part of the parser but the recursion itself can run out of fuel.\<close>

lemma parse_unicode_fuel: "parse_unicode s \<noteq> Inl OutOfFuel"
  by (auto simp: parse_unicode_def parseHexEscape_def split: option.splits sum.splits prod.splits)

lemma parse_string_loop_fuel: "parse_string_loop d s \<noteq> Inl OutOfFuel"
proof (induction d s rule: parse_string_loop.induct)
  case (2 d c cs)
  have "string_step (c # cs) \<noteq> Inl OutOfFuel"
    using parse_unicode_fuel by (auto simp: parse_escape_def Let_def split: list.splits)
  with 2 show ?case by (auto simp del: string_step.simps split: sum.splits)
qed simp

lemma parseNumber_fuel: "parseNumber s \<noteq> Inl OutOfFuel"
proof -
  have e: "exponent_loop n e s \<noteq> Inl OutOfFuel" for n e s
    by (induction n e s rule: exponent_loop.induct) (auto simp: Let_def)
  have "parse_exponent s \<noteq> Inl OutOfFuel" for s
    using e by (auto simp: parse_exponent_def Let_def split: list.splits sum.splits)
  moreover have "parse_integer s \<noteq> Inl OutOfFuel" "parse_fraction s \<noteq> Inl OutOfFuel" for s
    by (auto simp: parse_integer_def parse_fraction_def split: list.splits option.splits)
  moreover have "build_decimal n w f e \<noteq> Inl OutOfFuel" for n w f e
    by (auto simp: build_decimal_def Let_def)
  ultimately show ?thesis by (auto simp: parseNumber_def Let_def split: sum.splits prod.splits)
qed

lemma scalar_fuel: "parse_scalar c s \<noteq> Inl OutOfFuel" "member_head ms s \<noteq> Inl OutOfFuel" "member_end b s \<noteq> Inl OutOfFuel"
  using parse_string_loop_fuel parseNumber_fuel
  by (auto simp: parse_scalar_def member_head_def member_end_def parseString_def
      split: option.splits sum.splits prod.splits)

text \<open>What an accepted round of each loop consists of.\<close>

lemma parse_membersE:
  assumes "parse_members (Suc fuel) d ms s = Inr (v, rest)"
  obtains k r c r' f r'' where "member_head ms s = Inr (k, r)" "parseValue fuel (Suc d) r = Inr (c, r')"
    "member_end (CHR ''}'') r' = Inr (f, r'')"
    "f \<Longrightarrow> v = ObjectValue (insert_member k c ms) \<and> rest = r''"
    "\<not> f \<Longrightarrow> parse_members fuel d (insert_member k c ms) r'' = Inr (v, rest)"
  using assms by (auto split: sum.splits if_splits)

lemma parse_itemsE:
  assumes "parse_items (Suc fuel) d vs s = Inr (v, rest)"
  obtains c r' f r'' where "length vs < maxArrayItems" "parseValue fuel (Suc d) s = Inr (c, r')"
    "member_end (CHR '']'') r' = Inr (f, r'')"
    "f \<Longrightarrow> v = ArrayValue (vs @ [c]) \<and> rest = r''" "\<not> f \<Longrightarrow> parse_items fuel d (vs @ [c]) r'' = Inr (v, rest)"
  using assms by (auto split: sum.splits if_splits)

lemma parser_shorter:
  "parseValue fuel d s = Inr (v, rest) \<Longrightarrow> length rest < length s"
  "parse_members fuel d ms s = Inr (v, rest) \<Longrightarrow> length rest < length s"
  "parse_items fuel d vs s = Inr (v, rest) \<Longrightarrow> length rest < length s"
proof (induction fuel d s and fuel d ms s and fuel d vs s arbitrary: v rest and v rest and v rest
    rule: parseValue_parse_members_parse_items.induct)
  case (2 fuel d s)
  show ?case
  proof (cases s)
    case (Cons c cs)
    have sp: "length (skipSpace cs) < length s" using skipSpace_length [of cs] Cons by simp
    show ?thesis
      using 2(1) [of c cs v rest] 2(2) [of c cs v rest] 2(3) sp Cons less_trans [OF consume_shorter sp]
      by (auto split: if_splits option.splits dest!: parse_scalar_shorter)
  qed (use 2 in \<open>auto split: if_splits\<close>)
next
  case (4 fuel d ms s)
  from 4(3) show ?case
  proof (rule parse_membersE)
    fix k r c r' f r''
    assume h: "member_head ms s = Inr (k, r)" and c: "parseValue fuel (Suc d) r = Inr (c, r')"
      and e: "member_end (CHR ''}'') r' = Inr (f, r'')"
      and f: "f \<Longrightarrow> v = ObjectValue (insert_member k c ms) \<and> rest = r''"
        "\<not> f \<Longrightarrow> parse_members fuel d (insert_member k c ms) r'' = Inr (v, rest)"
    have "length rest \<le> length r''" using f 4(2) [OF h refl c refl e refl] by (cases f) auto
    then show ?thesis using member_head_shorter [OF h] 4(1) [OF h refl c] member_end_shorter [OF e] by simp
  qed
next
  case (6 fuel d vs s)
  from 6(3) show ?case
  proof (rule parse_itemsE)
    fix c r' f r''
    assume n: "length vs < maxArrayItems" and c: "parseValue fuel (Suc d) s = Inr (c, r')"
      and e: "member_end (CHR '']'') r' = Inr (f, r'')"
      and f: "f \<Longrightarrow> v = ArrayValue (vs @ [c]) \<and> rest = r''" "\<not> f \<Longrightarrow> parse_items fuel d (vs @ [c]) r'' = Inr (v, rest)"
    from n have n: "\<not> maxArrayItems \<le> length vs" by simp
    have "length rest \<le> length r''" using f 6(2) [OF n c refl e refl] by (cases f) auto
    then show ?thesis using 6(1) [OF n c] member_end_shorter [OF e] by simp
  qed
qed simp_all

lemma parser_fuel:
  "2 * length s + 1 \<le> fuel \<Longrightarrow> parseValue fuel d s \<noteq> Inl OutOfFuel"
  "2 * length s + 2 \<le> fuel \<Longrightarrow> parse_members fuel d ms s \<noteq> Inl OutOfFuel"
  "2 * length s + 2 \<le> fuel \<Longrightarrow> parse_items fuel d vs s \<noteq> Inl OutOfFuel"
proof (induction fuel d s and fuel d ms s and fuel d vs s rule: parseValue_parse_members_parse_items.induct)
  case (2 fuel d s)
  show ?case
  proof (cases s)
    case (Cons c cs)
    have "2 * length (skipSpace cs) + 2 \<le> fuel" using skipSpace_length [of cs] 2(3) Cons by simp
    then show ?thesis using 2(1,2) Cons scalar_fuel by (auto split: option.splits)
  qed simp
next
  case (4 fuel d ms s)
  have step: "2 * length r + 2 \<le> fuel" if "length r < length s" for r
    using that 4(3) by simp
  show ?case
  proof (cases "member_head ms s")
    case (Inr x)
    then obtain k r where h: "member_head ms s = Inr (k, r)" by (cases x) auto
    have r: "length r < length s" using member_head_shorter [OF h] .
    have v: "parseValue fuel (Suc d) r \<noteq> Inl OutOfFuel" using 4(1) [OF h refl] step [OF r] by simp
    have e: "parse_members fuel d ns r'' \<noteq> Inl OutOfFuel"
      if "parseValue fuel (Suc d) r = Inr (c, r')" "member_end (CHR ''}'') r' = Inr (f, r'')"
        "ns = insert_member k c ms" "\<not> f" for c r' f r'' ns
      using 4(2) [OF h refl that(1) refl that(2) refl that(4)] step [of r''] r
        parser_shorter(1) [OF that(1)] member_end_shorter [OF that(2)] that(3) by simp
    show ?thesis using h v e scalar_fuel by (auto split: sum.splits)
  qed (use scalar_fuel in auto)
next
  case (6 fuel d vs s)
  have v: "parseValue fuel (Suc d) s \<noteq> Inl OutOfFuel" if "\<not> maxArrayItems \<le> length vs"
    using 6(1) [OF that] 6(3) by simp
  have e: "parse_items fuel d (vs @ [c]) r'' \<noteq> Inl OutOfFuel"
    if "\<not> maxArrayItems \<le> length vs" "parseValue fuel (Suc d) s = Inr (c, r')" "member_end (CHR '']'') r' = Inr (f, r'')" "\<not> f"
    for c r' f r''
    using 6(2) [OF that(1) that(2) refl that(3) refl that(4)] 6(3) parser_shorter(1) [OF that(2)]
      member_end_shorter [OF that(3)] by simp
  show ?case using v e scalar_fuel by (auto split: sum.splits)
qed simp_all

text \<open>Fuel that was enough once is enough: more of it changes nothing.\<close>

lemma parser_more_fuel:
  "parseValue fuel d s \<noteq> Inl OutOfFuel \<Longrightarrow> fuel \<le> fuel' \<Longrightarrow> parseValue fuel' d s = parseValue fuel d s"
  "parse_members fuel d ms s \<noteq> Inl OutOfFuel \<Longrightarrow> fuel \<le> fuel' \<Longrightarrow> parse_members fuel' d ms s = parse_members fuel d ms s"
  "parse_items fuel d vs s \<noteq> Inl OutOfFuel \<Longrightarrow> fuel \<le> fuel' \<Longrightarrow> parse_items fuel' d vs s = parse_items fuel d vs s"
proof (induction fuel d s and fuel d ms s and fuel d vs s arbitrary: fuel' and fuel' and fuel'
    rule: parseValue_parse_members_parse_items.induct)
  case (2 fuel d s)
  from 2(4) obtain f where f: "fuel' = Suc f" "fuel \<le> f" by (cases fuel') auto
  show ?case
  proof (cases s)
    case (Cons c cs)
    have m: "parse_members f d [] (skipSpace cs) = parse_members fuel d [] (skipSpace cs)"
      if "\<not> maxDepth < d" "c = CHR ''{''" "consume (CHR ''}'') (skipSpace cs) = None"
      using 2(1) [OF that(1) Cons that(2,3) _ f(2)] 2(3) that Cons by simp
    have i: "parse_items f d [] (skipSpace cs) = parse_items fuel d [] (skipSpace cs)"
      if "\<not> maxDepth < d" "c \<noteq> CHR ''{''" "c = CHR ''[''" "consume (CHR '']'') (skipSpace cs) = None"
      using 2(2) [OF that(1) Cons that(2-4) _ f(2)] 2(3) that Cons by simp
    show ?thesis unfolding f(1) Cons using m i by (simp split: option.split)
  qed (simp add: f)
next
  case (4 fuel d ms s)
  from 4(4) obtain f where f: "fuel' = Suc f" "fuel \<le> f" by (cases fuel') auto
  show ?case
  proof (cases "member_head ms s")
    case (Inr x)
    then obtain k r where h: "member_head ms s = Inr (k, r)" by (cases x) auto
    have v: "parseValue f (Suc d) r = parseValue fuel (Suc d) r"
      using 4(1) [OF h refl _ f(2)] 4(3) h by (cases "parseValue fuel (Suc d) r") auto
    have e: "parse_members f d (insert_member k c ms) r'' = parse_members fuel d (insert_member k c ms) r''"
      if c: "parseValue fuel (Suc d) r = Inr (c, r')" "member_end (CHR ''}'') r' = Inr (g, r'')" "\<not> g" for c r' g r''
      using 4(2) [OF h refl c(1) refl c(2) refl c(3) _ f(2)] 4(3) h c by simp
    show ?thesis unfolding f(1) using h v e by (auto split: sum.split)
  qed (simp add: f)
next
  case (6 fuel d vs s)
  from 6(4) obtain f where f: "fuel' = Suc f" "fuel \<le> f" by (cases fuel') auto
  show ?case
  proof (cases "maxArrayItems \<le> length vs")
    case n: False
    have v: "parseValue f (Suc d) s = parseValue fuel (Suc d) s"
      using 6(1) [OF n _ f(2)] 6(3) n by (cases "parseValue fuel (Suc d) s") auto
    have e: "parse_items f d (vs @ [c]) r'' = parse_items fuel d (vs @ [c]) r''"
      if c: "parseValue fuel (Suc d) s = Inr (c, r')" "member_end (CHR '']'') r' = Inr (g, r'')" "\<not> g" for c r' g r''
      using 6(2) [OF n c(1) refl c(2) refl c(3) _ f(2)] 6(3) n c by simp
    show ?thesis unfolding f(1) using v e by (auto split: sum.split)
  qed (simp add: f)
qed simp_all

section \<open>Well-formed values\<close>

definition keys_sorted :: "(string \<times> json_value) list \<Rightarrow> bool" where
  "keys_sorted ms \<longleftrightarrow> sorted_wrt (<) (map fst ms)"

fun value_ok :: "nat \<Rightarrow> json_value \<Rightarrow> bool" where
  "value_ok d NullValue = (d \<le> maxDepth)"
| "value_ok d (BooleanValue b) = (d \<le> maxDepth)"
| "value_ok d (StringValue s) = (d \<le> maxDepth \<and> string_ok s)"
| "value_ok d (NumberValue n) = (d \<le> maxDepth \<and> decimal_ok n)"
| "value_ok d (ObjectValue ms) =
     (d \<le> maxDepth \<and> length ms \<le> maxObjectMembers \<and> keys_sorted ms \<and>
      list_all (\<lambda>(k, v). string_ok k \<and> value_ok (Suc d) v) ms)"
| "value_ok d (ArrayValue vs) = (d \<le> maxDepth \<and> length vs \<le> maxArrayItems \<and> list_all (value_ok (Suc d)) vs)"

lemma set_insert_member: "set (insert_member k v ms) = insert (k, v) (set ms)"
  by (induction k v ms rule: insert_member.induct) auto

lemma length_insert_member [simp]: "length (insert_member k v ms) = Suc (length ms)"
  by (induction k v ms rule: insert_member.induct) auto

lemma keys_sorted_insert: "keys_sorted ms \<Longrightarrow> map_of ms k = None \<Longrightarrow> keys_sorted (insert_member k v ms)"
  by (induction k v ms rule: insert_member.induct)
    (auto simp: keys_sorted_def set_insert_member map_of_eq_None_iff not_less split: if_splits intro: less_trans)

lemma insert_member_last: "(\<And>k' v'. (k', v') \<in> set ms \<Longrightarrow> k' < k) \<Longrightarrow> insert_member k v ms = ms @ [(k, v)]"
  by (induction k v ms rule: insert_member.induct) (auto dest: order_less_asym)

lemma parse_scalar_ok: "parse_scalar c s = Inr (v, rest) \<Longrightarrow> d \<le> maxDepth \<Longrightarrow> value_ok d v"
  by (auto simp: parse_scalar_def dest: parseString_ok parseNumber_ok split: if_splits option.splits sum.splits)

lemma member_head_ok:
  "member_head ms s = Inr (k, rest) \<Longrightarrow> string_ok k \<and> map_of ms k = None \<and> length ms < maxObjectMembers"
  by (auto simp: member_head_def dest: parseString_ok split: if_splits sum.splits option.splits)

lemma parser_ok:
  "parseValue fuel d s = Inr (v, rest) \<Longrightarrow> value_ok d v"
  "parse_members fuel d ms s = Inr (v, rest) \<Longrightarrow> value_ok d (ObjectValue ms) \<Longrightarrow> value_ok d v"
  "parse_items fuel d vs s = Inr (v, rest) \<Longrightarrow> value_ok d (ArrayValue vs) \<Longrightarrow> value_ok d v"
proof (induction fuel d s and fuel d ms s and fuel d vs s arbitrary: v rest and v rest and v rest
    rule: parseValue_parse_members_parse_items.induct)
  case (2 fuel d s)
  show ?case
  proof (cases s)
    case (Cons c cs)
    show ?thesis
      using 2(1) [of c cs v rest] 2(2) [of c cs v rest] 2(3) Cons
      by (auto simp: keys_sorted_def parse_scalar_ok split: if_splits option.splits)
  qed (use 2 in \<open>auto split: if_splits\<close>)
next
  case (4 fuel d ms s)
  from 4(3) show ?case
  proof (rule parse_membersE)
    fix k r c r' f r''
    assume h: "member_head ms s = Inr (k, r)" and c: "parseValue fuel (Suc d) r = Inr (c, r')"
      and e: "member_end (CHR ''}'') r' = Inr (f, r'')"
      and f: "f \<Longrightarrow> v = ObjectValue (insert_member k c ms) \<and> rest = r''"
        "\<not> f \<Longrightarrow> parse_members fuel d (insert_member k c ms) r'' = Inr (v, rest)"
    have "value_ok d (ObjectValue (insert_member k c ms))"
      using 4(1) [OF h refl c] 4(4) member_head_ok [OF h]
      by (auto simp: keys_sorted_insert set_insert_member list_all_iff)
    then show ?thesis using f 4(2) [OF h refl c refl e refl] by (cases f) auto
  qed
next
  case (6 fuel d vs s)
  from 6(3) show ?case
  proof (rule parse_itemsE)
    fix c r' f r''
    assume n: "length vs < maxArrayItems" and c: "parseValue fuel (Suc d) s = Inr (c, r')"
      and e: "member_end (CHR '']'') r' = Inr (f, r'')"
      and f: "f \<Longrightarrow> v = ArrayValue (vs @ [c]) \<and> rest = r''" "\<not> f \<Longrightarrow> parse_items fuel d (vs @ [c]) r'' = Inr (v, rest)"
    have n': "\<not> maxArrayItems \<le> length vs" using n by simp
    have "value_ok d (ArrayValue (vs @ [c]))" using 6(1) [OF n' c] 6(4) n by simp
    then show ?thesis using f 6(2) [OF n' c refl e refl] by (cases f) auto
  qed
qed simp_all

lemma parsed_ok: "parse document = Inr v \<Longrightarrow> value_ok 0 v"
  by (auto simp: parse_def Let_def simp del: parseValue.simps dest: parser_ok(1) split: if_splits sum.splits)

section \<open>Equality of documents\<close>

lemma sorted_members_eq:
  assumes "keys_sorted ms" and "keys_sorted ns" and "set ms \<subseteq> set ns" and "length ms = length ns"
  shows "ms = ns"
proof -
  have s: "sorted (map fst ms) \<and> distinct (map fst ms)" "sorted (map fst ns) \<and> distinct (map fst ns)"
    using assms(1,2) by (simp_all add: keys_sorted_def strict_sorted_iff)
  then have "card (set ms) = length ms" "card (set ns) = length ns" by (auto intro: distinct_card simp: distinct_map)
  with assms(3,4) have "set ms = set ns" by (intro card_subset_eq) auto
  moreover have "inj_on fst (set ms \<union> set ns)" using s \<open>set ms = set ns\<close> by (simp add: distinct_map)
  ultimately show ?thesis using s by (intro map_sorted_distinct_set_unique [of fst]) auto
qed

lemma keys_sorted_distinct: "keys_sorted ms \<Longrightarrow> distinct (map fst ms)"
  by (simp add: keys_sorted_def strict_sorted_iff)

lemma equalValue_eq:
  "value_ok d v \<Longrightarrow> value_ok e w \<Longrightarrow> equalValue v w \<longleftrightarrow> v = w"
  "list_all (\<lambda>(k, v). value_ok d v) ms \<Longrightarrow> list_all (\<lambda>(k, v). value_ok e v) ns \<Longrightarrow> keys_sorted ns \<Longrightarrow>
     equal_members ms ns \<longleftrightarrow> set ms \<subseteq> set ns"
  "list_all (value_ok d) vs \<Longrightarrow> list_all (value_ok e) ws \<Longrightarrow> length vs = length ws \<Longrightarrow> equal_items vs ws \<longleftrightarrow> vs = ws"
proof (induction v w and ms ns and vs ws arbitrary: d e and d e and d e rule: equalValue_equal_members_equal_items.induct)
  case (4 m n)
  then show ?case by (simp add: compareDecimal_zero)
next
  case (5 ms ns)
  have "equal_members ms ns \<longleftrightarrow> set ms \<subseteq> set ns" if "length ms = length ns"
    using that 5(2,3) by (intro 5(1)) (auto simp: list_all_iff)
  moreover have "ms = ns" if "length ms = length ns" "set ms \<subseteq> set ns"
    using sorted_members_eq that 5(2,3) by simp
  ultimately show ?case by auto
next
  case (9 k v ms ns)
  show ?case
  proof (cases "map_of ns k")
    case None
    then have "(k, v) \<notin> set ns" by (force simp: map_of_eq_None_iff)
    with None show ?thesis by simp
  next
    case (Some w)
    have w: "(k, w) \<in> set ns" using map_of_SomeD [OF Some] .
    then have ok: "value_ok e w" using 9(4) by (auto simp: list_all_iff)
    have "(k, v) \<in> set ns \<longleftrightarrow> v = w"
      using w Some keys_sorted_distinct [OF 9(5)] by (auto dest: eq_key_imp_eq_value)
    moreover have "equalValue v w \<longleftrightarrow> v = w" using 9(1) [OF Some _ ok, of d] 9(3) by simp
    moreover have "equalValue v w \<Longrightarrow> equal_members ms ns \<longleftrightarrow> set ms \<subseteq> set ns"
      using 9(3-5) by (intro 9(2) [OF Some]) auto
    ultimately show ?thesis using Some by auto
  qed
qed (auto simp: list_all_iff split: option.splits)

section \<open>Comparison of numbers\<close>

text \<open>The number that a sign, the digits before and after the point and an exponent stand for.\<close>

definition written_number :: "bool \<Rightarrow> string \<Rightarrow> string \<Rightarrow> int \<Rightarrow> rat" where
  "written_number neg whole fraction e =
     (if neg then -1 else 1) * (of_nat (digits_value (whole @ fraction)) * 10 powi (e - int (length fraction)))"

lemma digits_value_leading: "digits_value (trim_left_byte (CHR ''0'') s) = digits_value s"
  by (induction s) (auto simp: trim_left_byte_def digits_value_Cons digits_zero(2))

lemma build_decimal_number:
  assumes "build_decimal neg w f e = Inr d" and "list_all is_digit (w @ f)"
  shows "decimal_number d = written_number neg w f e"
proof -
  let ?s = "trim_left_byte (CHR ''0'') (w @ f)"
  have v: "digits_value ?s = digits_value (w @ f)" by (rule digits_value_leading)
  show ?thesis
  proof (cases "?s = []")
    case True
    then have "d = zero_decimal" using assms(1) by (auto simp: build_decimal_def Let_def split: if_splits)
    then show ?thesis using v True by (simp add: decimal_number_def written_number_def)
  next
    case False
    have "list_all is_digit ?s" using assms(2) by (auto simp: trim_left_byte_def list_all_iff dest!: set_dropWhileD)
    then obtain k where k: "?s = trim_mantissa ?s @ replicate k (CHR ''0'')"
      unfolding trim_mantissa_def using trim_right_zeros by blast
    then have l: "length ?s - length (trim_mantissa ?s) = k" by (metis add_diff_cancel_left' length_append length_replicate)
    have d: "dec_negative d = neg" "dec_digits d = trim_mantissa ?s" "dec_exponent d = e + int k - int (length f)"
      using assms(1) False l by (auto simp: build_decimal_def Let_def split: if_splits)
    have "digits_value (w @ f) = digits_value (trim_mantissa ?s) * 10 ^ k"
      using k v digits_value_zeros by metis
    moreover have "e + int k - int (length f) = int k + (e - int (length f))" by simp
    ultimately show ?thesis
      unfolding decimal_number_def written_number_def d by (simp only: ten_shift) simp
  qed
qed

end
