(* ===== verification/JSON_Normalize.thy ===== *)
theory JSON_Normalize
  imports JSON_Values
begin

text \<open>
  The canonical text of \<^verbatim>\<open>Normalize\<close>: what \<^verbatim>\<open>writeValue\<close> writes for a well-formed value is read
  back as the same value, within the limits of the parser. The properties of the package stand at
  the end.
\<close>

section \<open>Enough fuel\<close>

lemma parseValue_lift: "parseValue f d s = Inr x \<Longrightarrow> f \<le> f' \<Longrightarrow> parseValue f' d s = Inr x"
  using parser_more_fuel(1) [of f d s f'] by simp

lemma parse_members_lift: "parse_members f d ms s = Inr x \<Longrightarrow> f \<le> f' \<Longrightarrow> parse_members f' d ms s = Inr x"
  using parser_more_fuel(2) [of f d ms s f'] by simp

lemma parse_items_lift: "parse_items f d vs s = Inr x \<Longrightarrow> f \<le> f' \<Longrightarrow> parse_items f' d vs s = Inr x"
  using parser_more_fuel(3) [of f d vs s f'] by simp

lemma parseValue_standard: "parseValue f d s = Inr x \<Longrightarrow> parseValue (2 * length s + 1) d s = Inr x"
proof -
  assume *: "parseValue f d s = Inr x"
  have "parseValue (f + (2 * length s + 1)) d s = Inr x" by (rule parseValue_lift [OF *]) simp
  moreover have "parseValue (f + (2 * length s + 1)) d s = parseValue (2 * length s + 1) d s"
    by (rule parser_more_fuel(1) [OF parser_fuel(1)]) simp_all
  ultimately show ?thesis by simp
qed

section \<open>Reading canonical text\<close>

fun value_writable :: "json_value \<Rightarrow> bool" where
  "value_writable (NumberValue n) = writable n"
| "value_writable (ObjectValue ms) = list_all (\<lambda>(k, v). value_writable v) ms"
| "value_writable (ArrayValue vs) = list_all value_writable vs"
| "value_writable _ = True"

text \<open>The first byte of the text of a value.\<close>

lemma canonicalDecimal_first:
  assumes "decimal_ok n"
  shows "\<exists>c cs. canonicalDecimal n = c # cs \<and> (c = CHR ''-'' \<or> is_digit c)"
proof (cases "dec_digits n")
  case Nil
  then show ?thesis using digits_zero(1) by (auto simp: canonicalDecimal_def)
next
  case (Cons c cs)
  then have "is_digit c" using assms by (simp add: decimal_ok_def)
  with Cons show ?thesis by (auto simp: canonicalDecimal_def Let_def)
qed

lemma writeValue_first:
  assumes "value_ok d v"
  shows "\<exists>c cs. writeValue v = c # cs \<and> \<not> is_space c \<and> c \<noteq> CHR '']'' \<and> c \<noteq> CHR ''}''"
  using assms
proof (cases v)
  case (NumberValue n)
  then show ?thesis using canonicalDecimal_first [of n] assms by (force simp: is_space_def is_digit_def)
qed (auto simp: json_string_def is_space_def)

lemma skipSpace_none: "\<not> is_space c \<Longrightarrow> skipSpace (c # cs) = c # cs"
  by (simp add: skipSpace_def)

lemma writeValue_skip:
  assumes "value_ok d v"
  shows "skipSpace (writeValue v @ rest) = writeValue v @ rest" and "consume (CHR '']'') (writeValue v @ rest) = None"
  using writeValue_first [OF assms] skipSpace_none by force+

lemma parse_scalar_text:
  assumes "value_ok d v" and "value_writable v" and "delimited rest"
    and "\<And>ms. v \<noteq> ObjectValue ms" and "\<And>vs. v \<noteq> ArrayValue vs"
  shows "parseValue (Suc f) d (writeValue v @ rest) = Inr (v, rest)"
proof (cases v)
  case (StringValue s)
  with assms(1) have "parseString (json_string s @ rest) = Inr (s, rest)" by (simp add: parse_json_string)
  with StringValue assms(1) show ?thesis by (simp add: parse_scalar_def json_string_def)
next
  case (NumberValue n)
  with assms have p: "parseNumber (canonicalDecimal n @ rest) = Inr (n, rest)" by (simp add: parseNumber_text)
  obtain c cs where c: "canonicalDecimal n = c # cs" "c = CHR ''-'' \<or> is_digit c"
    using canonicalDecimal_first [of n] assms(1) NumberValue by auto
  have "c \<noteq> CHR ''n'' \<and> c \<noteq> CHR ''t'' \<and> c \<noteq> CHR ''f'' \<and> c \<noteq> quote_byte \<and> c \<noteq> CHR ''{'' \<and> c \<noteq> CHR ''[''"
    using c(2) by (auto simp: is_digit_def)
  with p c NumberValue assms(1) show ?thesis by (auto simp: parse_scalar_def)
qed (use assms in \<open>auto simp: parse_scalar_def consumeLiteral_def has_prefix_def\<close>)

lemma member_head_text:
  assumes "string_ok k" and "length ms < maxObjectMembers" and "k \<notin> fst ` set ms" and "\<not> is_space c"
  shows "member_head ms (json_string k @ '':'' @ c # cs) = Inr (k, c # cs)"
proof -
  have "parseString (json_string k @ '':'' @ c # cs) = Inr (k, '':'' @ c # cs)" by (rule parse_json_string [OF assms(1)])
  moreover have "skipSpace ('':'' @ c # cs) = '':'' @ c # cs" by (simp add: skipSpace_none is_space_def)
  moreover have "hd (json_string k @ '':'' @ c # cs) = quote_byte" "json_string k @ '':'' @ c # cs \<noteq> []"
    by (simp_all add: json_string_def)
  ultimately show ?thesis using assms(2-4)
    by (simp add: member_head_def skipSpace_none map_of_eq_None_iff)
qed

lemma member_end_text:
  "b = CHR ''}'' \<or> b = CHR '']'' \<Longrightarrow> member_end b (b # rest) = Inr (True, rest)"
  "b = CHR ''}'' \<or> b = CHR '']'' \<Longrightarrow> \<not> is_space c \<Longrightarrow> member_end b (CHR '','' # c # cs) = Inr (False, c # cs)"
  by (auto simp: member_end_def skipSpace_none is_space_def)

lemma write_members_first: "ms \<noteq> [] \<Longrightarrow> \<exists>cs. write_members ms = quote_byte # cs"
  by (cases ms rule: write_members.cases) (auto simp: json_string_def)

lemma members_prefix:
  assumes "value_ok d (ObjectValue (qs @ (k, v) # ms))"
  shows "insert_member k v qs = qs @ [(k, v)]" and "k \<notin> fst ` set qs" and "length qs < maxObjectMembers"
    and "string_ok k" and "value_ok (Suc d) v"
proof -
  have s: "k' < k" if "(k', v') \<in> set qs" for k' v'
    using assms that by (force simp: keys_sorted_def sorted_wrt_append)
  then show "insert_member k v qs = qs @ [(k, v)]" by (rule insert_member_last)
  show "k \<notin> fst ` set qs" using s by force
qed (use assms in auto)

lemma parse_members_step:
  assumes "k \<notin> fst ` set qs" and "length qs < maxObjectMembers" and "string_ok k" and "value_ok (Suc d) v"
    and "\<And>u. delimited u \<Longrightarrow> \<exists>f. parseValue f (Suc d) (writeValue v @ u) = Inr (v, u)"
    and "ms \<noteq> [] \<Longrightarrow> \<exists>f. parse_members f d (insert_member k v qs) (write_members ms @ ''}'' @ rest) = Inr (w, rest)"
    and "ms = [] \<Longrightarrow> w = ObjectValue (insert_member k v qs)"
  shows "\<exists>f. parse_members f d qs (write_members ((k, v) # ms) @ ''}'' @ rest) = Inr (w, rest)"
proof -
  define u where "u = (if ms = [] then ''}'' @ rest else '','' @ write_members ms @ ''}'' @ rest)"
  have "delimited u" by (simp add: u_def delimited_def isValueDelimiter_def)
  then obtain f where f: "parseValue f (Suc d) (writeValue v @ u) = Inr (v, u)" using assms(5) by blast
  obtain c cs where c: "writeValue v = c # cs" "\<not> is_space c" using writeValue_first [OF assms(4)] by blast
  have h: "member_head qs (write_members ((k, v) # ms) @ ''}'' @ rest) = Inr (k, writeValue v @ u)"
    using member_head_text [OF assms(3,2,1) c(2), of "cs @ u"] by (cases "ms = []") (simp_all add: c(1) u_def)
  show ?thesis
  proof (cases "ms = []")
    case True
    have "member_end (CHR ''}'') u = Inr (True, rest)" by (simp add: u_def True member_end_text)
    then show ?thesis using h f assms(7) True by (intro exI [of _ "Suc f"]) (simp del: write_members.simps)
  next
    case False
    obtain cs' where q: "write_members ms = quote_byte # cs'" using write_members_first [OF False] by blast
    have e: "member_end (CHR ''}'') u = Inr (False, write_members ms @ ''}'' @ rest)"
      using q by (simp add: u_def False member_end_text is_space_def)
    obtain g where g: "parse_members g d (insert_member k v qs) (write_members ms @ ''}'' @ rest) = Inr (w, rest)"
      using assms(6) [OF False] by blast
    show ?thesis
      using h e parseValue_lift [OF f, of "max f g"] parse_members_lift [OF g, of "max f g"]
      by (intro exI [of _ "Suc (max f g)"]) (simp del: write_members.simps)
  qed
qed

lemma parse_members_text:
  assumes "value_ok d (ObjectValue (qs @ (k, v) # ms))"
    and "\<And>u. delimited u \<Longrightarrow> \<exists>f. parseValue f (Suc d) (writeValue v @ u) = Inr (v, u)"
    and "ms \<noteq> [] \<Longrightarrow> \<exists>f. parse_members f d (qs @ [(k, v)]) (write_members ms @ ''}'' @ rest) = Inr (ObjectValue (qs @ (k, v) # ms), rest)"
  shows "\<exists>f. parse_members f d qs (write_members ((k, v) # ms) @ ''}'' @ rest) = Inr (ObjectValue (qs @ (k, v) # ms), rest)"
  using assms(2,3) members_prefix [OF assms(1)] by (intro parse_members_step) simp_all

lemma parse_items_text:
  assumes "value_ok d (ArrayValue (ws @ v # vs))"
    and "\<And>u. delimited u \<Longrightarrow> \<exists>f. parseValue f (Suc d) (writeValue v @ u) = Inr (v, u)"
    and "vs \<noteq> [] \<Longrightarrow> \<exists>f. parse_items f d (ws @ [v]) (write_items vs @ '']'' @ rest) = Inr (ArrayValue (ws @ v # vs), rest)"
  shows "\<exists>f. parse_items f d ws (write_items (v # vs) @ '']'' @ rest) = Inr (ArrayValue (ws @ v # vs), rest)"
proof -
  have ok: "length ws < maxArrayItems" using assms(1) by auto
  define u where "u = (if vs = [] then '']'' @ rest else '','' @ write_items vs @ '']'' @ rest)"
  have "delimited u" by (simp add: u_def delimited_def isValueDelimiter_def)
  then obtain f where f: "parseValue f (Suc d) (writeValue v @ u) = Inr (v, u)" using assms(2) by blast
  have t: "write_items (v # vs) @ '']'' @ rest = writeValue v @ u" by (simp add: u_def)
  show ?thesis
  proof (cases vs)
    case Nil
    then have "member_end (CHR '']'') u = Inr (True, rest)" by (simp add: u_def member_end_text)
    then show ?thesis unfolding t using f ok Nil by (intro exI [of _ "Suc f"]) simp
  next
    case (Cons w us)
    have "value_ok (Suc d) w" using assms(1) Cons by simp
    then obtain c cs where c: "writeValue w = c # cs" "\<not> is_space c" using writeValue_first by blast
    have e: "member_end (CHR '']'') u = Inr (False, write_items vs @ '']'' @ rest)"
      using c by (simp add: u_def Cons member_end_text)
    obtain g where g: "parse_items g d (ws @ [v]) (write_items vs @ '']'' @ rest) = Inr (ArrayValue (ws @ v # vs), rest)"
      using assms(3) Cons by blast
    show ?thesis unfolding t
      using e ok parseValue_lift [OF f, of "max f g"] parse_items_lift [OF g, of "max f g"]
      by (intro exI [of _ "Suc (max f g)"]) simp
  qed
qed

lemma text_parsed:
  "value_ok d v \<Longrightarrow> value_writable v \<Longrightarrow> delimited rest \<Longrightarrow> \<exists>f. parseValue f d (writeValue v @ rest) = Inr (v, rest)"
  "value_ok d (ObjectValue (qs @ ms)) \<Longrightarrow> value_writable (ObjectValue ms) \<Longrightarrow> ms \<noteq> [] \<Longrightarrow>
     \<exists>f. parse_members f d qs (write_members ms @ ''}'' @ rest) = Inr (ObjectValue (qs @ ms), rest)"
  "value_ok d (ArrayValue (ws @ vs)) \<Longrightarrow> value_writable (ArrayValue vs) \<Longrightarrow> vs \<noteq> [] \<Longrightarrow>
     \<exists>f. parse_items f d ws (write_items vs @ '']'' @ rest) = Inr (ArrayValue (ws @ vs), rest)"
proof (induction v and ms and vs arbitrary: d rest and d qs rest and d ws rest
    rule: writeValue_write_members_write_items.induct)
  case (5 ms)
  show ?case
  proof (cases "ms = []")
    case True
    then show ?thesis using 5(2) by (intro exI [of _ "Suc 0"]) (simp add: skipSpace_none is_space_def)
  next
    case False
    then obtain f where f: "parse_members f d [] (write_members ms @ ''}'' @ rest) = Inr (ObjectValue ms, rest)"
      using 5(1) [of d "[]" rest] 5(2,3) by auto
    obtain cs where "write_members ms = quote_byte # cs" using write_members_first [OF False] by blast
    then show ?thesis using f 5(2) by (intro exI [of _ "Suc f"]) (simp add: skipSpace_none is_space_def)
  qed
next
  case (6 vs)
  show ?case
  proof (cases vs)
    case Nil
    then show ?thesis using 6(2) by (intro exI [of _ "Suc 0"]) (simp add: skipSpace_none is_space_def)
  next
    case (Cons w ws)
    then obtain f where f: "parse_items f d [] (write_items vs @ '']'' @ rest) = Inr (ArrayValue vs, rest)"
      using 6(1) [of d "[]" rest] 6(2,3) by auto
    have "value_ok (Suc d) w" using 6(2) Cons by simp
    then have "skipSpace (write_items vs @ '']'' @ rest) = write_items vs @ '']'' @ rest"
      "consume (CHR '']'') (write_items vs @ '']'' @ rest) = None"
      using writeValue_skip [of "Suc d" w "drop (length (writeValue w)) (write_items vs @ '']'' @ rest)"] Cons by auto
    then show ?thesis using f 6(2) by (intro exI [of _ "Suc f"]) simp
  qed
next
  case (8 k v ms)
  show ?case
    using 8(1) [OF members_prefix(5) [OF 8(3)]] 8(2) [of d "qs @ [(k, v)]" rest] 8(3,4)
    by (intro parse_members_text [OF 8(3)]) auto
next
  case (10 v vs)
  show ?case
    using 10(1) [of "Suc d"] 10(2) [of d "ws @ [v]" rest] 10(3,4) by (intro parse_items_text [OF 10(3)]) auto
next
  case (4 n)
  then show ?case using parse_scalar_text [of d "NumberValue n" rest 0] by (intro exI [of _ "Suc 0"]) auto
next
  case (3 s)
  then show ?case using parse_scalar_text [of d "StringValue s" rest 0] by (intro exI [of _ "Suc 0"]) auto
next
  case (2 b)
  then show ?case using parse_scalar_text [of d "BooleanValue b" rest 0] by (intro exI [of _ "Suc 0"]) auto
next
  case 1
  then show ?case using parse_scalar_text [of d NullValue rest 0] by (intro exI [of _ "Suc 0"]) auto
qed simp_all

section \<open>Canonical text is a document\<close>

lemma utf8_valid_Nil [simp]: "utf8_valid []"
  by (simp add: utf8_valid_def)

lemma ascii_valid: "list_all (\<lambda>c. (byte_of c :: nat) < 128) s \<Longrightarrow> utf8_valid s"
  by (induction s) (auto simp: utf8_valid_def)

lemma json_string_valid:
  assumes "string_ok s"
  shows "utf8_valid (json_string s)"
proof -
  have one: "utf8_valid (json_rune p)" if p: "rune_bytes p" for p
  proof (cases "plain_piece p")
    case True
    then show ?thesis using chars_valid [of "[p]"] p by (simp add: plain_piece_def)
  next
    case False
    have a: "list_all (\<lambda>c. (byte_of c :: nat) < 128) (json_ascii b)" if "b < 128" for b
      using that by (auto simp: json_ascii_def hex_byte_def hex_char_def)
    have "snd (decode_rune p) = length p" "fst (decode_rune p) < 128 \<longleftrightarrow> length p = 1" using decode_rune_piece [OF p] by auto
    with False have "list_all (\<lambda>c. (byte_of c :: nat) < 128) (json_rune p)"
      using a by (auto simp: json_rune_def case_prod_beta plain_piece_def split: if_splits)
    then show ?thesis by (rule ascii_valid)
  qed
  obtain ps where ps: "list_all rune_bytes ps" "map byte_of s = concat ps"
    using assms utf8_pieces by (auto simp: string_ok_def utf8_valid_def)
  have "utf8_valid (concat (map json_rune ps) @ [quote_byte])"
    using ps(1) by (induction ps) (auto simp: one utf8_valid_append ascii_valid)
  then show ?thesis
    using utf8_valid_append [OF ascii_valid, of "[quote_byte]"]
    by (simp add: json_string_def ps(2) json_escape_pieces [OF ps(1)])
qed

lemma canonicalDecimal_ascii:
  assumes "decimal_ok n"
  shows "list_all (\<lambda>c. (byte_of c :: nat) < 128) (canonicalDecimal n)"
proof -
  have "(byte_of c :: nat) < 128" if "is_digit c" for c using that by (simp add: is_digit_def)
  moreover have "list_all is_digit (dec_digits n)" using assms by (auto simp: decimal_ok_def split: if_splits)
  ultimately show ?thesis using nat_digits_ok by (auto simp: canonicalDecimal_def Let_def list_all_iff)
qed

lemma writeValue_valid:
  "value_ok d v \<Longrightarrow> utf8_valid (writeValue v)"
  "list_all (\<lambda>(k, v). string_ok k \<and> value_ok d v) ms \<Longrightarrow> utf8_valid (write_members ms)"
  "list_all (value_ok d) vs \<Longrightarrow> utf8_valid (write_items vs)"
proof (induction v and ms and vs arbitrary: d and d and d rule: writeValue_write_members_write_items.induct)
  case (5 ms)
  then show ?case using utf8_valid_append [OF ascii_valid, of "''{''"] utf8_valid_append [of "write_members ms"] by (auto simp: ascii_valid)
next
  case (6 vs)
  then show ?case using utf8_valid_append [OF ascii_valid, of "''[''"] utf8_valid_append [of "write_items vs"] by (auto simp: ascii_valid)
next
  case (8 k v ms)
  have c: "utf8_valid (c # s) \<longleftrightarrow> utf8_valid s" if "c = CHR '':'' \<or> c = CHR '',''" for c s
    using utf8_valid_append [OF ascii_valid, of "[c]" s] that by auto
  have "utf8_valid (writeValue v)" "utf8_valid (json_string k)" using 8(1) [of d] 8(3) json_string_valid by auto
  then show ?case using 8(2) [of d] 8(3) by (auto simp: utf8_valid_append c)
next
  case (10 v vs)
  have c: "utf8_valid (CHR '','' # s) \<longleftrightarrow> utf8_valid s" for s
    using utf8_valid_append [OF ascii_valid, of "'',''" s] by auto
  have "utf8_valid (writeValue v)" using 10(1) [of d] 10(3) by auto
  then show ?case using 10(2) [of d] 10(3) by (auto simp: utf8_valid_append c)
qed (auto simp: json_string_valid ascii_valid canonicalDecimal_ascii)

lemma parse_text:
  assumes "value_ok 0 v" and "value_writable v" and "length (writeValue v) \<le> MaxDocumentBytes"
  shows "parse (writeValue v) = Inr v"
proof -
  obtain f where "parseValue f 0 (writeValue v) = Inr (v, [])"
    using text_parsed(1) [OF assms(1,2), of "[]"] by (auto simp: delimited_def)
  then have p: "parseValue (2 * length (writeValue v) + 1) 0 (writeValue v) = Inr (v, [])" by (rule parseValue_standard)
  obtain c cs where "writeValue v = c # cs" using writeValue_first [OF assms(1)] by blast
  moreover have "skipSpace (writeValue v) = writeValue v" using writeValue_skip(1) [OF assms(1), of "[]"] by simp
  ultimately show ?thesis
    using p assms(3) writeValue_valid(1) [OF assms(1)] by (simp add: parse_def Let_def skipSpace_def [of "[]"] del: parseValue.simps)
qed

section \<open>Documents that are one number\<close>

definition huge_number :: string where
  "huge_number = replicate 5000 (CHR ''1'') @ ''e4096''"

lemma parse_number_document:
  assumes "s \<noteq> []" and "hd s = CHR ''-'' \<or> is_digit (hd s)" and "list_all (\<lambda>c. (byte_of c :: nat) < 128) s" and "length s \<le> MaxDocumentBytes"
  shows "parse s = (case parseNumber s of Inl err \<Rightarrow> Inl err
    | Inr (n, rest) \<Rightarrow> if skipSpace rest \<noteq> [] then Inl ErrInvalid else Inr (NumberValue n))"
proof -
  obtain c cs where c: "s = c # cs" "c = CHR ''-'' \<or> is_digit c" using assms(1,2) by (cases s) auto
  have "\<not> is_space c" "c \<noteq> CHR ''{''" "c \<noteq> CHR ''[''" "c \<noteq> CHR ''n''" "c \<noteq> CHR ''t''" "c \<noteq> CHR ''f''" "c \<noteq> quote_byte"
    using c(2) by (auto simp: is_digit_def is_space_def)
  then show ?thesis
    using c assms(3,4) ascii_valid [OF assms(3)]
    by (auto simp: parse_def skipSpace_none parse_scalar_def split: sum.split)
qed

lemma parseNumber_too_long:
  assumes "list_all is_digit ds" and "ds \<noteq> []" and "hd ds \<noteq> CHR ''0''"
    and "MaxMantissaDigits < length ds" and "Suc (length ds) \<le> MaxNumberLexemeBytes"
  shows "parseNumber ((if neg then ''-'' else []) @ ds) = Inl ErrNumberBudget"
proof -
  obtain c cs where c: "ds = c # cs" "is_digit c" "c \<noteq> CHR ''0''" using assms(1-3) by (cases ds) auto
  have "parse_integer ds = Inr (ds, [])"
    using takeWhile_digits [OF assms(1), of "[]"] c by (simp add: parse_integer_def)
  moreover have "consume (CHR ''-'') ds = None" using c by (auto simp: is_digit_def)
  ultimately show ?thesis
    using assms(4,5) by (cases neg) (simp_all add: parseNumber_def parse_fraction_def parse_exponent_def build_decimal_def)
qed

section \<open>A sample document\<close>

abbreviation sample_value :: json_value where
  "sample_value \<equiv> ObjectValue
     [(''a'', ArrayValue [NumberValue \<lparr>dec_negative = False, dec_digits = ''15'', dec_exponent = -1\<rparr>, NullValue]),
      (''b'', StringValue ''x'')]"

lemma sample_ok: "value_ok 0 sample_value" "value_writable sample_value"
  by (simp_all add: keys_sorted_def string_ok_def no_nul_def utf8_valid_def maxStringBytes_def maxDepth_def
      maxObjectMembers_def maxArrayItems_def decimal_ok_def MaxMantissaDigits_def writable_def is_digit_def)

lemma sample_text: "length (writeValue sample_value) \<le> MaxDocumentBytes"
proof -
  have "length (writeValue sample_value) \<le> 40" by code_simp
  then show ?thesis by (simp add: MaxDocumentBytes_def)
qed

lemmas sample_parsed = parse_text [OF sample_ok sample_text]

section \<open>Properties\<close>

text \<open>
  C29. The parser always returns: on no document does it run out of the fuel it is given, which is
  twice the length of the document, and more fuel never changes its answer.
\<close>

theorem parse_terminates:
  "parse document \<noteq> Inl OutOfFuel \<and>
   (2 * length s + 1 \<le> fuel \<longrightarrow> parseValue fuel depth s = parseValue (2 * length s + 1) depth s)"
proof
  have "parseValue (2 * length s + 1) 0 s \<noteq> Inl OutOfFuel" for s by (rule parser_fuel(1)) simp
  then show "parse document \<noteq> Inl OutOfFuel"
    by (auto simp: parse_def Let_def simp del: parseValue.simps split: sum.splits)
next
  have "parseValue (2 * length s + 1) depth s \<noteq> Inl OutOfFuel" by (rule parser_fuel(1)) simp
  then show "2 * length s + 1 \<le> fuel \<longrightarrow> parseValue fuel depth s = parseValue (2 * length s + 1) depth s"
    by (blast intro: parser_more_fuel(1))
qed

theorem parse_terminates_witness:
  "parse ''[]'' \<noteq> Inl OutOfFuel \<and> parseValue 9 0 ''[]'' = parseValue (2 * length ''[]'' + 1) 0 ''[]''"
  using parse_terminates [of "''[]''" "''[]''" 9 0] by simp

text \<open>
  C30. Every value the parser returns is well formed: nesting, members, items and strings are
  within their limits, the names of an object are distinct, strings are UTF-8 without NUL, and
  numbers are in lowest terms within the exponent bound.
\<close>

theorem parsed_value_ok:
  assumes "parse document = Inr v"
  shows "value_ok 0 v"
  by (rule parsed_ok [OF assms])

theorem parsed_value_ok_witness:
  "parse (writeValue sample_value) = Inr sample_value \<and> value_ok 0 sample_value"
  using sample_parsed parsed_value_ok [OF sample_parsed] by blast

text \<open>
  C31. Two documents are equal exactly when both are accepted and denote the same value; since
  values are canonical, the order of members, white space, escapes and the way a number is written
  make no difference, and nothing else is identified.
\<close>

theorem Equal_same_value:
  "Equal left right \<longleftrightarrow> (\<exists>v. parse left = Inr v \<and> parse right = Inr v)"
proof -
  have "equalValue v w \<longleftrightarrow> v = w" if "parse left = Inr v" "parse right = Inr w" for v w
    using equalValue_eq(1) [OF parsed_ok [OF that(1)] parsed_ok [OF that(2)]] .
  then show ?thesis by (auto simp: Equal_def split: sum.splits)
qed

text \<open>
  C32. Numbers are compared as numbers: for two accepted number texts the comparison answers -1, 0
  or 1 as the rational number the first text denotes is less than, equal to or greater than that
  of the second, however many digits and whatever exponents they are written with.
\<close>

theorem compareDecimal_rational:
  assumes "build_decimal n w f e = Inr l" and "list_all is_digit (w @ f)"
    and "build_decimal n' w' f' e' = Inr r" and "list_all is_digit (w' @ f')"
  shows "compareDecimal l r =
    (if written_number n w f e < written_number n' w' f' e' then -1
     else if written_number n w f e = written_number n' w' f' e' then 0 else 1)"
  using compareDecimal_order [OF build_decimal_ok [OF assms(1,2)] build_decimal_ok [OF assms(3,4)]]
  by (simp add: order_of_def build_decimal_number [OF assms(1,2)] build_decimal_number [OF assms(3,4)])

theorem compareDecimal_rational_witness:
  "build_decimal False ''1'' ''50'' 0 = Inr \<lparr>dec_negative = False, dec_digits = ''15'', dec_exponent = -1\<rparr> \<and>
   build_decimal False ''0'' ''2'' 1 = Inr \<lparr>dec_negative = False, dec_digits = ''2'', dec_exponent = 0\<rparr> \<and>
   compareDecimal \<lparr>dec_negative = False, dec_digits = ''15'', dec_exponent = -1\<rparr>
     \<lparr>dec_negative = False, dec_digits = ''2'', dec_exponent = 0\<rparr> = -1"
proof -
  have b: "build_decimal False ''1'' ''50'' 0 = Inr \<lparr>dec_negative = False, dec_digits = ''15'', dec_exponent = -1\<rparr>"
    "build_decimal False ''0'' ''2'' 1 = Inr \<lparr>dec_negative = False, dec_digits = ''2'', dec_exponent = 0\<rparr>"
    by (simp_all add: build_decimal_def trim_left_byte_def trim_mantissa_def trim_right_byte_def MaxMantissaDigits_def)
  have d: "list_all is_digit (''1'' @ ''50'')" "list_all is_digit (''0'' @ ''2'')" by (simp_all add: is_digit_def)
  have "written_number False ''1'' ''50'' 0 < written_number False ''0'' ''2'' 1"
    by (simp add: written_number_def digits_value_def digit_value_def power_int_def power2_eq_square)
  then show ?thesis using compareDecimal_rational [OF b(1) d(1) b(2) d(2)] b by simp
qed

text \<open>
  C33. Normalization is a canonical form: when its output stays within the limits of the parser,
  the output is itself accepted, denotes the same value as the input, and normalizes to itself.
\<close>

theorem Normalize_canonical:
  assumes "parse document = Inr v" and "value_writable v" and "length (writeValue v) \<le> MaxDocumentBytes"
  shows "Normalize document = Inr (writeValue v) \<and> parse (writeValue v) = Inr v \<and>
    Normalize (writeValue v) = Inr (writeValue v) \<and> Equal document (writeValue v)"
proof -
  have ok: "value_ok 0 v" by (rule parsed_ok [OF assms(1)])
  have p: "parse (writeValue v) = Inr v" by (rule parse_text [OF ok assms(2,3)])
  moreover have "equalValue v v" using equalValue_eq(1) [OF ok ok] by simp
  ultimately show ?thesis using assms(1) by (simp add: Normalize_def Equal_def)
qed

theorem Normalize_canonical_witness:
  "Normalize (writeValue sample_value) = Inr (writeValue sample_value) \<and> Equal (writeValue sample_value) (writeValue sample_value)"
  using Normalize_canonical [OF sample_parsed sample_ok(2) sample_text] by blast

text \<open>
  C34. The canonical text of an accepted number can be refused: a number of 5000 digits with
  exponent 4096 is within the contract, but normalization writes its zeros out, and the resulting
  9096 digits exceed the mantissa bound.
\<close>

theorem Normalize_leaves_contract:
  "Validate huge_number = None \<and> Normalize huge_number = Inr (replicate 5000 (CHR ''1'') @ replicate 4096 (CHR ''0'')) \<and>
   Validate (replicate 5000 (CHR ''1'') @ replicate 4096 (CHR ''0'')) = Some ErrNumberBudget"
proof -
  let ?d = "\<lparr>dec_negative = False, dec_digits = replicate 5000 (CHR ''1''), dec_exponent = 4096\<rparr>"
    and ?t = "replicate 5000 (CHR ''1'') @ replicate 4096 (CHR ''0'')"
  have one: "list_all is_digit (replicate n (CHR ''1''))" "list_all (\<lambda>c. (byte_of c :: nat) < 128) (replicate n (CHR ''1''))"
    for n by (auto simp: list_all_iff is_digit_def)
  have "parse_exponent ''e4096'' = Inr (4096, [])" by (simp add: parse_exponent_def is_digit_def)
  moreover have "decimal_ok ?d" using one by (simp add: decimal_ok_def MaxMantissaDigits_def)
  then have "build_decimal False (replicate 5000 (CHR ''1'')) [] 4096 = Inr ?d"
    using build_decimal_zeros [of ?d 0 4096] by (simp add: MaxMantissaDigits_def)
  ultimately have "parseNumber huge_number = Inr (?d, [])"
    using parseNumber_parts [of "replicate 5000 (CHR ''1'')" "''e4096''" 4096 "[]" False ?d] one
    by (simp add: huge_number_def delimited_def is_digit_def MaxNumberLexemeBytes_def)
  then have h: "parse huge_number = Inr (NumberValue ?d)"
    using one by (subst parse_number_document) (auto simp: huge_number_def is_digit_def MaxDocumentBytes_def skipSpace_def)
  have "parseNumber ?t = Inl ErrNumberBudget"
    using one digits_zero(1) parseNumber_too_long [of ?t False] by (auto simp: list_all_iff MaxMantissaDigits_def MaxNumberLexemeBytes_def)
  then have "parse ?t = Inl ErrNumberBudget"
    using one by (subst parse_number_document) (auto simp: is_digit_def MaxDocumentBytes_def list_all_iff)
  with h show ?thesis by (simp add: Validate_def Normalize_def canonicalDecimal_def)
qed

end
