(* ===== verification/Canonical_Spec.thy ===== *)
theory Canonical_Spec
  imports JSON_Normalize
begin

text \<open>
  The content-addressed representation of resolved specifications,
  \<^verbatim>\<open>v3/internal/canonical/resolved_spec.go\<close>: a JSON document is parsed under the strict contract,
  credential material is removed by field name, and what is left is written in canonical form and
  hashed. The tree that \<^verbatim>\<open>encoding/json\<close> decodes from the normalized text is the parsed value itself;
  \<^verbatim>\<open>UseNumber\<close> keeps each number as its canonical text.
\<close>

section \<open>Field names\<close>

text \<open>
  \<^verbatim>\<open>unicode.ToLower\<close> as far as an ASCII letter can come out of it: the capital letters, the Kelvin
  sign and the dotted capital I. Every other rune stays outside the letters and digits kept below.
\<close>

definition lower_rune :: "rune \<Rightarrow> rune" where
  "lower_rune r =
     (if 65 \<le> r \<and> r \<le> 90 then r + 32 else if r = 8490 then 107 else if r = 304 then 105 else r)"

definition lower_alnum :: "rune \<Rightarrow> bool" where
  "lower_alnum r \<longleftrightarrow> (97 \<le> r \<and> r \<le> 122) \<or> (48 \<le> r \<and> r \<le> 57)"

definition normalizeIdentifier :: "string \<Rightarrow> string" where
  "normalizeIdentifier v = map char_of (filter lower_alnum (map lower_rune (range_runes (map byte_of v))))"

definition referenceField :: "string \<Rightarrow> bool" where
  "referenceField n \<longleftrightarrow> has_suffix n ''ref'' \<or> has_suffix n ''reference'' \<or> n = ''valuefrom''"

definition excluded_terms :: "string list" where
  "excluded_terms =
     [''password'', ''passphrase'', ''token'', ''apikey'', ''accesstoken'', ''refreshtoken'', ''accesskey'',
      ''secretkey'', ''privatekey'', ''authorization'', ''bearer'', ''cookie'']"

definition excludedField :: "string \<Rightarrow> bool" where
  "excludedField key =
     (let n = normalizeIdentifier key
      in if n = [] \<or> referenceField n then False
         else if contains_sub n ''credential'' \<or> has_prefix n ''secret'' then True
         else list_ex (\<lambda>t. n = t \<or> has_suffix n t) excluded_terms)"

definition sensitive_terms :: "string list" where
  "sensitive_terms =
     [''secret'', ''credential'', ''password'', ''passphrase'', ''token'', ''apikey'', ''accesskey'', ''privatekey'']"

definition sensitiveIdentifier :: "string \<Rightarrow> bool" where
  "sensitiveIdentifier v =
     (let n = normalizeIdentifier v in n \<noteq> [] \<and> list_ex (contains_sub n) sensitive_terms)"

section \<open>Removing credential material\<close>

text \<open>The \<^verbatim>\<open>name\<close> member of an object, when it is a string, and whether it names something sensitive.\<close>

definition sensitive_named :: "(string \<times> json_value) list \<Rightarrow> bool" where
  "sensitive_named ms = (case map_of ms ''name'' of Some (StringValue s) \<Rightarrow> sensitiveIdentifier s | _ \<Rightarrow> False)"

definition dropped_member :: "string \<Rightarrow> bool \<Rightarrow> string \<Rightarrow> bool" where
  "dropped_member parentKey named key \<longleftrightarrow>
     excludedField key \<or>
     (referenceField (normalizeIdentifier parentKey) \<and> (key = ''value'' \<or> key = ''data'' \<or> key = ''stringData'')) \<or>
     (named \<and> (key = ''value'' \<or> key = ''data''))"

fun excludeCredentialMaterial :: "string \<Rightarrow> json_value \<Rightarrow> json_value"
  and exclude_members :: "string \<Rightarrow> bool \<Rightarrow> (string \<times> json_value) list \<Rightarrow> (string \<times> json_value) list"
  and exclude_items :: "string \<Rightarrow> json_value list \<Rightarrow> json_value list" where
  "excludeCredentialMaterial parentKey (ObjectValue ms) =
     (if normalizeIdentifier parentKey = ''exactarguments'' then ObjectValue ms
      else ObjectValue (exclude_members parentKey (sensitive_named ms) ms))"
| "excludeCredentialMaterial parentKey (ArrayValue vs) =
     (if normalizeIdentifier parentKey = ''exactarguments'' then ArrayValue vs
      else ArrayValue (exclude_items parentKey vs))"
| "excludeCredentialMaterial parentKey v = v"
| "exclude_members parentKey named [] = []"
| "exclude_members parentKey named ((k, v) # ms) =
     (if dropped_member parentKey named k then exclude_members parentKey named ms
      else (k, excludeCredentialMaterial k v) # exclude_members parentKey named ms)"
| "exclude_items parentKey [] = []"
| "exclude_items parentKey (v # vs) = excludeCredentialMaterial parentKey v # exclude_items parentKey vs"

section \<open>Canonical bytes\<close>

datatype spec_error = ErrNilSpec | ErrInvalidSpec json_error | ErrUnsupported | InvalidNumber json_error | StrictContract json_error

text \<open>
  The specifications the callers pass: nothing, bytes of a document, a string, or another value,
  represented by what \<^verbatim>\<open>json.Marshal\<close> makes of it.
\<close>

datatype spec_input = NilSpec | BytesSpec string | StringSpec string | ValueSpec "string option"

definition resolvedSpecJSON :: "spec_input \<Rightarrow> spec_error + string" where
  "resolvedSpecJSON spec =
     (case spec of
        NilSpec \<Rightarrow> Inl ErrNilSpec
      | BytesSpec raw \<Rightarrow> Inr raw
      | StringSpec s \<Rightarrow>
          let trimmed = trim_space s
          in if trimmed \<noteq> [] \<and> Validate trimmed = None then Inr trimmed else Inr (json_string s)
      | ValueSpec encoded \<Rightarrow> (case encoded of None \<Rightarrow> Inl ErrUnsupported | Some raw \<Rightarrow> Inr raw))"

fun writeCanonical :: "json_value \<Rightarrow> spec_error + string"
  and write_canonical_members :: "(string \<times> json_value) list \<Rightarrow> spec_error + string"
  and write_canonical_items :: "json_value list \<Rightarrow> spec_error + string" where
  "writeCanonical NullValue = Inr ''null''"
| "writeCanonical (BooleanValue b) = Inr (if b then ''true'' else ''false'')"
| "writeCanonical (StringValue s) = Inr (json_string s)"
| "writeCanonical (NumberValue n) =
     (case Validate (canonicalDecimal n) of Some err \<Rightarrow> Inl (InvalidNumber err) | None \<Rightarrow> Inr (canonicalDecimal n))"
| "writeCanonical (ArrayValue vs) =
     (case write_canonical_items vs of Inl err \<Rightarrow> Inl err | Inr s \<Rightarrow> Inr (''['' @ s @ '']''))"
| "writeCanonical (ObjectValue ms) =
     (case write_canonical_members ms of Inl err \<Rightarrow> Inl err | Inr s \<Rightarrow> Inr (''{'' @ s @ ''}''))"
| "write_canonical_members [] = Inr []"
| "write_canonical_members ((k, v) # ms) =
     (case writeCanonical v of Inl err \<Rightarrow> Inl err | Inr s \<Rightarrow>
     (case write_canonical_members ms of Inl err \<Rightarrow> Inl err | Inr t \<Rightarrow>
        Inr (json_string k @ '':'' @ s @ (if ms = [] then [] else '','' @ t))))"
| "write_canonical_items [] = Inr []"
| "write_canonical_items (v # vs) =
     (case writeCanonical v of Inl err \<Rightarrow> Inl err | Inr s \<Rightarrow>
     (case write_canonical_items vs of Inl err \<Rightarrow> Inl err | Inr t \<Rightarrow> Inr (s @ (if vs = [] then [] else '','' @ t))))"

definition CanonicalizeResolvedSpec :: "spec_input \<Rightarrow> spec_error + string" where
  "CanonicalizeResolvedSpec spec =
     (case resolvedSpecJSON spec of Inl err \<Rightarrow> Inl err | Inr raw \<Rightarrow>
      if raw = [] \<or> \<not> utf8_valid raw then Inl (ErrInvalidSpec ErrInvalid)
      else case parse raw of Inl err \<Rightarrow> Inl (ErrInvalidSpec err) | Inr v \<Rightarrow>
     (case writeCanonical (excludeCredentialMaterial [] v) of Inl err \<Rightarrow> Inl err | Inr c \<Rightarrow>
     (case Validate c of Some err \<Rightarrow> Inl (StrictContract err) | None \<Rightarrow> Inr c)))"

definition ResolvedSpecDigest :: "spec_input \<Rightarrow> spec_error + string" where
  "ResolvedSpecDigest spec =
     (case CanonicalizeResolvedSpec spec of Inl err \<Rightarrow> Inl err | Inr c \<Rightarrow> Inr (sha256_digest c))"

section \<open>What is left carries no credential material\<close>

fun clean :: "string \<Rightarrow> json_value \<Rightarrow> bool" where
  "clean parentKey (ObjectValue ms) =
     (normalizeIdentifier parentKey = ''exactarguments'' \<or>
      list_all (\<lambda>(k, v). \<not> dropped_member parentKey (sensitive_named ms) k \<and> clean k v) ms)"
| "clean parentKey (ArrayValue vs) =
     (normalizeIdentifier parentKey = ''exactarguments'' \<or> list_all (clean parentKey) vs)"
| "clean parentKey _ = True"

lemma normalizeIdentifier_plain:
  assumes "list_all (\<lambda>c. \<not> digit7 c \<and> lower_alnum (byte_of c)) s"
  shows "normalizeIdentifier s = s"
proof -
  have "range_runes (map byte_of s) = map byte_of s" using assms by (intro range_runes_ascii) (simp add: list_all_iff)
  moreover have "map lower_rune (map byte_of s) = map byte_of s" "filter lower_alnum (map byte_of s) = map byte_of s"
    using assms by (auto simp: list_all_iff lower_rune_def lower_alnum_def intro!: map_cong filter_True)
  ultimately show ?thesis unfolding normalizeIdentifier_def by (simp only:) (simp add: comp_def)
qed

lemma name_kept: "\<not> dropped_member parentKey named ''name''"
proof -
  have n: "normalizeIdentifier ''name'' = ''name''" by (rule normalizeIdentifier_plain) (simp add: lower_alnum_def)
  show ?thesis
    by (simp add: dropped_member_def excludedField_def n referenceField_def excluded_terms_def has_suffix_def has_prefix_def)
qed

lemma map_of_exclude:
  "map_of (exclude_members parentKey named ms) k =
     (if dropped_member parentKey named k then None else map_option (excludeCredentialMaterial k) (map_of ms k))"
  by (induction ms) auto

lemma exclude_string: "excludeCredentialMaterial p v = StringValue s \<longleftrightarrow> v = StringValue s"
  by (cases "(p, v)" rule: excludeCredentialMaterial.cases) auto

lemma sensitive_named_exclude [simp]: "sensitive_named (exclude_members parentKey named ms) = sensitive_named ms"
proof (cases "map_of ms ''name''")
  case (Some v)
  then show ?thesis
    by (cases v) (auto simp: sensitive_named_def map_of_exclude name_kept)
qed (simp add: sensitive_named_def map_of_exclude name_kept)

lemma clean_exclude:
  "clean p (excludeCredentialMaterial p v)"
  "list_all (\<lambda>(k, v). \<not> dropped_member p named k \<and> clean k v) (exclude_members p named ms)"
  "list_all (clean p) (exclude_items p vs)"
  by (induction p v and p named ms and p vs rule: excludeCredentialMaterial_exclude_members_exclude_items.induct) auto

lemma exclude_clean:
  "clean p v \<Longrightarrow> excludeCredentialMaterial p v = v"
  "list_all (\<lambda>(k, v). \<not> dropped_member p named k \<and> clean k v) ms \<Longrightarrow> exclude_members p named ms = ms"
  "list_all (clean p) vs \<Longrightarrow> exclude_items p vs = vs"
  by (induction p v and p named ms and p vs rule: excludeCredentialMaterial_exclude_members_exclude_items.induct) auto

lemma exclude_keys: "(k, v) \<in> set (exclude_members p named ms) \<Longrightarrow> k \<in> fst ` set ms"
  by (induction ms) (auto split: if_splits)

lemma exclude_length: "length (exclude_members p named ms) \<le> length ms"
  by (induction ms) auto

lemma exclude_items_length: "length (exclude_items p vs) = length vs"
  by (induction vs) auto

lemma keys_sorted_exclude: "keys_sorted ms \<Longrightarrow> keys_sorted (exclude_members p named ms)"
proof (induction ms)
  case (Cons m ms)
  then show ?case by (cases m) (fastforce simp: keys_sorted_def dest: exclude_keys)
qed simp

lemma exclude_ok:
  "value_ok d v \<Longrightarrow> value_ok d (excludeCredentialMaterial p v)"
  "list_all (\<lambda>(k, v). string_ok k \<and> value_ok d v) ms \<Longrightarrow>
     list_all (\<lambda>(k, v). string_ok k \<and> value_ok d v) (exclude_members p named ms)"
  "list_all (value_ok d) vs \<Longrightarrow> list_all (value_ok d) (exclude_items p vs)"
proof (induction p v and p named ms and p vs arbitrary: d and d and d
    rule: excludeCredentialMaterial_exclude_members_exclude_items.induct)
  case (1 p ms)
  then show ?case
    using exclude_length [of p "sensitive_named ms" ms] by (auto simp: keys_sorted_exclude)
next
  case (2 p vs)
  then show ?case using exclude_items_length [of p vs] by auto
qed auto

section \<open>Canonical bytes are a fixed point\<close>

lemma validated_writable:
  assumes "decimal_ok n" and "Validate (canonicalDecimal n) = None"
  shows "writable n"
proof (rule ccontr)
  assume "\<not> writable n"
  then have long: "MaxMantissaDigits < length (dec_digits n) + nat (dec_exponent n)" by (simp add: writable_def)
  let ?ds = "dec_digits n @ replicate (nat (dec_exponent n)) (CHR ''0'')"
  have ne: "dec_digits n \<noteq> []" using assms(1) long by (auto simp: decimal_ok_def MaxMantissaDigits_def split: if_splits)
  then have ok: "list_all is_digit (dec_digits n)" "hd (dec_digits n) \<noteq> CHR ''0''" "length (dec_digits n) \<le> MaxMantissaDigits"
    "\<bar>dec_exponent n\<bar> \<le> MaxAbsExponent" using assms(1) by (auto simp: decimal_ok_def)
  have pos: "0 < dec_exponent n" using long ok(3) by (cases "0 < dec_exponent n") auto
  then have t: "canonicalDecimal n = (if dec_negative n then ''-'' else []) @ ?ds" using ne by (auto simp: canonicalDecimal_def)
  have "parseNumber (canonicalDecimal n) = Inl ErrNumberBudget"
    unfolding t using ok ne long digits_zero(1)
    by (intro parseNumber_too_long) (auto simp: list_all_iff MaxMantissaDigits_def MaxNumberLexemeBytes_def)
  moreover obtain c cs where "canonicalDecimal n = c # cs" "c = CHR ''-'' \<or> is_digit c"
    using canonicalDecimal_first [OF assms(1)] by blast
  moreover have "length (canonicalDecimal n) \<le> MaxDocumentBytes"
    unfolding t using ok(3,4) by (auto simp: MaxMantissaDigits_def MaxDocumentBytes_def)
  ultimately have "parse (canonicalDecimal n) = Inl ErrNumberBudget"
    using canonicalDecimal_ascii [OF assms(1)] by (subst parse_number_document) auto
  with assms(2) show False by (simp add: Validate_def)
qed

lemma writeCanonical_value:
  "writeCanonical v = Inr c \<Longrightarrow> value_ok d v \<Longrightarrow> c = writeValue v \<and> value_writable v"
  "write_canonical_members ms = Inr c \<Longrightarrow> list_all (\<lambda>(k, v). string_ok k \<and> value_ok d v) ms \<Longrightarrow>
     c = write_members ms \<and> list_all (\<lambda>(k, v). value_writable v) ms"
  "write_canonical_items vs = Inr c \<Longrightarrow> list_all (value_ok d) vs \<Longrightarrow> c = write_items vs \<and> list_all value_writable vs"
proof (induction v and ms and vs arbitrary: c d and c d and c d
    rule: writeCanonical_write_canonical_members_write_canonical_items.induct)
  case (4 n)
  then show ?case using validated_writable by (auto split: option.splits)
qed (fastforce split: sum.splits)+

lemma Validate_accepts:
  assumes "Validate c = None"
  shows "c \<noteq> [] \<and> length c \<le> MaxDocumentBytes \<and> utf8_valid c"
  using assms by (auto simp: Validate_def parse_def split: if_splits)

lemma CanonicalizeResolvedSpec_fixed:
  assumes "CanonicalizeResolvedSpec spec = Inr c"
  shows "\<exists>v. parse c = Inr v \<and> clean [] v \<and> writeCanonical v = Inr c \<and> Validate c = None"
proof -
  obtain raw v where v: "parse raw = Inr v" "writeCanonical (excludeCredentialMaterial [] v) = Inr c" and c: "Validate c = None"
    using assms by (auto simp: CanonicalizeResolvedSpec_def split: sum.splits if_splits option.splits)
  let ?w = "excludeCredentialMaterial [] v"
  have ok: "value_ok 0 ?w" using parsed_ok [OF v(1)] by (rule exclude_ok(1))
  have w: "c = writeValue ?w" "value_writable ?w" using writeCanonical_value(1) [OF v(2) ok] by auto
  have "parse c = Inr ?w" unfolding w(1)
    using ok w(2) Validate_accepts [OF c] unfolding w(1) by (intro parse_text) auto
  then show ?thesis using clean_exclude(1) v(2) c by blast
qed

section \<open>Which members are credential material\<close>

text \<open>
  What the resolved specification promises to leave out, stated apart from the code: names are
  compared without case and punctuation, over names of ASCII characters.
\<close>

definition ascii_name :: "string \<Rightarrow> bool" where
  "ascii_name s \<longleftrightarrow> (\<forall>c\<in>set s. \<not> digit7 c)"

definition plain_letter :: "char \<Rightarrow> char" where
  "plain_letter c =
     (case map_of (zip ''ABCDEFGHIJKLMNOPQRSTUVWXYZ'' ''abcdefghijklmnopqrstuvwxyz'') c of Some d \<Rightarrow> d | None \<Rightarrow> c)"

definition plain_name :: "string \<Rightarrow> string" where
  "plain_name s = [c \<leftarrow> map plain_letter s. c \<in> set ''abcdefghijklmnopqrstuvwxyz0123456789'']"

definition reference_name :: "string \<Rightarrow> bool" where
  "reference_name k \<longleftrightarrow> ascii_name k \<and>
     ((\<exists>p. plain_name k = p @ ''ref'') \<or> (\<exists>p. plain_name k = p @ ''reference'') \<or> plain_name k = ''valuefrom'')"

definition credential_name :: "string \<Rightarrow> bool" where
  "credential_name k \<longleftrightarrow> ascii_name k \<and> \<not> reference_name k \<and>
     ((\<exists>q. plain_name k = ''secret'' @ q) \<or> (\<exists>p q. plain_name k = p @ ''credential'' @ q) \<or>
      (\<exists>p t. plain_name k = p @ t \<and>
         t \<in> {''password'', ''passphrase'', ''token'', ''apikey'', ''accesskey'', ''secretkey'', ''privatekey'',
              ''authorization'', ''bearer'', ''cookie''}))"

definition secret_name :: "string \<Rightarrow> bool" where
  "secret_name s \<longleftrightarrow> ascii_name s \<and>
     (\<exists>p t q. plain_name s = p @ t @ q \<and>
        t \<in> {''secret'', ''credential'', ''password'', ''passphrase'', ''token'', ''apikey'', ''accesskey'', ''privatekey''})"

text \<open>
  A member is credential material by its own name, as the inlined value of a reference, or as the
  value beside a \<^verbatim>\<open>name\<close> that names a secret; \<^verbatim>\<open>parent\<close> is the name the object is stored under.
\<close>

definition credential_member :: "string \<Rightarrow> (string \<times> json_value) list \<Rightarrow> string \<Rightarrow> bool" where
  "credential_member parent ms k \<longleftrightarrow>
     credential_name k \<or>
     (reference_name parent \<and> k \<in> {''value'', ''data'', ''stringData''}) \<or>
     ((\<exists>s. map_of ms ''name'' = Some (StringValue s) \<and> secret_name s) \<and> k \<in> {''value'', ''data''})"

text \<open>
  The values of a document outside exact tool arguments, each with the name of the member it is
  stored under; the elements of an array are stored under the array's name.
\<close>

inductive visible :: "json_value \<Rightarrow> string \<Rightarrow> json_value \<Rightarrow> bool" for doc where
  visible_root: "visible doc [] doc"
| visible_member: "visible doc k (ObjectValue ms) \<Longrightarrow> (k', w) \<in> set ms \<Longrightarrow>
     normalizeIdentifier k' \<noteq> ''exactarguments'' \<Longrightarrow> visible doc k' w"
| visible_item: "visible doc k (ArrayValue vs) \<Longrightarrow> w \<in> set vs \<Longrightarrow> visible doc k w"

lemma plain_rune_lower: "\<not> digit7 c \<Longrightarrow> lower_rune (byte_of c) = byte_of (plain_letter c)"
proof (cases c)
  case (Char b0 b1 b2 b3 b4 b5 b6 b7)
  assume "\<not> digit7 c"
  with Char show ?thesis
    by (cases b0; cases b1; cases b2; cases b3; cases b4; cases b5; cases b6) (simp_all add: lower_rune_def plain_letter_def)
qed

lemma plain_rune_kept:
  "\<not> digit7 c \<Longrightarrow> lower_alnum (byte_of (plain_letter c)) \<longleftrightarrow> plain_letter c \<in> set ''abcdefghijklmnopqrstuvwxyz0123456789''"
proof (cases c)
  case (Char b0 b1 b2 b3 b4 b5 b6 b7)
  assume "\<not> digit7 c"
  with Char show ?thesis
    by (cases b0; cases b1; cases b2; cases b3; cases b4; cases b5; cases b6) (simp_all add: lower_alnum_def plain_letter_def)
qed

lemma kept_plain:
  "\<forall>c\<in>set s. \<not> digit7 c \<Longrightarrow> map char_of (filter lower_alnum (map lower_rune (map byte_of s))) = plain_name s"
proof (induction s)
  case (Cons c s)
  let ?alphabet = "set ''abcdefghijklmnopqrstuvwxyz0123456789''"
  have IH: "map char_of (filter lower_alnum (map lower_rune (map byte_of s))) = plain_name s" using Cons by simp
  have c: "lower_rune (byte_of c) = byte_of (plain_letter c)" "lower_alnum (byte_of (plain_letter c)) \<longleftrightarrow> plain_letter c \<in> ?alphabet"
    using Cons.prems plain_rune_lower plain_rune_kept by simp_all
  have "plain_name (c # s) = (if plain_letter c \<in> ?alphabet then plain_letter c # plain_name s else plain_name s)"
    unfolding plain_name_def by (simp only: list.map filter.simps)
  then show ?case using IH c by (simp only: list.map filter.simps if_distrib [of "map char_of"] char_of_char)
qed (simp add: plain_name_def)

lemma normalizeIdentifier_named:
  assumes "ascii_name s"
  shows "normalizeIdentifier s = plain_name s"
proof -
  have a: "\<forall>c\<in>set s. \<not> digit7 c" using assms by (simp add: ascii_name_def)
  then have "range_runes (map byte_of s) = map byte_of s" by (intro range_runes_ascii) (auto simp: list_all_iff)
  then show ?thesis using kept_plain [OF a] by (simp only: normalizeIdentifier_def)
qed
lemma has_suffix_append: "has_suffix (p @ t) t"
  by (simp add: has_suffix_def)

lemma has_prefix_append: "has_prefix (t @ q) t"
  by (simp add: has_prefix_def)

lemma contains_sub_append: "contains_sub (p @ t @ q) t"
proof (induction p)
  case Nil
  then show ?case using has_prefix_append [of t q] by (cases "t @ q") auto
qed simp

lemma has_suffix_split: "has_suffix s t \<Longrightarrow> \<exists>p. s = p @ t"
  unfolding has_suffix_def by (metis append_take_drop_id)

lemma referenceField_name: "ascii_name k \<Longrightarrow> referenceField (normalizeIdentifier k) \<longleftrightarrow> reference_name k"
  by (auto simp: normalizeIdentifier_named referenceField_def reference_name_def has_suffix_append dest: has_suffix_split)

lemma excludedField_name:
  assumes "credential_name k"
  shows "excludedField k"
proof -
  let ?n = "plain_name k"
  have n: "normalizeIdentifier k = ?n" "\<not> referenceField ?n"
    using assms normalizeIdentifier_named [of k] referenceField_name [of k] by (simp_all add: credential_name_def)
  have terms: "t \<in> set excluded_terms \<and> t \<noteq> []"
    if "t \<in> {''password'', ''passphrase'', ''token'', ''apikey'', ''accesskey'', ''secretkey'', ''privatekey'', ''authorization'', ''bearer'', ''cookie''}" for t
    using that unfolding excluded_terms_def by (elim insertE emptyE) simp_all
  consider q where "?n = ''secret'' @ q" | p q where "?n = p @ ''credential'' @ q"
    | p t where "?n = p @ t" "t \<in> set excluded_terms" "t \<noteq> []"
    using assms terms unfolding credential_name_def by blast
  then have "?n \<noteq> [] \<and> (contains_sub ?n ''credential'' \<or> has_prefix ?n ''secret'' \<or> (\<exists>t\<in>set excluded_terms. has_suffix ?n t))"
  proof cases
    case 1
    then show ?thesis using has_prefix_append [of "''secret''" q] by simp
  next
    case 2
    then show ?thesis using contains_sub_append [of p "''credential''" q] by simp
  next
    case 3
    then show ?thesis using has_suffix_append [of p t] by auto
  qed
  then show ?thesis unfolding excludedField_def n(1) Let_def using n(2) by (auto simp: list_ex_iff)
qed

lemma sensitiveIdentifier_name:
  assumes "secret_name s"
  shows "sensitiveIdentifier s"
proof -
  have terms: "t \<in> set sensitive_terms \<and> t \<noteq> []"
    if "t \<in> {''secret'', ''credential'', ''password'', ''passphrase'', ''token'', ''apikey'', ''accesskey'', ''privatekey''}" for t
    using that unfolding sensitive_terms_def by (elim insertE emptyE) simp_all
  obtain p t q where "plain_name s = p @ t @ q" "t \<in> set sensitive_terms" "t \<noteq> []"
    using assms terms unfolding secret_name_def by blast
  then have "plain_name s \<noteq> [] \<and> (\<exists>t\<in>set sensitive_terms. contains_sub (plain_name s) t)"
    using contains_sub_append by (metis Nil_is_append_conv)
  moreover have "normalizeIdentifier s = plain_name s" using assms by (simp add: normalizeIdentifier_named secret_name_def)
  ultimately show ?thesis by (simp add: sensitiveIdentifier_def list_ex_iff)
qed

lemma credential_member_dropped: "credential_member parent ms k \<Longrightarrow> dropped_member parent (sensitive_named ms) k"
  using referenceField_name [of parent]
  by (auto simp: credential_member_def dropped_member_def sensitive_named_def reference_name_def
      dest: excludedField_name sensitiveIdentifier_name)

lemma visible_clean:
  assumes "visible doc k v" and "clean [] doc"
  shows "clean k v \<and> normalizeIdentifier k \<noteq> ''exactarguments''"
  using assms
proof (induction rule: visible.induct)
  case visible_root
  then show ?case by (simp add: normalizeIdentifier_named ascii_name_def plain_name_def)
qed (auto simp: list_all_iff)

lemma clean_visible:
  assumes "clean [] doc" and "visible doc parent (ObjectValue ms)" and "(k, w) \<in> set ms"
  shows "\<not> credential_member parent ms k"
  using visible_clean [OF assms(2,1)] assms(3) credential_member_dropped by (auto simp: list_all_iff)

section \<open>A sample specification\<close>

abbreviation spec_with_token :: json_value where
  "spec_with_token \<equiv> ObjectValue [(''image'', StringValue ''i''), (''token'', StringValue ''t'')]"

abbreviation spec_without_token :: json_value where
  "spec_without_token \<equiv> ObjectValue [(''image'', StringValue ''i'')]"

lemma small_document: "length c \<le> 100 \<Longrightarrow> length c \<le> MaxDocumentBytes"
  by (simp add: MaxDocumentBytes_def)

lemma sample_spec_parsed:
  "parse (writeValue spec_with_token) = Inr spec_with_token" "parse (writeValue spec_without_token) = Inr spec_without_token"
proof -
  have l: "length (writeValue spec_with_token) \<le> 100" "length (writeValue spec_without_token) \<le> 100" by code_simp+
  show "parse (writeValue spec_with_token) = Inr spec_with_token" "parse (writeValue spec_without_token) = Inr spec_without_token"
    using small_document [OF l(1)] small_document [OF l(2)]
    by (auto intro!: parse_text simp: keys_sorted_def string_ok_def no_nul_def utf8_valid_def maxStringBytes_def maxDepth_def
        maxObjectMembers_def simp del: writeValue.simps)
qed

lemma sample_spec_canonical:
  "CanonicalizeResolvedSpec (BytesSpec (writeValue spec_with_token)) = Inr (writeValue spec_without_token)"
proof -
  have n: "normalizeIdentifier ''image'' = ''image''" "normalizeIdentifier ''token'' = ''token''" "normalizeIdentifier [] = []"
    by (rule normalizeIdentifier_plain, simp add: lower_alnum_def)+
  have e: "excludeCredentialMaterial [] spec_with_token = spec_without_token"
    by (simp add: dropped_member_def excludedField_def n referenceField_def excluded_terms_def has_suffix_def has_prefix_def sensitive_named_def)
  have w: "writeCanonical spec_without_token = Inr (writeValue spec_without_token)" by simp
  have v: "Validate (writeValue spec_with_token) = None" "Validate (writeValue spec_without_token) = None"
    by (simp_all add: Validate_def sample_spec_parsed del: writeValue.simps)
  show ?thesis
    using Validate_accepts [OF v(1)] sample_spec_parsed(1) v(2)
    by (simp add: CanonicalizeResolvedSpec_def resolvedSpecJSON_def e w del: excludeCredentialMaterial.simps writeCanonical.simps writeValue.simps)
qed

section \<open>Properties\<close>

text \<open>
  C35. Canonicalization of a resolved specification is idempotent: its bytes canonicalize to
  themselves, so the digest of a stored snapshot is the digest of the specification it was made of.
\<close>

theorem canonical_spec_idempotent:
  assumes "CanonicalizeResolvedSpec spec = Inr c"
  shows "CanonicalizeResolvedSpec (BytesSpec c) = Inr c \<and> ResolvedSpecDigest (BytesSpec c) = ResolvedSpecDigest spec"
proof -
  obtain v where v: "parse c = Inr v" "clean [] v" "writeCanonical v = Inr c" "Validate c = None"
    using CanonicalizeResolvedSpec_fixed [OF assms] by blast
  then have "CanonicalizeResolvedSpec (BytesSpec c) = Inr c"
    using Validate_accepts [OF v(4)] exclude_clean(1) [OF v(2)]
    by (simp add: CanonicalizeResolvedSpec_def resolvedSpecJSON_def)
  then show ?thesis using assms by (simp add: ResolvedSpecDigest_def)
qed

theorem canonical_spec_idempotent_witness:
  "CanonicalizeResolvedSpec (BytesSpec (writeValue spec_without_token)) = Inr (writeValue spec_without_token) \<and>
   ResolvedSpecDigest (BytesSpec (writeValue spec_without_token)) = ResolvedSpecDigest (BytesSpec (writeValue spec_with_token))"
  by (rule canonical_spec_idempotent [OF sample_spec_canonical])

text \<open>
  C36. No credential material reaches the hashed bytes: the canonical document has, at any depth
  outside exact tool arguments, no member whose name, without case and punctuation, starts with
  \<^verbatim>\<open>secret\<close>, contains \<^verbatim>\<open>credential\<close> or ends in one of the listed terms (unless it names a reference), no inlined
  value below a reference and no value beside a \<^verbatim>\<open>name\<close> that contains one of the secret terms.
\<close>

theorem canonical_spec_clean:
  assumes "CanonicalizeResolvedSpec spec = Inr c"
  shows "\<exists>v. parse c = Inr v \<and>
    (\<forall>parent ms k w. visible v parent (ObjectValue ms) \<longrightarrow> (k, w) \<in> set ms \<longrightarrow> \<not> credential_member parent ms k)"
  using CanonicalizeResolvedSpec_fixed [OF assms] clean_visible by blast

theorem canonical_spec_clean_witness:
  "CanonicalizeResolvedSpec (BytesSpec (writeValue spec_with_token)) = Inr (writeValue spec_without_token) \<and>
   credential_member [] [(''image'', StringValue ''i''), (''token'', StringValue ''t'')] ''token'' \<and>
   visible spec_without_token [] spec_without_token \<and>
   \<not> credential_member [] [(''image'', StringValue ''i'')] ''image''"
proof -
  have "credential_name ''token''"
    by (auto simp: credential_name_def reference_name_def ascii_name_def plain_name_def plain_letter_def)
  then have "credential_member [] [(''image'', StringValue ''i''), (''token'', StringValue ''t'')] ''token''"
    by (simp add: credential_member_def)
  moreover obtain v where "parse (writeValue spec_without_token) = Inr v"
    "\<forall>parent ms k w. visible v parent (ObjectValue ms) \<longrightarrow> (k, w) \<in> set ms \<longrightarrow> \<not> credential_member parent ms k"
    using canonical_spec_clean [OF sample_spec_canonical] by blast
  then have "\<not> credential_member [] [(''image'', StringValue ''i'')] ''image''"
    using sample_spec_parsed(2) visible_root [of spec_without_token] by (auto simp del: writeValue.simps)
  ultimately show ?thesis using sample_spec_canonical visible_root by blast
qed

end
