(* ===== verification/Go_Time.thy ===== *)
theory Go_Time
  imports Coverage_Policy
begin

text \<open>
  The part of the package \<^verbatim>\<open>time\<close> the sources use: a time is its civil date and clock with an offset
  in minutes, as RFC 3339 writes it, and denotes an instant in nanoseconds from the zero time of
  Go, midnight UTC of the first day of year one. Written text is read back as the time it was
  written from.
\<close>

section \<open>Instants\<close>

record go_time =
  tm_year :: nat
  tm_month :: nat
  tm_day :: nat
  tm_hour :: nat
  tm_minute :: nat
  tm_second :: nat
  tm_nano :: nat
  tm_offset :: int

definition leap_year :: "nat \<Rightarrow> bool" where
  "leap_year y \<longleftrightarrow> y mod 4 = 0 \<and> (y mod 100 \<noteq> 0 \<or> y mod 400 = 0)"

definition days_in_month :: "nat \<Rightarrow> nat \<Rightarrow> nat" where
  "days_in_month y m =
     (if m = 2 then (if leap_year y then 29 else 28) else if m = 4 \<or> m = 6 \<or> m = 9 \<or> m = 11 then 30 else 31)"

text \<open>Days from the first day of year one to the first day of a year, negative for year zero.\<close>

definition days_before_year :: "nat \<Rightarrow> int" where
  "days_before_year y = (let p = int y - 1 in 365 * p + p div 4 - p div 100 + p div 400)"

definition days_before_month :: "nat \<Rightarrow> nat \<Rightarrow> nat" where
  "days_before_month y m = sum_list (map (days_in_month y) [1..<m])"

definition instant_seconds :: "go_time \<Rightarrow> int" where
  "instant_seconds t =
     (let days = days_before_year (tm_year t) + int (days_before_month (tm_year t) (tm_month t)) + int (tm_day t) - 1
      in ((days * 24 + int (tm_hour t)) * 60 + int (tm_minute t) - tm_offset t) * 60 + int (tm_second t))"

definition instant :: "go_time \<Rightarrow> int" where
  "instant t = instant_seconds t * 1000000000 + int (tm_nano t)"

definition IsZero :: "go_time \<Rightarrow> bool" where
  "IsZero t \<longleftrightarrow> instant t = 0"

definition After :: "go_time \<Rightarrow> go_time \<Rightarrow> bool" where
  "After t u \<longleftrightarrow> instant u < instant t"

definition zero_time :: go_time where
  "zero_time = \<lparr>tm_year = 1, tm_month = 1, tm_day = 1, tm_hour = 0, tm_minute = 0, tm_second = 0, tm_nano = 0, tm_offset = 0\<rparr>"

lemma IsZero_zero_time [simp]: "IsZero zero_time"
  by (simp add: IsZero_def instant_def instant_seconds_def zero_time_def days_before_year_def days_before_month_def)

section \<open>RFC 3339\<close>

fun fixed_digits :: "nat \<Rightarrow> nat \<Rightarrow> string" where
  "fixed_digits 0 n = []"
| "fixed_digits (Suc k) n = fixed_digits k (n div 10) @ [digit_char (n mod 10)]"

definition nano_text :: "nat \<Rightarrow> string" where
  "nano_text n = (if n = 0 then [] else ''.'' @ trim_right_byte (CHR ''0'') (fixed_digits 9 n))"

definition offset_text :: "int \<Rightarrow> string" where
  "offset_text z =
     (if z = 0 then ''Z''
      else let m = nat \<bar>z\<bar> in (if z < 0 then ''-'' else ''+'') @ fixed_digits 2 (m div 60) @ '':'' @ fixed_digits 2 (m mod 60))"

text \<open>\<^verbatim>\<open>Format(RFC3339Nano)\<close>, the text \<^verbatim>\<open>MarshalJSON\<close> puts between quotes.\<close>

definition time_text :: "go_time \<Rightarrow> string" where
  "time_text t =
     fixed_digits 4 (tm_year t) @ ''-'' @ fixed_digits 2 (tm_month t) @ ''-'' @ fixed_digits 2 (tm_day t) @ ''T'' @
     fixed_digits 2 (tm_hour t) @ '':'' @ fixed_digits 2 (tm_minute t) @ '':'' @ fixed_digits 2 (tm_second t) @
     nano_text (tm_nano t) @ offset_text (tm_offset t)"

text \<open>Reading: so many digits, then a given text.\<close>

definition read_digits :: "nat \<Rightarrow> string \<Rightarrow> (nat \<times> string) option" where
  "read_digits k s =
     (if length s < k \<or> \<not> list_all is_digit (take k s) then None else Some (digits_value (take k s), drop k s))"

definition read_field :: "nat \<Rightarrow> string \<Rightarrow> string \<Rightarrow> (nat \<times> string) option" where
  "read_field k sep s =
     (case read_digits k s of None \<Rightarrow> None | Some (n, rest) \<Rightarrow>
        if has_prefix rest sep then Some (n, drop (length sep) rest) else None)"

definition read_nano :: "string \<Rightarrow> (nat \<times> string) option" where
  "read_nano s =
     (case s of
        c # rest \<Rightarrow>
          if c = CHR ''.'' then
            (let ds = takeWhile is_digit rest
             in if ds = [] \<or> length ds > 9 then None
                else Some (digits_value ds * 10 ^ (9 - length ds), dropWhile is_digit rest))
          else Some (0, s)
      | [] \<Rightarrow> Some (0, s))"

definition read_offset :: "string \<Rightarrow> int option" where
  "read_offset s =
     (case s of
        [] \<Rightarrow> None
      | c # rest \<Rightarrow>
          if s = ''Z'' then Some 0
          else if c = CHR ''+'' \<or> c = CHR ''-'' then
            (case read_field 2 '':'' rest of None \<Rightarrow> None | Some (h, rest) \<Rightarrow>
            (case read_digits 2 rest of None \<Rightarrow> None | Some (m, rest) \<Rightarrow>
               if rest \<noteq> [] \<or> h > 23 \<or> m > 59 then None
               else Some ((if c = CHR ''-'' then -1 else 1) * (int h * 60 + int m))))
          else None)"

definition time_valid :: "go_time \<Rightarrow> bool" where
  "time_valid t \<longleftrightarrow>
     tm_year t \<le> 9999 \<and> 1 \<le> tm_month t \<and> tm_month t \<le> 12 \<and> 1 \<le> tm_day t \<and>
     tm_day t \<le> days_in_month (tm_year t) (tm_month t) \<and> tm_hour t \<le> 23 \<and> tm_minute t \<le> 59 \<and>
     tm_second t \<le> 59 \<and> tm_nano t < 10 ^ 9 \<and> \<bar>tm_offset t\<bar> < 24 * 60"

definition read_time :: "string \<Rightarrow> go_time option" where
  "read_time s =
     (case read_field 4 ''-'' s of None \<Rightarrow> None | Some (y, s) \<Rightarrow>
     (case read_field 2 ''-'' s of None \<Rightarrow> None | Some (mo, s) \<Rightarrow>
     (case read_field 2 ''T'' s of None \<Rightarrow> None | Some (d, s) \<Rightarrow>
     (case read_field 2 '':'' s of None \<Rightarrow> None | Some (h, s) \<Rightarrow>
     (case read_field 2 '':'' s of None \<Rightarrow> None | Some (mi, s) \<Rightarrow>
     (case read_digits 2 s of None \<Rightarrow> None | Some (sec, s) \<Rightarrow>
     (case read_nano s of None \<Rightarrow> None | Some (n, s) \<Rightarrow>
     (case read_offset s of None \<Rightarrow> None | Some z \<Rightarrow>
        let t = \<lparr>tm_year = y, tm_month = mo, tm_day = d, tm_hour = h, tm_minute = mi, tm_second = sec, tm_nano = n, tm_offset = z\<rparr>
        in if time_valid t then Some t else None))))))))"

section \<open>Reading back what was written\<close>

lemma fixed_digits_ok: "list_all is_digit (fixed_digits k n)" "length (fixed_digits k n) = k"
  by (induction k n rule: fixed_digits.induct) (auto simp: digit_char_def is_digit_def)

lemma fixed_digits_value: "n < 10 ^ k \<Longrightarrow> digits_value (fixed_digits k n) = n"
proof (induction k n rule: fixed_digits.induct)
  case (2 k n)
  then have "n div 10 < 10 ^ k" by (simp add: less_mult_imp_div_less)
  with 2 show ?case by (simp add: digit_char_def digit_value_def)
qed simp

lemma read_digits_fixed: "n < 10 ^ k \<Longrightarrow> read_digits k (fixed_digits k n @ rest) = Some (n, rest)"
  using fixed_digits_ok [of k n] fixed_digits_value by (simp add: read_digits_def)

lemma read_field_fixed: "n < 10 ^ k \<Longrightarrow> read_field k sep (fixed_digits k n @ sep @ rest) = Some (n, rest)"
  by (simp add: read_field_def read_digits_fixed has_prefix_def)

lemma read_offset_text: "\<bar>z\<bar> < 24 * 60 \<Longrightarrow> read_offset (offset_text z) = Some z"
proof (cases "z = 0")
  case False
  assume *: "\<bar>z\<bar> < 24 * 60"
  obtain h m where hm: "nat \<bar>z\<bar> div 60 = h" "nat \<bar>z\<bar> mod 60 = m" by blast
  have "int (nat \<bar>z\<bar>) = int (h * 60 + m)" unfolding hm [symmetric] by (simp only: div_mult_mod_eq)
  then have z: "z = (if z < 0 then -1 else 1) * (int h * 60 + int m)" by auto
  have b: "h < 24" "m < 60" using * unfolding hm [symmetric] by auto
  have "read_field 2 '':'' (fixed_digits 2 h @ '':'' @ fixed_digits 2 m) = Some (h, fixed_digits 2 m)"
    using b(1) by (intro read_field_fixed) simp
  moreover have "read_digits 2 (fixed_digits 2 m) = Some (m, [])"
    using read_digits_fixed [of m 2 "[]"] b(2) by simp
  ultimately have "read_offset ((if z < 0 then ''-'' else ''+'') @ fixed_digits 2 h @ '':'' @ fixed_digits 2 m) =
      Some ((if z < 0 then -1 else 1) * (int h * 60 + int m))"
    using b by (auto simp: read_offset_def)
  then show ?thesis unfolding z [symmetric] using False hm by (simp add: offset_text_def Let_def)
qed (simp add: read_offset_def offset_text_def)

lemma nano_read:
  assumes "n < 10 ^ 9" and "rest = [] \<or> \<not> is_digit (hd rest) \<and> hd rest \<noteq> CHR ''.''"
  shows "read_nano (nano_text n @ rest) = Some (n, rest)"
proof (cases "n = 0")
  case True
  then show ?thesis using assms(2) by (auto simp: nano_text_def read_nano_def split: list.split)
next
  case False
  let ?f = "fixed_digits 9 n" and ?t = "trim_right_byte (CHR ''0'') (fixed_digits 9 n)"
  have f: "list_all is_digit ?f" "length ?f = 9" "digits_value ?f = n"
    using fixed_digits_ok fixed_digits_value [OF assms(1)] by auto
  obtain k where k: "?f = ?t @ replicate k (CHR ''0'')" using trim_right_zeros [OF f(1)] by blast
  have v: "digits_value ?t * 10 ^ k = n" using arg_cong [OF k, of digits_value] f(3) by (simp add: digits_value_zeros)
  then have ne: "?t \<noteq> []" using False by (intro notI) simp
  have l: "length ?t + k = 9" using arg_cong [OF k, of length] f(2) by simp
  have d: "list_all is_digit ?t" by (rule list_all_trim_right [OF f(1)])
  have tw: "takeWhile is_digit (?t @ rest) = ?t \<and> dropWhile is_digit (?t @ rest) = rest"
    using d assms(2) by (cases rest) (auto simp: list_all_iff takeWhile_append2 dropWhile_append2)
  have "9 - length ?t = k" using l by simp
  then show ?thesis using False tw v ne l by (auto simp: nano_text_def read_nano_def Let_def)
qed

lemma read_time_text: "time_valid t \<Longrightarrow> read_time (time_text t) = Some t"
proof -
  assume v: "time_valid t"
  have b: "tm_year t < 10 ^ 4" "tm_month t < 10 ^ 2" "tm_day t < 10 ^ 2" "tm_hour t < 10 ^ 2" "tm_minute t < 10 ^ 2"
    "tm_second t < 10 ^ 2" "tm_nano t < 10 ^ 9" "\<bar>tm_offset t\<bar> < 24 * 60"
    using v by (auto simp: time_valid_def days_in_month_def split: if_splits)
  have z: "offset_text (tm_offset t) = [] \<or> \<not> is_digit (hd (offset_text (tm_offset t))) \<and> hd (offset_text (tm_offset t)) \<noteq> CHR ''.''"
    by (auto simp: offset_text_def is_digit_def Let_def)
  have r: "\<lparr>tm_year = tm_year t, tm_month = tm_month t, tm_day = tm_day t, tm_hour = tm_hour t, tm_minute = tm_minute t,
      tm_second = tm_second t, tm_nano = tm_nano t, tm_offset = tm_offset t\<rparr> = t" by simp
  show ?thesis
    unfolding read_time_def time_text_def
    using v by (simp add: r Let_def read_field_fixed [OF b(1)] read_field_fixed [OF b(2)] read_field_fixed [OF b(3)]
        read_field_fixed [OF b(4)] read_field_fixed [OF b(5)] read_digits_fixed [OF b(6)] nano_read [OF b(7) z] read_offset_text [OF b(8)] del: append.simps append_Cons)
qed

end
