(* ===== verification/Effect_Ledger.thy ===== *)
theory Effect_Ledger
  imports Canonical_Spec Go_Time
begin

text \<open>
  The effect ledger of \<^verbatim>\<open>v3/internal/effects/ledger.go\<close>: durable claims, outcomes and tombstones of
  externally visible mutations. \<^verbatim>\<open>Claim\<close> and \<^verbatim>\<open>Commit\<close> are programs over an object store, trees of
  store operations that go on with the answer of the store, so that other clients can run between
  any two operations and any operation can fail. The receiver and its store are never nil.
\<close>

section \<open>Records\<close>

definition MaxLedgerBodyBytes :: nat where "MaxLedgerBodyBytes = 65536"

abbreviation LedgerSchema :: int where "LedgerSchema \<equiv> 1"

abbreviation TombstonesSegment :: string where "TombstonesSegment \<equiv> ''tombstones''"

datatype ledger_error =
  ErrInvalidInput | ErrConflict | ErrUnknown | ErrCorrupt | ErrNotFound | StoreError | CanonicalError spec_error

record effect_claim =
  cl_SchemaVersion :: int
  cl_EffectKey :: string
  cl_RequestDigest :: string
  cl_Operation :: string
  cl_RunUID :: string
  cl_CreatedAt :: go_time

datatype outcome_state = OutcomeSucceeded | OutcomeFailed | OutcomeUnknown | OtherOutcome string

fun state_text :: "outcome_state \<Rightarrow> string" where
  "state_text OutcomeSucceeded = ''succeeded''"
| "state_text OutcomeFailed = ''failed''"
| "state_text OutcomeUnknown = ''unknown''"
| "state_text (OtherOutcome s) = s"

definition to_state :: "string \<Rightarrow> outcome_state" where
  "to_state s =
     (if s = ''succeeded'' then OutcomeSucceeded else if s = ''failed'' then OutcomeFailed
      else if s = ''unknown'' then OutcomeUnknown else OtherOutcome s)"

record effect_outcome =
  oc_SchemaVersion :: int
  oc_EffectKey :: string
  oc_RequestDigest :: string
  oc_RunUID :: string
  oc_State :: outcome_state
  oc_ResultDigest :: string
  oc_ResultRef :: string
  oc_RecordedAt :: go_time

record effect_tombstone =
  tb_SchemaVersion :: int
  tb_EffectKey :: string
  tb_RequestDigest :: string
  tb_Operation :: string
  tb_RunUID :: string
  tb_State :: outcome_state
  tb_RetiredAt :: go_time

record claim_decision =
  Execute :: bool
  Unknown :: bool
  dc_Claim :: effect_claim

section \<open>Validation and keys\<close>

definition safeIdentifier :: "string \<Rightarrow> nat \<Rightarrow> bool" where
  "safeIdentifier v n \<longleftrightarrow> v \<noteq> [] \<and> length v \<le> n \<and> \<not> contains_any v [CHR 0x00, CHR 0x0D, CHR 0x0A]"

definition segment_byte :: "char \<Rightarrow> bool" where
  "segment_byte c \<longleftrightarrow>
     (let b = byte_of c in (97 \<le> b \<and> b \<le> 122) \<or> (65 \<le> b \<and> b \<le> 90) \<or> (48 \<le> b \<and> b \<le> 57)) \<or>
     c = CHR ''.'' \<or> c = CHR ''_'' \<or> c = CHR ''-''"

text \<open>A rune outside ASCII has no byte among the allowed ones, so ranging over bytes decides the same.\<close>

definition safeSegment :: "string \<Rightarrow> bool" where
  "safeSegment v \<longleftrightarrow> safeIdentifier v 128 \<and> v \<noteq> ''.'' \<and> v \<noteq> ''..'' \<and> list_all segment_byte v"

text \<open>\<^verbatim>\<open>New\<close>: the prefix of the ledger that is made.\<close>

definition New_ledger :: "string \<Rightarrow> ledger_error + string" where
  "New_ledger p =
     (let p = trim_byte (CHR ''/'') p; p = (if p = [] then ''effects'' else p)
      in if list_all safeSegment (split_on (CHR ''/'') p) then Inr p else Inl ErrInvalidInput)"

definition EffectKey :: "string \<Rightarrow> string \<Rightarrow> string \<Rightarrow> string \<Rightarrow> ledger_error + string" where
  "EffectKey runUID baseSHA patchDigest operation =
     (if \<not> safeIdentifier runUID 128 \<or> \<not> safeIdentifier baseSHA 128 \<or> \<not> ValidDigest patchDigest \<or> \<not> safeIdentifier operation 128
      then Inl ErrInvalidInput
      else Inr (sha256_digest (runUID @ [CHR 0x00] @ baseSHA @ [CHR 0x00] @ patchDigest @ [CHR 0x00] @ operation)))"

definition digestHex :: "string \<Rightarrow> string" where
  "digestHex d = trim_prefix d DigestPrefix"

definition claimKey :: "string \<Rightarrow> string \<Rightarrow> string" where
  "claimKey p e = p @ ''/claims/'' @ digestHex e @ ''.json''"

definition outcomeKey :: "string \<Rightarrow> string \<Rightarrow> string" where
  "outcomeKey p e = p @ ''/outcomes/'' @ digestHex e @ ''.json''"

definition tombstoneKey :: "string \<Rightarrow> string \<Rightarrow> string" where
  "tombstoneKey p e = p @ ''/'' @ TombstonesSegment @ ''/'' @ digestHex e @ ''.json''"

definition validClaim :: "effect_claim \<Rightarrow> bool" where
  "validClaim c \<longleftrightarrow>
     ValidDigest (cl_EffectKey c) \<and> ValidDigest (cl_RequestDigest c) \<and> safeIdentifier (cl_Operation c) 128 \<and>
     safeIdentifier (cl_RunUID c) 128"

definition validOutcome :: "effect_outcome \<Rightarrow> bool" where
  "validOutcome r \<longleftrightarrow>
     ValidDigest (oc_EffectKey r) \<and> ValidDigest (oc_RequestDigest r) \<and>
     (case oc_State r of OtherOutcome _ \<Rightarrow> False | _ \<Rightarrow> True) \<and>
     (oc_ResultDigest r = [] \<or> ValidDigest (oc_ResultDigest r))"

definition validTombstone :: "effect_tombstone \<Rightarrow> bool" where
  "validTombstone t \<longleftrightarrow>
     ValidDigest (tb_EffectKey t) \<and> ValidDigest (tb_RequestDigest t) \<and> safeIdentifier (tb_Operation t) 128 \<and>
     safeIdentifier (tb_RunUID t) 128 \<and> \<not> IsZero (tb_RetiredAt t) \<and>
     (tb_State t = OutcomeSucceeded \<or> tb_State t = OutcomeFailed)"

section \<open>Bodies\<close>

text \<open>\<^verbatim>\<open>json.Marshal\<close> of the records; a time whose year has more than four digits cannot be encoded.\<close>

definition time_encodes :: "go_time \<Rightarrow> bool" where
  "time_encodes t \<longleftrightarrow> tm_year t \<le> 9999 \<and> \<bar>tm_offset t\<bar> < 24 * 60"

definition json_omit :: "string \<Rightarrow> string \<Rightarrow> (string \<times> string) list" where
  "json_omit name v = (if v = [] then [] else [(name, json_string v)])"

definition marshal_claim :: "effect_claim \<Rightarrow> string option" where
  "marshal_claim c =
     (if \<not> time_encodes (cl_CreatedAt c) then None
      else Some (json_object
        [(''schemaVersion'', json_int (cl_SchemaVersion c)), (''effectKey'', json_string (cl_EffectKey c)),
         (''requestDigest'', json_string (cl_RequestDigest c)), (''operation'', json_string (cl_Operation c)),
         (''runUID'', json_string (cl_RunUID c)), (''createdAt'', json_string (time_text (cl_CreatedAt c)))]))"

definition marshal_outcome :: "effect_outcome \<Rightarrow> string option" where
  "marshal_outcome r =
     (if \<not> time_encodes (oc_RecordedAt r) then None
      else Some (json_object
        ([(''schemaVersion'', json_int (oc_SchemaVersion r)), (''effectKey'', json_string (oc_EffectKey r)),
          (''requestDigest'', json_string (oc_RequestDigest r))] @ json_omit ''runUID'' (oc_RunUID r) @
         [(''state'', json_string (state_text (oc_State r)))] @ json_omit ''resultDigest'' (oc_ResultDigest r) @
         json_omit ''resultRef'' (oc_ResultRef r) @ [(''recordedAt'', json_string (time_text (oc_RecordedAt r)))])))"

definition marshal_tombstone :: "effect_tombstone \<Rightarrow> string option" where
  "marshal_tombstone t =
     (if \<not> time_encodes (tb_RetiredAt t) then None
      else Some (json_object
        [(''schemaVersion'', json_int (tb_SchemaVersion t)), (''effectKey'', json_string (tb_EffectKey t)),
         (''requestDigest'', json_string (tb_RequestDigest t)), (''operation'', json_string (tb_Operation t)),
         (''runUID'', json_string (tb_RunUID t)), (''state'', json_string (state_text (tb_State t))),
         (''retiredAt'', json_string (time_text (tb_RetiredAt t)))]))"

definition canonicalJSON :: "string option \<Rightarrow> ledger_error + string" where
  "canonicalJSON encoded =
     (case CanonicalizeResolvedSpec (ValueSpec encoded) of Inl err \<Rightarrow> Inl (CanonicalError err) | Inr body \<Rightarrow> Inr body)"

text \<open>
  \<^verbatim>\<open>decodeStrict\<close>: the members of the one object in a body, all of known names. \<^verbatim>\<open>encoding/json\<close> also
  matches a name in another case; such a body is not canonical and is refused by every caller.
\<close>

definition decodeStrict :: "string list \<Rightarrow> string \<Rightarrow> (string \<times> json_value) list option" where
  "decodeStrict names body =
     (if body = [] \<or> length body > MaxLedgerBodyBytes \<or> ValidateObject body \<noteq> None then None
      else case parse body of
        Inr (ObjectValue ms) \<Rightarrow> if list_all (\<lambda>(k, v). List.member names k) ms then Some ms else None
      | _ \<Rightarrow> None)"

definition text_field :: "(string \<times> json_value) list \<Rightarrow> string \<Rightarrow> string option" where
  "text_field ms name =
     (case map_of ms name of
        None \<Rightarrow> Some [] | Some NullValue \<Rightarrow> Some [] | Some (StringValue s) \<Rightarrow> Some s | Some _ \<Rightarrow> None)"

definition int_field :: "(string \<times> json_value) list \<Rightarrow> string \<Rightarrow> int option" where
  "int_field ms name =
     (case map_of ms name of
        None \<Rightarrow> Some 0
      | Some NullValue \<Rightarrow> Some 0
      | Some (NumberValue d) \<Rightarrow>
          if dec_exponent d < 0 then None
          else Some ((if dec_negative d then -1 else 1) * int (digits_value (dec_digits d)) * 10 ^ nat (dec_exponent d))
      | Some _ \<Rightarrow> None)"

definition time_field :: "(string \<times> json_value) list \<Rightarrow> string \<Rightarrow> go_time option" where
  "time_field ms name =
     (case map_of ms name of
        None \<Rightarrow> Some zero_time | Some NullValue \<Rightarrow> Some zero_time | Some (StringValue s) \<Rightarrow> read_time s | Some _ \<Rightarrow> None)"

definition claim_of :: "(string \<times> json_value) list \<Rightarrow> effect_claim option" where
  "claim_of ms =
     (case int_field ms ''schemaVersion'' of None \<Rightarrow> None | Some v \<Rightarrow>
     (case text_field ms ''effectKey'' of None \<Rightarrow> None | Some e \<Rightarrow>
     (case text_field ms ''requestDigest'' of None \<Rightarrow> None | Some d \<Rightarrow>
     (case text_field ms ''operation'' of None \<Rightarrow> None | Some p \<Rightarrow>
     (case text_field ms ''runUID'' of None \<Rightarrow> None | Some u \<Rightarrow>
     (case time_field ms ''createdAt'' of None \<Rightarrow> None | Some t \<Rightarrow>
        Some \<lparr>cl_SchemaVersion = v, cl_EffectKey = e, cl_RequestDigest = d, cl_Operation = p, cl_RunUID = u, cl_CreatedAt = t\<rparr>))))))"

definition outcome_of :: "(string \<times> json_value) list \<Rightarrow> effect_outcome option" where
  "outcome_of ms =
     (case int_field ms ''schemaVersion'' of None \<Rightarrow> None | Some v \<Rightarrow>
     (case text_field ms ''effectKey'' of None \<Rightarrow> None | Some e \<Rightarrow>
     (case text_field ms ''requestDigest'' of None \<Rightarrow> None | Some d \<Rightarrow>
     (case text_field ms ''runUID'' of None \<Rightarrow> None | Some u \<Rightarrow>
     (case text_field ms ''state'' of None \<Rightarrow> None | Some st \<Rightarrow>
     (case text_field ms ''resultDigest'' of None \<Rightarrow> None | Some rd \<Rightarrow>
     (case text_field ms ''resultRef'' of None \<Rightarrow> None | Some rr \<Rightarrow>
     (case time_field ms ''recordedAt'' of None \<Rightarrow> None | Some t \<Rightarrow>
        Some \<lparr>oc_SchemaVersion = v, oc_EffectKey = e, oc_RequestDigest = d, oc_RunUID = u, oc_State = to_state st,
              oc_ResultDigest = rd, oc_ResultRef = rr, oc_RecordedAt = t\<rparr>))))))))"

definition tombstone_of :: "(string \<times> json_value) list \<Rightarrow> effect_tombstone option" where
  "tombstone_of ms =
     (case int_field ms ''schemaVersion'' of None \<Rightarrow> None | Some v \<Rightarrow>
     (case text_field ms ''effectKey'' of None \<Rightarrow> None | Some e \<Rightarrow>
     (case text_field ms ''requestDigest'' of None \<Rightarrow> None | Some d \<Rightarrow>
     (case text_field ms ''operation'' of None \<Rightarrow> None | Some p \<Rightarrow>
     (case text_field ms ''runUID'' of None \<Rightarrow> None | Some u \<Rightarrow>
     (case text_field ms ''state'' of None \<Rightarrow> None | Some st \<Rightarrow>
     (case time_field ms ''retiredAt'' of None \<Rightarrow> None | Some t \<Rightarrow>
        Some \<lparr>tb_SchemaVersion = v, tb_EffectKey = e, tb_RequestDigest = d, tb_Operation = p, tb_RunUID = u,
              tb_State = to_state st, tb_RetiredAt = t\<rparr>)))))))"

definition claim_names :: "string list" where
  "claim_names = [''schemaVersion'', ''effectKey'', ''requestDigest'', ''operation'', ''runUID'', ''createdAt'']"

definition outcome_names :: "string list" where
  "outcome_names = [''schemaVersion'', ''effectKey'', ''requestDigest'', ''runUID'', ''state'', ''resultDigest'', ''resultRef'', ''recordedAt'']"

definition tombstone_names :: "string list" where
  "tombstone_names = [''schemaVersion'', ''effectKey'', ''requestDigest'', ''operation'', ''runUID'', ''state'', ''retiredAt'']"

definition DecodeClaim :: "string \<Rightarrow> ledger_error + effect_claim" where
  "DecodeClaim body =
     (case Option.bind (decodeStrict claim_names body) claim_of of
        None \<Rightarrow> Inl ErrCorrupt
      | Some c \<Rightarrow>
          if cl_SchemaVersion c \<noteq> LedgerSchema \<or> \<not> validClaim c \<or> IsZero (cl_CreatedAt c) \<or>
             canonicalJSON (marshal_claim c) \<noteq> Inr body
          then Inl ErrCorrupt else Inr c)"

definition DecodeOutcome :: "string \<Rightarrow> ledger_error + effect_outcome" where
  "DecodeOutcome body =
     (case Option.bind (decodeStrict outcome_names body) outcome_of of
        None \<Rightarrow> Inl ErrCorrupt
      | Some r \<Rightarrow>
          if oc_SchemaVersion r \<noteq> LedgerSchema \<or> \<not> validOutcome r \<or> IsZero (oc_RecordedAt r) \<or>
             canonicalJSON (marshal_outcome r) \<noteq> Inr body
          then Inl ErrCorrupt else Inr r)"

definition EncodeTombstone :: "effect_tombstone \<Rightarrow> ledger_error + string" where
  "EncodeTombstone t =
     (let t = (if tb_SchemaVersion t = 0 then t\<lparr>tb_SchemaVersion := LedgerSchema\<rparr> else t)
      in if tb_SchemaVersion t \<noteq> LedgerSchema \<or> \<not> validTombstone t then Inl ErrCorrupt
         else canonicalJSON (marshal_tombstone t))"

definition DecodeTombstone :: "string \<Rightarrow> ledger_error + effect_tombstone" where
  "DecodeTombstone body =
     (case Option.bind (decodeStrict tombstone_names body) tombstone_of of
        None \<Rightarrow> Inl ErrCorrupt
      | Some t \<Rightarrow>
          if tb_SchemaVersion t \<noteq> LedgerSchema \<or> \<not> validTombstone t \<or> canonicalJSON (marshal_tombstone t) \<noteq> Inr body
          then Inl ErrCorrupt else Inr t)"

section \<open>Programs over an object store\<close>

text \<open>
  A call is the tree of the operations it may perform, with a branch for every answer. The last operation,
  a deletion in the cluster by kind, namespace, name and UID, is used by retention only.
\<close>

datatype get_answer = Found string | Missing | GetFailed
datatype create_answer = Created | Exists | CreateFailed
datatype delete_answer = Deleted | Absent | FenceConflict | DeleteFailed

datatype 'a program =
    Done 'a
  | Get string "get_answer \<Rightarrow> 'a program"
  | Create string string "create_answer \<Rightarrow> 'a program"
  | Delete string string "delete_answer \<Rightarrow> 'a program"
  | KubeDelete "string \<times> string \<times> string \<times> string" "delete_answer \<Rightarrow> 'a program"

primrec followed_by :: "'a program \<Rightarrow> ('a \<Rightarrow> 'b program) \<Rightarrow> 'b program" where
  "followed_by (Done x) g = g x"
| "followed_by (Get k f) g = Get k (\<lambda>r. followed_by (f r) g)"
| "followed_by (Create k b f) g = Create k b (\<lambda>r. followed_by (f r) g)"
| "followed_by (Delete k e f) g = Delete k e (\<lambda>r. followed_by (f r) g)"
| "followed_by (KubeDelete x f) g = KubeDelete x (\<lambda>r. followed_by (f r) g)"

definition isNotFound :: "ledger_error \<Rightarrow> bool" where
  "isNotFound err \<longleftrightarrow> err = ErrNotFound"

definition tombstoneExists :: "string \<Rightarrow> string \<Rightarrow> (ledger_error + bool) program" where
  "tombstoneExists p e =
     (if \<not> ValidDigest e then Done (Inl ErrInvalidInput)
      else Get (tombstoneKey p e) (\<lambda>r. Done
        (case r of
           Missing \<Rightarrow> Inr False
         | GetFailed \<Rightarrow> Inl StoreError
         | Found body \<Rightarrow>
             (case DecodeTombstone body of
                Inl _ \<Rightarrow> Inl ErrCorrupt
              | Inr t \<Rightarrow> if tb_EffectKey t \<noteq> e then Inl ErrCorrupt else Inr True))))"

definition ReadOutcome :: "string \<Rightarrow> string \<Rightarrow> string \<Rightarrow> (ledger_error + effect_outcome) program" where
  "ReadOutcome p e requestDigest =
     (if \<not> ValidDigest e \<or> \<not> ValidDigest requestDigest then Done (Inl ErrInvalidInput)
      else Get (outcomeKey p e) (\<lambda>r. Done
        (case r of
           Missing \<Rightarrow> Inl ErrNotFound
         | GetFailed \<Rightarrow> Inl StoreError
         | Found body \<Rightarrow>
             (case DecodeOutcome body of
                Inl _ \<Rightarrow> Inl ErrCorrupt
              | Inr rec \<Rightarrow>
                  if oc_EffectKey rec \<noteq> e \<or> oc_RequestDigest rec \<noteq> requestDigest then Inl ErrCorrupt else Inr rec))))"

definition readClaim :: "string \<Rightarrow> (ledger_error + effect_claim) program" where
  "readClaim key =
     Get key (\<lambda>r. Done
       (case r of
          Missing \<Rightarrow> Inl ErrNotFound
        | GetFailed \<Rightarrow> Inl StoreError
        | Found body \<Rightarrow> (case DecodeClaim body of Inl _ \<Rightarrow> Inl ErrCorrupt | Inr c \<Rightarrow> Inr c)))"

text \<open>
  The check the operations repeat: an error of the read ends the operation, a tombstone ends it as
  unknown, and otherwise it goes on.
\<close>

definition unless_tombstoned :: "string \<Rightarrow> string \<Rightarrow> (ledger_error \<Rightarrow> 'a) \<Rightarrow> 'a \<Rightarrow> 'a program \<Rightarrow> 'a program" where
  "unless_tombstoned p e failed fenced go =
     followed_by (tombstoneExists p e)
       (\<lambda>r. case r of Inl err \<Rightarrow> Done (failed err) | Inr True \<Rightarrow> Done fenced | Inr False \<Rightarrow> go)"

type_synonym claim_result = "claim_decision \<times> ledger_error option"

definition zero_claim :: effect_claim where
  "zero_claim = \<lparr>cl_SchemaVersion = 0, cl_EffectKey = [], cl_RequestDigest = [], cl_Operation = [], cl_RunUID = [],
     cl_CreatedAt = zero_time\<rparr>"

definition failed_claim :: "ledger_error \<Rightarrow> claim_result" where
  "failed_claim err = (\<lparr>Execute = False, Unknown = False, dc_Claim = zero_claim\<rparr>, Some err)"

definition unknown_claim :: "effect_claim \<Rightarrow> claim_result" where
  "unknown_claim c = (\<lparr>Execute = False, Unknown = True, dc_Claim = c\<rparr>, Some ErrUnknown)"

text \<open>What \<^verbatim>\<open>Claim\<close> does with a claim that exists already.\<close>

definition replay_claim :: "string \<Rightarrow> effect_claim \<Rightarrow> claim_result program" where
  "replay_claim p c =
     followed_by (readClaim (claimKey p (cl_EffectKey c))) (\<lambda>r. case r of Inl err \<Rightarrow> Done (failed_claim err) | Inr old \<Rightarrow>
       if cl_EffectKey old \<noteq> cl_EffectKey c \<or> cl_RequestDigest old \<noteq> cl_RequestDigest c \<or>
          cl_Operation old \<noteq> cl_Operation c \<or> cl_RunUID old \<noteq> cl_RunUID c
       then Done (failed_claim ErrConflict)
       else unless_tombstoned p (cl_EffectKey c) failed_claim (unknown_claim old)
         (followed_by (ReadOutcome p (cl_EffectKey c) (cl_RequestDigest c)) (\<lambda>r. case r of
            Inl err \<Rightarrow> if isNotFound err then Done (unknown_claim old) else Done (failed_claim err)
          | Inr outcome \<Rightarrow>
              unless_tombstoned p (cl_EffectKey c) failed_claim (unknown_claim old)
                (Done (if oc_State outcome = OutcomeUnknown then unknown_claim old
                       else (\<lparr>Execute = False, Unknown = False, dc_Claim = old\<rparr>, None))))))"

text \<open>\<^verbatim>\<open>Claim\<close> with the reading of the clock in UTC.\<close>

definition Claim :: "string \<Rightarrow> go_time \<Rightarrow> effect_claim \<Rightarrow> claim_result program" where
  "Claim p now claim =
     (if \<not> validClaim claim then Done (failed_claim ErrInvalidInput)
      else unless_tombstoned p (cl_EffectKey claim) failed_claim (unknown_claim claim)
        (let c = claim\<lparr>cl_SchemaVersion := LedgerSchema, cl_CreatedAt := now\<rparr>
         in if IsZero now then Done (failed_claim ErrInvalidInput)
            else case canonicalJSON (marshal_claim c) of Inl err \<Rightarrow> Done (failed_claim err) | Inr body \<Rightarrow>
              Create (claimKey p (cl_EffectKey c)) body (\<lambda>r. case r of
                CreateFailed \<Rightarrow> Done (failed_claim StoreError)
              | Created \<Rightarrow>
                  unless_tombstoned p (cl_EffectKey c) failed_claim (unknown_claim c)
                    (Done (\<lparr>Execute = True, Unknown = False, dc_Claim = c\<rparr>, None))
              | Exists \<Rightarrow> replay_claim p c)))"

text \<open>What \<^verbatim>\<open>Commit\<close> does with an outcome that exists already; \<open>c\<close> is the stored claim.\<close>

definition replay_commit :: "string \<Rightarrow> effect_claim \<Rightarrow> effect_outcome \<Rightarrow> ledger_error option program" where
  "replay_commit p c outcome =
     followed_by (ReadOutcome p (oc_EffectKey outcome) (oc_RequestDigest outcome)) (\<lambda>r. case r of
       Inl err \<Rightarrow> Done (Some err)
     | Inr old \<Rightarrow>
         if oc_RunUID old \<noteq> cl_RunUID c then Done (Some ErrConflict)
         else if oc_State old \<noteq> oc_State outcome \<or> oc_ResultDigest old \<noteq> oc_ResultDigest outcome \<or>
           oc_ResultRef old \<noteq> oc_ResultRef outcome then Done (Some ErrConflict)
         else unless_tombstoned p (oc_EffectKey outcome) Some (Some ErrUnknown) (Done None))"

definition Commit :: "string \<Rightarrow> go_time \<Rightarrow> effect_outcome \<Rightarrow> ledger_error option program" where
  "Commit p now outcome =
     (if \<not> validOutcome outcome then Done (Some ErrInvalidInput)
      else unless_tombstoned p (oc_EffectKey outcome) Some (Some ErrUnknown)
        (followed_by (readClaim (claimKey p (oc_EffectKey outcome))) (\<lambda>r. case r of Inl err \<Rightarrow> Done (Some err) | Inr c \<Rightarrow>
          if cl_RequestDigest c \<noteq> oc_RequestDigest outcome then Done (Some ErrConflict)
          else if oc_RunUID outcome \<noteq> [] \<and> oc_RunUID outcome \<noteq> cl_RunUID c then Done (Some ErrConflict)
          else let new = outcome\<lparr>oc_RunUID := cl_RunUID c, oc_SchemaVersion := LedgerSchema, oc_RecordedAt := now\<rparr>
               in if IsZero now then Done (Some ErrInvalidInput)
                  else case canonicalJSON (marshal_outcome new) of Inl err \<Rightarrow> Done (Some err) | Inr body \<Rightarrow>
                    Create (outcomeKey p (oc_EffectKey new)) body (\<lambda>r. case r of
                      CreateFailed \<Rightarrow> Done (Some StoreError)
                    | Created \<Rightarrow> unless_tombstoned p (oc_EffectKey new) Some (Some ErrUnknown) (Done None)
                    | Exists \<Rightarrow> replay_commit p c new))))"

end
