(* ===== verification/Ledger_Records.thy ===== *)
theory Ledger_Records
  imports Effect_Ledger
begin

text \<open>
  The bodies of the ledger read back: what \<^verbatim>\<open>canonicalJSON\<close> writes for a valid record is a canonical
  document within the limits, and the decoders return the record that was written. An outcome is the
  exception: nothing bounds its result reference, and a body over the limit is refused by every reader.
\<close>

section \<open>Objects with members in any order\<close>

definition object_of :: "(string \<times> json_value) list \<Rightarrow> (string \<times> json_value) list" where
  "object_of ms = fold (\<lambda>(k, v). insert_member k v) ms []"

abbreviation add_members :: "(string \<times> json_value) list \<Rightarrow> (string \<times> json_value) list \<Rightarrow> (string \<times> json_value) list" where
  "add_members ms qs \<equiv> fold (\<lambda>(k, v). insert_member k v) ms qs"

lemma set_add_members: "set (add_members ms qs) = set ms \<union> set qs"
  by (induction ms arbitrary: qs) (auto simp: set_insert_member)

lemma length_add_members: "length (add_members ms qs) = length ms + length qs"
  by (induction ms arbitrary: qs) auto

lemma map_of_insert_member: "map_of ms k = None \<Longrightarrow> map_of (insert_member k v ms) = (map_of ms)(k \<mapsto> v)"
  by (induction k v ms rule: insert_member.induct) (auto simp: fun_eq_iff split: if_splits)

lemma distinct_insert_member: "distinct (map fst (insert_member k v ms)) \<longleftrightarrow> k \<notin> fst ` set ms \<and> distinct (map fst ms)"
  by (induction k v ms rule: insert_member.induct) (auto simp: set_insert_member)

lemma map_of_add_members:
  "distinct (map fst (ms @ qs)) \<Longrightarrow> map_of (add_members ms qs) = map_of (ms @ qs)"
proof (induction ms arbitrary: qs)
  case (Cons m ms)
  obtain k v where m: "m = (k, v)" by fastforce
  have k: "map_of qs k = None" "map_of ms k = None" using Cons.prems m by (auto simp: map_of_eq_None_iff)
  have "fst ` set (insert_member k v qs) = insert k (fst ` set qs)" by (simp add: set_insert_member)
  then have "distinct (map fst (ms @ insert_member k v qs))"
    using Cons.prems m by (auto simp: distinct_insert_member)
  then have "map_of (add_members ms (insert_member k v qs)) = map_of (ms @ insert_member k v qs)" by (rule Cons.IH)
  then show ?case using k by (auto simp: m map_of_insert_member fun_eq_iff map_add_def split: option.split)
qed simp

definition fields_ok :: "(string \<times> json_value) list \<Rightarrow> bool" where
  "fields_ok ms \<longleftrightarrow> distinct (map fst ms) \<and> length ms \<le> maxObjectMembers \<and>
     list_all (\<lambda>(k, v). string_ok k \<and> value_ok (Suc 0) v \<and> value_writable v) ms"

lemma members_parsed:
  assumes "distinct (map fst (qs @ ms))" and "length (qs @ ms) \<le> maxObjectMembers" and "ms \<noteq> []"
    and "list_all (\<lambda>(k, v). string_ok k \<and> value_ok (Suc d) v \<and> value_writable v) ms"
  shows "\<exists>f. parse_members f d qs (write_members ms @ ''}'' @ rest) = Inr (ObjectValue (add_members ms qs), rest)"
  using assms
proof (induction ms arbitrary: qs)
  case (Cons m ms)
  obtain k v where m: "m = (k, v)" by fastforce
  have "distinct (map fst (insert_member k v qs @ ms))"
    using Cons.prems(1) by (auto simp: m distinct_insert_member set_insert_member)
  then have "\<exists>f. parse_members f d (insert_member k v qs) (write_members ms @ ''}'' @ rest) =
      Inr (ObjectValue (add_members ms (insert_member k v qs)), rest)" if "ms \<noteq> []"
    using Cons.prems(2,4) that by (intro Cons.IH) auto
  then show ?case
    unfolding m using Cons.prems text_parsed(1) by (intro parse_members_step) (auto simp: m)
qed simp

lemma parse_object:
  assumes "fields_ok ms" and "ms \<noteq> []" and "length (writeValue (ObjectValue ms)) \<le> MaxDocumentBytes"
  shows "parse (writeValue (ObjectValue ms)) = Inr (ObjectValue (object_of ms))"
proof -
  let ?t = "writeValue (ObjectValue ms)"
  obtain f where f: "parse_members f 0 [] (write_members ms @ ''}'' @ []) = Inr (ObjectValue (object_of ms), [])"
    using members_parsed [of "[]" ms 0 "[]"] assms(1,2) by (auto simp: fields_ok_def object_of_def)
  obtain cs where cs: "write_members ms = quote_byte # cs" using write_members_first [OF assms(2)] by blast
  have "parseValue (Suc f) 0 ?t = Inr (ObjectValue (object_of ms), [])"
    using f by (simp add: cs skipSpace_none is_space_def)
  then have p: "parseValue (2 * length ?t + 1) 0 ?t = Inr (ObjectValue (object_of ms), [])" by (rule parseValue_standard)
  have "utf8_valid (write_members ms)"
    using assms(1) by (intro writeValue_valid(2) [of "Suc 0"]) (auto simp: fields_ok_def list_all_iff)
  then have "utf8_valid ?t"
    using utf8_valid_append [OF ascii_valid, of "''{''" "write_members ms @ ''}''"] utf8_valid_append [of "write_members ms" "''}''"]
    by (simp add: ascii_valid)
  moreover have "skipSpace ?t = ?t" by (simp add: skipSpace_none is_space_def)
  ultimately show ?thesis
    using p assms(3) by (simp add: parse_def Let_def skipSpace_def [of "[]"] del: parseValue.simps)
qed

text \<open>Sorting the members keeps the length of the text.\<close>

definition members_size :: "(string \<times> json_value) list \<Rightarrow> nat" where
  "members_size ms = sum_list (map (\<lambda>(k, v). length (json_string k) + length (writeValue v) + 2) ms)"

lemma write_members_size: "ms \<noteq> [] \<Longrightarrow> length (write_members ms) + 1 = members_size ms"
proof (induction ms)
  case (Cons m ms)
  then show ?case by (cases "ms = []"; cases m) (auto simp: members_size_def)
qed simp

lemma members_size_insert: "members_size (insert_member k v ms) = length (json_string k) + length (writeValue v) + 2 + members_size ms"
  by (induction k v ms rule: insert_member.induct) (auto simp: members_size_def)

lemma members_size_add: "members_size (add_members ms qs) = members_size ms + members_size qs"
  by (induction ms arbitrary: qs) (auto simp: members_size_insert, auto simp: members_size_def)

lemma object_of_length: "ms \<noteq> [] \<Longrightarrow> length (writeValue (ObjectValue (object_of ms))) = length (writeValue (ObjectValue ms))"
  using write_members_size [of ms] write_members_size [of "object_of ms"] members_size_add [of ms "[]"] length_add_members [of ms "[]"]
  by (cases "object_of ms = []") (auto simp: object_of_def members_size_def)

section \<open>The canonical form of a flat record\<close>

fun scalar_ok :: "json_value \<Rightarrow> bool" where
  "scalar_ok (StringValue s) = True"
| "scalar_ok (NumberValue n) = (Validate (canonicalDecimal n) = None)"
| "scalar_ok _ = False"

lemma scalar_clean: "scalar_ok v \<Longrightarrow> clean k v"
  by (cases v) auto

lemma scalar_canonical: "scalar_ok v \<Longrightarrow> writeCanonical v = Inr (writeValue v)"
  by (cases v) auto

lemma writeCanonical_scalars:
  assumes "list_all (\<lambda>(k, v). scalar_ok v) ms"
  shows "write_canonical_members ms = Inr (write_members ms)"
  using assms by (induction ms) (auto simp: scalar_canonical)

definition flat_record :: "(string \<times> json_value) list \<Rightarrow> bool" where
  "flat_record ms \<longleftrightarrow> ms \<noteq> [] \<and> fields_ok ms \<and>
     list_all (\<lambda>(k, v). \<not> excludedField k \<and> k \<noteq> ''name'' \<and> scalar_ok v) ms"

lemma flat_record_canonical:
  assumes "flat_record ms" and "length (writeValue (ObjectValue ms)) \<le> MaxDocumentBytes"
  shows "canonicalJSON (Some (writeValue (ObjectValue ms))) = Inr (writeValue (ObjectValue (object_of ms)))"
    and "parse (writeValue (ObjectValue (object_of ms))) = Inr (ObjectValue (object_of ms))"
proof -
  have f: "ms \<noteq> []" "fields_ok ms" and
    all: "list_all (\<lambda>(k, v). \<not> excludedField k \<and> k \<noteq> ''name'' \<and> scalar_ok v) (object_of ms)"
    using assms(1) by (auto simp: flat_record_def list_all_iff object_of_def set_add_members)
  have p: "parse (writeValue (ObjectValue ms)) = Inr (ObjectValue (object_of ms))" by (rule parse_object [OF f(2,1) assms(2)])
  have w: "value_writable (ObjectValue (object_of ms))"
    using f(2) by (auto simp: fields_ok_def object_of_def list_all_iff set_add_members)
  show p': "parse (writeValue (ObjectValue (object_of ms))) = Inr (ObjectValue (object_of ms))"
    using parsed_ok [OF p] w assms(2) object_of_length [OF f(1)] by (intro parse_text) simp_all
  have s: "\<not> sensitive_named (object_of ms)" using all
    by (auto simp: sensitive_named_def list_all_iff dest!: map_of_SomeD split: option.splits json_value.splits)
  have n: "normalizeIdentifier [] = []" by (rule normalizeIdentifier_plain) simp
  have "list_all (\<lambda>(k, v). \<not> dropped_member [] (sensitive_named (object_of ms)) k \<and> clean k v) (object_of ms)"
    using all s by (auto simp: list_all_iff dropped_member_def n referenceField_def has_suffix_def scalar_clean)
  then have "excludeCredentialMaterial [] (ObjectValue (object_of ms)) = ObjectValue (object_of ms)"
    by (intro exclude_clean(1)) simp
  moreover have "writeCanonical (ObjectValue (object_of ms)) = Inr (writeValue (ObjectValue (object_of ms)))"
    using writeCanonical_scalars [of "object_of ms"] all by (auto simp: list_all_iff case_prod_beta)
  ultimately show "canonicalJSON (Some (writeValue (ObjectValue ms))) = Inr (writeValue (ObjectValue (object_of ms)))"
    using p p' Validate_accepts [of "writeValue (ObjectValue ms)"]
    by (simp add: canonicalJSON_def CanonicalizeResolvedSpec_def resolvedSpecJSON_def Validate_def)
qed

section \<open>The fields of the records\<close>

lemma normalizeIdentifier_ascii:
  assumes "list_all (\<lambda>c. \<not> digit7 c) s"
  shows "normalizeIdentifier s = map char_of (filter lower_alnum (map lower_rune (map byte_of s)))"
proof -
  have "range_runes (map byte_of s) = map byte_of s" using assms by (intro range_runes_ascii) (simp add: list_all_iff)
  then show ?thesis by (simp add: normalizeIdentifier_def)
qed

lemmas name_evaluation = excludedField_def normalizeIdentifier_ascii lower_alnum_def lower_rune_def char_of_def bit_0
  referenceField_def excluded_terms_def has_suffix_def has_prefix_def

lemma record_names_kept:
  "\<not> excludedField ''schemaVersion''" "\<not> excludedField ''effectKey''" "\<not> excludedField ''requestDigest''"
  "\<not> excludedField ''operation''" "\<not> excludedField ''runUID''" "\<not> excludedField ''createdAt''"
  "\<not> excludedField ''state''" "\<not> excludedField ''resultDigest''" "\<not> excludedField ''resultRef''"
  "\<not> excludedField ''recordedAt''" "\<not> excludedField ''retiredAt''"
  by (simp_all add: name_evaluation)

lemma string_ok_ascii: "list_all (\<lambda>c. (byte_of c :: nat) \<noteq> 0 \<and> (byte_of c :: nat) < 128) s \<Longrightarrow> length s \<le> maxStringBytes \<Longrightarrow> string_ok s"
  by (auto simp: string_ok_def no_nul_def list_all_iff intro!: ascii_valid)

lemma record_names_ok:
  "string_ok ''schemaVersion''" "string_ok ''effectKey''" "string_ok ''requestDigest''" "string_ok ''operation''"
  "string_ok ''runUID''" "string_ok ''createdAt''" "string_ok ''state''" "string_ok ''resultDigest''" "string_ok ''resultRef''"
  "string_ok ''recordedAt''" "string_ok ''retiredAt''"
  by (simp_all add: string_ok_ascii maxStringBytes_def)

definition version_one :: decimal where
  "version_one = \<lparr>dec_negative = False, dec_digits = ''1'', dec_exponent = 0\<rparr>"

lemma version_one_text [simp]: "canonicalDecimal version_one = ''1''" "json_int 1 = ''1''"
  by (simp_all add: version_one_def canonicalDecimal_def json_int_def nat_digits.simps digit_char_def char_of_def bit_0)

lemma version_one_ok: "decimal_ok version_one" "writable version_one" "Validate ''1'' = None"
proof -
  show ok: "decimal_ok version_one" "writable version_one"
    by (simp_all add: version_one_def decimal_ok_def writable_def is_digit_def MaxMantissaDigits_def)
  then have "parse (writeValue (NumberValue version_one)) = Inr (NumberValue version_one)"
    by (intro parse_text) (simp_all add: MaxDocumentBytes_def maxDepth_def)
  then show "Validate ''1'' = None" by (simp add: Validate_def)
qed

lemma json_object_text: "json_object (map (\<lambda>(k, v). (k, writeValue v)) ms) = writeValue (ObjectValue ms)"
proof -
  have "json_join (map (\<lambda>m. json_string (fst m) @ '':'' @ writeValue (snd m)) ms) = write_members ms"
  proof (induction ms)
    case (Cons m ms)
    then show ?case by (cases m; cases ms) auto
  qed simp
  then show ?thesis by (simp add: json_object_def comp_def case_prod_beta)
qed

lemma digest_string_ok: "ValidDigest d \<Longrightarrow> string_ok d"
proof (rule string_ok_ascii)
  assume v: "ValidDigest d"
  then have d: "d = DigestPrefix @ drop (length DigestPrefix) d" by (auto simp: ValidDigest_def has_prefix_iff)
  have "(byte_of c :: nat) \<noteq> 0 \<and> (byte_of c :: nat) < 128" if "lower_hex c" for c using that by (auto simp: lower_hex_def)
  then show "list_all (\<lambda>c. (byte_of c :: nat) \<noteq> 0 \<and> (byte_of c :: nat) < 128) d"
    using v by (subst d) (auto simp: ValidDigest_def list_all_iff)
  show "length d \<le> maxStringBytes" using v by (simp add: ValidDigest_def maxStringBytes_def)
qed

lemma identifier_string_ok:
  assumes "safeIdentifier v 128" and "utf8_valid v"
  shows "string_ok v"
proof -
  have "(byte_of c :: nat) \<noteq> 0" if "c \<in> set v" for c
  proof
    assume "(byte_of c :: nat) = 0"
    then have "c = char_of (0 :: nat)" by (metis char_of_char)
    then have "c = CHR 0x00" by (simp add: char_of_def)
    then show False using assms(1) that by (auto simp: safeIdentifier_def contains_any_iff)
  qed
  then show ?thesis using assms by (auto simp: string_ok_def no_nul_def list_all_iff safeIdentifier_def maxStringBytes_def)
qed

lemma time_string_ok:
  assumes "time_valid t"
  shows "string_ok (time_text t)" and "length (time_text t) \<le> 64"
proof -
  have d: "list_all is_digit (trim_right_byte (CHR ''0'') (fixed_digits 9 n))" "length (trim_right_byte (CHR ''0'') (fixed_digits 9 n)) \<le> 9" for n
    using fixed_digits_ok [of 9 n] length_dropWhile_le [of _ "rev (fixed_digits 9 n)"] set_dropWhileD
    by (fastforce simp: trim_right_byte_def list_all_iff)+
  have l: "length (nano_text n) \<le> 10" "length (offset_text z) \<le> 6" for n z
    using d(2) by (auto simp: nano_text_def offset_text_def Let_def fixed_digits_ok(2))
  show b: "length (time_text t) \<le> 64"
    using l(1) [of "tm_nano t"] l(2) [of "tm_offset t"] by (simp add: time_text_def fixed_digits_ok(2))
  have n: "(byte_of c :: nat) \<noteq> 0 \<and> (byte_of c :: nat) < 128" if "is_digit c" for c using that by (auto simp: is_digit_def)
  have "list_all (\<lambda>c. (byte_of c :: nat) \<noteq> 0 \<and> (byte_of c :: nat) < 128) (time_text t)"
    using n d(1) fixed_digits_ok(1)
    by (simp add: time_text_def nano_text_def offset_text_def Let_def list_all_iff del: fixed_digits.simps) blast
  then show "string_ok (time_text t)" using b by (intro string_ok_ascii) (simp_all add: maxStringBytes_def)
qed

definition claim_fields :: "effect_claim \<Rightarrow> (string \<times> json_value) list" where
  "claim_fields c =
     [(''schemaVersion'', NumberValue version_one), (''effectKey'', StringValue (cl_EffectKey c)),
      (''requestDigest'', StringValue (cl_RequestDigest c)), (''operation'', StringValue (cl_Operation c)),
      (''runUID'', StringValue (cl_RunUID c)), (''createdAt'', StringValue (time_text (cl_CreatedAt c)))]"

definition optional_field :: "string \<Rightarrow> string \<Rightarrow> (string \<times> json_value) list" where
  "optional_field k s = (if s = [] then [] else [(k, StringValue s)])"

definition outcome_fields :: "effect_outcome \<Rightarrow> (string \<times> json_value) list" where
  "outcome_fields r =
     [(''schemaVersion'', NumberValue version_one), (''effectKey'', StringValue (oc_EffectKey r)),
      (''requestDigest'', StringValue (oc_RequestDigest r))] @ optional_field ''runUID'' (oc_RunUID r) @
     [(''state'', StringValue (state_text (oc_State r)))] @ optional_field ''resultDigest'' (oc_ResultDigest r) @
     optional_field ''resultRef'' (oc_ResultRef r) @ [(''recordedAt'', StringValue (time_text (oc_RecordedAt r)))]"

definition tombstone_fields :: "effect_tombstone \<Rightarrow> (string \<times> json_value) list" where
  "tombstone_fields t =
     [(''schemaVersion'', NumberValue version_one), (''effectKey'', StringValue (tb_EffectKey t)),
      (''requestDigest'', StringValue (tb_RequestDigest t)), (''operation'', StringValue (tb_Operation t)),
      (''runUID'', StringValue (tb_RunUID t)), (''state'', StringValue (state_text (tb_State t))),
      (''retiredAt'', StringValue (time_text (tb_RetiredAt t)))]"

lemma time_valid_encodes: "time_valid t \<Longrightarrow> time_encodes t"
  by (simp add: time_valid_def time_encodes_def)

lemma marshal_claim_text:
  assumes "cl_SchemaVersion c = LedgerSchema" and "time_valid (cl_CreatedAt c)"
  shows "marshal_claim c = Some (writeValue (ObjectValue (claim_fields c)))"
  unfolding json_object_text [symmetric] using assms time_valid_encodes by (simp add: marshal_claim_def claim_fields_def)

lemma marshal_outcome_text:
  assumes "oc_SchemaVersion r = LedgerSchema" and "time_valid (oc_RecordedAt r)"
  shows "marshal_outcome r = Some (writeValue (ObjectValue (outcome_fields r)))"
  unfolding json_object_text [symmetric] using assms time_valid_encodes
  by (simp add: marshal_outcome_def outcome_fields_def optional_field_def json_omit_def)

lemma marshal_tombstone_text:
  assumes "tb_SchemaVersion t = LedgerSchema" and "time_valid (tb_RetiredAt t)"
  shows "marshal_tombstone t = Some (writeValue (ObjectValue (tombstone_fields t)))"
  unfolding json_object_text [symmetric] using assms time_valid_encodes by (simp add: marshal_tombstone_def tombstone_fields_def)

section \<open>Decoding what was encoded\<close>

lemmas field_facts = record_names_kept record_names_ok version_one_ok maxObjectMembers_def maxDepth_def

lemma claim_flat:
  assumes "validClaim c" and "utf8_valid (cl_Operation c)" and "utf8_valid (cl_RunUID c)" and "time_valid (cl_CreatedAt c)"
  shows "flat_record (claim_fields c)"
  using assms digest_string_ok identifier_string_ok time_string_ok(1)
  by (simp add: flat_record_def fields_ok_def claim_fields_def field_facts validClaim_def)

lemma state_string_ok: "string_ok (state_text OutcomeSucceeded)" "string_ok (state_text OutcomeFailed)" "string_ok (state_text OutcomeUnknown)"
  by (simp_all add: string_ok_ascii maxStringBytes_def)

lemma outcome_flat:
  assumes "validOutcome r" and "string_ok (oc_RunUID r)" and "string_ok (oc_ResultRef r)" and "time_valid (oc_RecordedAt r)"
  shows "flat_record (outcome_fields r)"
  using assms digest_string_ok time_string_ok(1) state_string_ok
  by (auto simp add: flat_record_def fields_ok_def outcome_fields_def optional_field_def field_facts validOutcome_def split: outcome_state.splits)

lemma tombstone_flat:
  assumes "validTombstone t" and "utf8_valid (tb_Operation t)" and "utf8_valid (tb_RunUID t)" and "time_valid (tb_RetiredAt t)"
  shows "flat_record (tombstone_fields t)"
  using assms digest_string_ok identifier_string_ok time_string_ok(1) state_string_ok
  by (auto simp add: flat_record_def fields_ok_def tombstone_fields_def field_facts validTombstone_def)

lemma decodeStrict_flat:
  assumes "flat_record ms" and "length (writeValue (ObjectValue ms)) \<le> MaxLedgerBodyBytes" and "fst ` set ms \<subseteq> set names"
  shows "canonicalJSON (Some (writeValue (ObjectValue ms))) = Inr (writeValue (ObjectValue (object_of ms)))"
    and "decodeStrict names (writeValue (ObjectValue (object_of ms))) = Some (object_of ms)"
    and "map_of (object_of ms) = map_of ms"
proof -
  have l: "length (writeValue (ObjectValue ms)) \<le> MaxDocumentBytes" using assms(2) by (simp add: MaxLedgerBodyBytes_def MaxDocumentBytes_def)
  note c = flat_record_canonical [OF assms(1) l]
  show "canonicalJSON (Some (writeValue (ObjectValue ms))) = Inr (writeValue (ObjectValue (object_of ms)))" by (rule c(1))
  have "length (writeValue (ObjectValue (object_of ms))) \<le> MaxLedgerBodyBytes"
    using object_of_length [of ms] assms(1,2) by (simp add: flat_record_def)
  moreover have "list_all (\<lambda>(k, v). List.member names k) (object_of ms)"
    using assms(3) by (auto simp: list_all_iff object_of_def set_add_members)
  ultimately show "decodeStrict names (writeValue (ObjectValue (object_of ms))) = Some (object_of ms)"
    using c(2) by (simp add: decodeStrict_def ValidateObject_def del: writeValue.simps) simp
  show "map_of (object_of ms) = map_of ms"
    using assms(1) map_of_add_members [of ms "[]"] by (simp add: flat_record_def fields_ok_def object_of_def)
qed

lemma json_escape_bound: "length (json_escape bs) \<le> 6 * length bs"
proof (induction bs rule: json_escape.induct)
  case (1 bs)
  show ?case
  proof (cases "bs = []")
    case False
    obtain r w where d: "decode_rune bs = (r, w)" by fastforce
    have w: "1 \<le> w" using decode_rune_width [OF False] d by simp
    have "length (json_rune bs) \<le> 6 \<or> length (json_rune bs) \<le> min w (length bs)"
      using d by (auto simp: json_rune_def json_ascii_def hex_byte_def Let_def)
    moreover have "1 \<le> min w (length bs)" using w False by (cases bs) auto
    ultimately have "length (json_rune bs) \<le> 6 * min w (length bs)" by linarith
    then show ?thesis using "1.IH" [OF False] False d by (subst json_escape.simps) (simp add: min_def split: if_splits)
  qed (simp add: json_escape.simps)
qed

lemma json_string_bound: "length (json_string s) \<le> 6 * length s + 2"
  using json_escape_bound [of "map byte_of s"] by (simp add: json_string_def)

lemma string_field_size: "length (writeValue (StringValue s)) \<le> 6 * length s + 2"
  using json_string_bound by simp

lemma identifier_length: "safeIdentifier v n \<Longrightarrow> length v \<le> n"
  by (simp add: safeIdentifier_def)

lemma digest_length: "ValidDigest d \<Longrightarrow> length d \<le> 71"
  by (simp add: ValidDigest_def)

lemma object_size: "ms \<noteq> [] \<Longrightarrow> length (writeValue (ObjectValue ms)) = members_size ms + 1"
  using write_members_size [of ms] by simp

lemma members_size_Cons:
  "length k \<le> 32 \<Longrightarrow> length (writeValue v) \<le> 1024 \<Longrightarrow> members_size ms \<le> n \<Longrightarrow> members_size ((k, v) # ms) \<le> n + 1500"
  using json_string_bound [of k] by (simp add: members_size_def)

lemma short_text: "length s \<le> 128 \<Longrightarrow> length (writeValue (StringValue s)) \<le> 1024"
  using json_string_bound [of s] by simp

lemma claim_size:
  assumes "validClaim c" and "time_valid (cl_CreatedAt c)"
  shows "length (writeValue (ObjectValue (claim_fields c))) \<le> MaxLedgerBodyBytes"
proof -
  have "members_size (claim_fields c) \<le> 0 + 1500 + 1500 + 1500 + 1500 + 1500 + 1500"
    unfolding claim_fields_def
    using assms digest_length identifier_length [of _ 128] time_string_ok(2) [of "cl_CreatedAt c"]
    by (intro members_size_Cons short_text) (force simp: validClaim_def members_size_def)+
  then show ?thesis by (subst object_size) (simp_all add: claim_fields_def MaxLedgerBodyBytes_def)
qed

lemma tombstone_size:
  assumes "validTombstone t" and "time_valid (tb_RetiredAt t)"
  shows "length (writeValue (ObjectValue (tombstone_fields t))) \<le> MaxLedgerBodyBytes"
proof -
  have "members_size (tombstone_fields t) \<le> 0 + 1500 + 1500 + 1500 + 1500 + 1500 + 1500 + 1500"
    unfolding tombstone_fields_def
    using assms digest_length identifier_length [of _ 128] time_string_ok(2) [of "tb_RetiredAt t"]
    by (intro members_size_Cons short_text) (force simp: validTombstone_def members_size_def)+
  then show ?thesis by (subst object_size) (simp_all add: tombstone_fields_def MaxLedgerBodyBytes_def)
qed

lemma version_field: "map_of ms ''schemaVersion'' = Some (NumberValue version_one) \<Longrightarrow> int_field ms ''schemaVersion'' = Some LedgerSchema"
  by (simp add: int_field_def version_one_def digits_value_def digit_value_def)

lemma state_read: "to_state (state_text s) = s" if "case s of OtherOutcome _ \<Rightarrow> False | _ \<Rightarrow> True"
  using that by (cases s) (simp_all add: to_state_def)

lemma claim_of_fields:
  assumes "map_of ms = map_of (claim_fields c)" and "cl_SchemaVersion c = LedgerSchema" and "time_valid (cl_CreatedAt c)"
  shows "claim_of ms = Some c"
proof -
  have "int_field ms ''schemaVersion'' = Some LedgerSchema" "text_field ms ''effectKey'' = Some (cl_EffectKey c)"
    "text_field ms ''requestDigest'' = Some (cl_RequestDigest c)" "text_field ms ''operation'' = Some (cl_Operation c)"
    "text_field ms ''runUID'' = Some (cl_RunUID c)" "time_field ms ''createdAt'' = Some (cl_CreatedAt c)"
    using read_time_text [OF assms(3)]
    by (simp_all add: version_field text_field_def time_field_def assms(1) claim_fields_def)
  then show ?thesis using assms(2) by (simp add: claim_of_def)
qed

lemma outcome_of_fields:
  assumes "map_of ms = map_of (outcome_fields r)" and "oc_SchemaVersion r = LedgerSchema" and "time_valid (oc_RecordedAt r)"
    and "case oc_State r of OtherOutcome _ \<Rightarrow> False | _ \<Rightarrow> True"
  shows "outcome_of ms = Some r"
proof -
  have "int_field ms ''schemaVersion'' = Some LedgerSchema" "text_field ms ''effectKey'' = Some (oc_EffectKey r)"
    "text_field ms ''requestDigest'' = Some (oc_RequestDigest r)" "text_field ms ''runUID'' = Some (oc_RunUID r)"
    "text_field ms ''state'' = Some (state_text (oc_State r))" "text_field ms ''resultDigest'' = Some (oc_ResultDigest r)"
    "text_field ms ''resultRef'' = Some (oc_ResultRef r)" "time_field ms ''recordedAt'' = Some (oc_RecordedAt r)"
    using read_time_text [OF assms(3)]
    by (simp_all add: version_field text_field_def time_field_def assms(1) outcome_fields_def optional_field_def)
  then show ?thesis using assms(2) state_read [OF assms(4)] by (simp add: outcome_of_def)
qed

lemma tombstone_of_fields:
  assumes "map_of ms = map_of (tombstone_fields t)" and "tb_SchemaVersion t = LedgerSchema" and "time_valid (tb_RetiredAt t)"
    and "case tb_State t of OtherOutcome _ \<Rightarrow> False | _ \<Rightarrow> True"
  shows "tombstone_of ms = Some t"
proof -
  have "int_field ms ''schemaVersion'' = Some LedgerSchema" "text_field ms ''effectKey'' = Some (tb_EffectKey t)"
    "text_field ms ''requestDigest'' = Some (tb_RequestDigest t)" "text_field ms ''operation'' = Some (tb_Operation t)"
    "text_field ms ''runUID'' = Some (tb_RunUID t)" "text_field ms ''state'' = Some (state_text (tb_State t))"
    "time_field ms ''retiredAt'' = Some (tb_RetiredAt t)"
    using read_time_text [OF assms(3)]
    by (simp_all add: version_field text_field_def time_field_def assms(1) tombstone_fields_def)
  then show ?thesis using assms(2) state_read [OF assms(4)] by (simp add: tombstone_of_def)
qed

lemma claim_decoded:
  assumes "validClaim c" and "cl_SchemaVersion c = LedgerSchema" and "utf8_valid (cl_Operation c)" and "utf8_valid (cl_RunUID c)"
    and "time_valid (cl_CreatedAt c)" and "\<not> IsZero (cl_CreatedAt c)"
  shows "\<exists>body. canonicalJSON (marshal_claim c) = Inr body \<and> DecodeClaim body = Inr c"
proof -
  let ?body = "writeValue (ObjectValue (object_of (claim_fields c)))"
  have n: "fst ` set (claim_fields c) \<subseteq> set claim_names" by (simp add: claim_fields_def claim_names_def)
  note d = decodeStrict_flat [OF claim_flat [OF assms(1,3,4,5)] claim_size [OF assms(1,5)] n]
  have m: "canonicalJSON (marshal_claim c) = Inr ?body" using d(1) unfolding marshal_claim_text [OF assms(2,5)] .
  then have "DecodeClaim ?body = Inr c"
    using d(2) claim_of_fields [OF d(3) assms(2,5)] assms by (simp add: DecodeClaim_def del: writeValue.simps)
  then show ?thesis using m by blast
qed

lemma tombstone_decoded:
  assumes "validTombstone t" and "tb_SchemaVersion t = LedgerSchema" and "utf8_valid (tb_Operation t)" and "utf8_valid (tb_RunUID t)"
    and "time_valid (tb_RetiredAt t)"
  shows "\<exists>body. EncodeTombstone t = Inr body \<and> DecodeTombstone body = Inr t"
proof -
  let ?body = "writeValue (ObjectValue (object_of (tombstone_fields t)))"
  have s: "case tb_State t of OtherOutcome _ \<Rightarrow> False | _ \<Rightarrow> True" using assms(1) by (auto simp: validTombstone_def)
  have n: "fst ` set (tombstone_fields t) \<subseteq> set tombstone_names" by (simp add: tombstone_fields_def tombstone_names_def)
  note d = decodeStrict_flat [OF tombstone_flat [OF assms(1,3,4,5)] tombstone_size [OF assms(1,5)] n]
  have m: "canonicalJSON (marshal_tombstone t) = Inr ?body" using d(1) unfolding marshal_tombstone_text [OF assms(2,5)] .
  then have "DecodeTombstone ?body = Inr t"
    using d(2) tombstone_of_fields [OF d(3) assms(2,5) s] assms by (simp add: DecodeTombstone_def del: writeValue.simps)
  moreover have "EncodeTombstone t = Inr ?body" using m assms by (simp add: EncodeTombstone_def)
  ultimately show ?thesis by blast
qed

lemma canonicalJSON_small: "canonicalJSON (Some raw) = Inr body \<Longrightarrow> length raw \<le> MaxDocumentBytes"
  by (auto simp: canonicalJSON_def CanonicalizeResolvedSpec_def resolvedSpecJSON_def parse_def split: sum.splits if_splits)

lemma outcome_decoded:
  assumes "validOutcome r" and "oc_SchemaVersion r = LedgerSchema" and "string_ok (oc_RunUID r)" and "string_ok (oc_ResultRef r)"
    and "time_valid (oc_RecordedAt r)" and "\<not> IsZero (oc_RecordedAt r)" and "canonicalJSON (marshal_outcome r) = Inr body"
  shows "DecodeOutcome body = (if length body \<le> MaxLedgerBodyBytes then Inr r else Inl ErrCorrupt)"
proof -
  let ?ms = "outcome_fields r"
  have flat: "flat_record ?ms" by (rule outcome_flat [OF assms(1,3,4,5)])
  have s: "case oc_State r of OtherOutcome _ \<Rightarrow> False | _ \<Rightarrow> True" using assms(1) by (simp add: validOutcome_def)
  have n: "fst ` set ?ms \<subseteq> set outcome_names" by (simp add: outcome_fields_def outcome_names_def optional_field_def)
  have raw: "canonicalJSON (Some (writeValue (ObjectValue ?ms))) = Inr body" using assms(7) unfolding marshal_outcome_text [OF assms(2,5)] .
  have "body = writeValue (ObjectValue (object_of ?ms))"
    using flat_record_canonical(1) [OF flat canonicalJSON_small [OF raw]] raw by simp
  moreover have l: "length body = length (writeValue (ObjectValue ?ms))"
    using calculation object_of_length [of ?ms] flat by (simp add: flat_record_def)
  moreover have "DecodeOutcome body = Inr r" if "length (writeValue (ObjectValue ?ms)) \<le> MaxLedgerBodyBytes"
    using decodeStrict_flat [OF flat that n] outcome_of_fields [OF _ assms(2,5) s] calculation assms
    by (simp add: DecodeOutcome_def del: writeValue.simps)
  moreover have "DecodeOutcome body = Inl ErrCorrupt" if "MaxLedgerBodyBytes < length body"
    using that by (simp add: DecodeOutcome_def decodeStrict_def)
  ultimately show ?thesis by auto
qed

section \<open>A sample record\<close>

definition sample_digest :: "char \<Rightarrow> string" where
  "sample_digest c = DigestPrefix @ replicate 64 c"

definition sample_time :: go_time where
  "sample_time = \<lparr>tm_year = 2026, tm_month = 3, tm_day = 14, tm_hour = 15, tm_minute = 9, tm_second = 26, tm_nano = 535000000, tm_offset = 0\<rparr>"

definition sample_claim :: effect_claim where
  "sample_claim = \<lparr>cl_SchemaVersion = LedgerSchema, cl_EffectKey = sample_digest (CHR ''a''), cl_RequestDigest = sample_digest (CHR ''b''),
     cl_Operation = ''push'', cl_RunUID = ''run'', cl_CreatedAt = sample_time\<rparr>"

definition sample_outcome :: "string \<Rightarrow> effect_outcome" where
  "sample_outcome ref = \<lparr>oc_SchemaVersion = LedgerSchema, oc_EffectKey = sample_digest (CHR ''a''), oc_RequestDigest = sample_digest (CHR ''b''),
     oc_RunUID = ''run'', oc_State = OutcomeSucceeded, oc_ResultDigest = [], oc_ResultRef = ref, oc_RecordedAt = sample_time\<rparr>"

definition sample_tombstone :: effect_tombstone where
  "sample_tombstone = \<lparr>tb_SchemaVersion = LedgerSchema, tb_EffectKey = sample_digest (CHR ''a''), tb_RequestDigest = sample_digest (CHR ''b''),
     tb_Operation = ''push'', tb_RunUID = ''run'', tb_State = OutcomeSucceeded, tb_RetiredAt = sample_time\<rparr>"

lemma sample_records_ok:
  "ValidDigest (sample_digest (CHR ''a''))" "ValidDigest (sample_digest (CHR ''b''))"
  "time_valid sample_time" "\<not> IsZero sample_time" "validClaim sample_claim" "validTombstone sample_tombstone" "validOutcome (sample_outcome ref)"
  "utf8_valid ''push''" "utf8_valid ''run''" "string_ok ''run''"
proof -
  show d: "ValidDigest (sample_digest (CHR ''a''))" "ValidDigest (sample_digest (CHR ''b''))"
    by (auto simp: ValidDigest_def sample_digest_def has_prefix_iff list_all_iff lower_hex_def)
  show t: "time_valid sample_time" "\<not> IsZero sample_time"
    by (simp_all add: sample_time_def time_valid_def days_in_month_def IsZero_def instant_def instant_seconds_def days_before_year_def)
  have i: "safeIdentifier ''push'' 128" "safeIdentifier ''run'' 128" by (simp_all add: safeIdentifier_def contains_any_def)
  show "validClaim sample_claim" "validTombstone sample_tombstone" "validOutcome (sample_outcome ref)"
    using d i t by (simp_all add: validClaim_def sample_claim_def validTombstone_def sample_tombstone_def validOutcome_def sample_outcome_def)
  show "utf8_valid ''push''" "utf8_valid ''run''" "string_ok ''run''"
    by (simp_all add: ascii_valid string_ok_ascii maxStringBytes_def)
qed

lemma members_size_append: "members_size (xs @ ys) = members_size xs + members_size ys"
  by (simp add: members_size_def)

lemma optional_field_size: "length k \<le> 32 \<Longrightarrow> length s \<le> 128 \<Longrightarrow> members_size (optional_field k s) \<le> 1500"
  using members_size_Cons [of k "StringValue s" "[]" 0] short_text [of s] by (auto simp: optional_field_def members_size_def)

lemma json_string_longer:
  assumes "utf8_valid s"
  shows "length s \<le> length (json_string s)"
proof -
  obtain ps where ps: "list_all rune_bytes ps" "map byte_of s = concat ps" using assms utf8_pieces by (auto simp: utf8_valid_def)
  have one: "length p \<le> length (json_rune p)" if p: "rune_bytes p" for p
  proof -
    have "length p \<le> 4" using p by (auto elim!: rune_bytes_cases)
    moreover have "snd (decode_rune p) = length p" "fst (decode_rune p) < 128 \<longleftrightarrow> length p = 1"
      using decode_rune_piece [OF p] by auto
    ultimately show ?thesis by (auto simp: json_rune_def json_ascii_def case_prod_beta)
  qed
  have "length (concat ps) \<le> length (concat (map json_rune ps))" using ps(1) one by (induction ps) (auto simp: add_mono)
  then have "length (map byte_of s :: nat list) \<le> length (json_escape (map byte_of s))"
    unfolding ps(2) json_escape_pieces [OF ps(1)] .
  then show ?thesis by (simp add: json_string_def)
qed

lemma outcome_encodes:
  assumes "validOutcome r" and "oc_SchemaVersion r = LedgerSchema" and "string_ok (oc_RunUID r)" and "string_ok (oc_ResultRef r)"
    and "time_valid (oc_RecordedAt r)" and "length (oc_RunUID r) \<le> 128"
  shows "\<exists>body. canonicalJSON (marshal_outcome r) = Inr body \<and> (oc_ResultRef r \<noteq> [] \<longrightarrow> length (oc_ResultRef r) < length body) \<and>
    length body \<le> 6 * length (oc_ResultRef r) + 12000"
proof -
  let ?ms = "outcome_fields r" and ?ref = "members_size (optional_field ''resultRef'' (oc_ResultRef r))"
  have flat: "flat_record ?ms" by (rule outcome_flat [OF assms(1,3,4,5)])
  have b: "length (oc_ResultRef r) \<le> 65536" using assms(4) by (simp add: string_ok_def maxStringBytes_def)
  have ref: "?ref \<le> 6 * length (oc_ResultRef r) + 100"
    using json_string_bound [of "oc_ResultRef r"] json_string_bound [of "''resultRef''"] by (simp add: optional_field_def members_size_def)
  have d: "length (oc_ResultDigest r) \<le> 128" "length (oc_EffectKey r) \<le> 128" "length (oc_RequestDigest r) \<le> 128"
    "length (state_text (oc_State r)) \<le> 128"
    using assms(1) digest_length by (auto simp: validOutcome_def split: outcome_state.splits dest!: digest_length)
  have short: "members_size [(k, StringValue s)] \<le> 1500" if "length k \<le> 32" "length s \<le> 128" for k s
    using members_size_Cons [OF that(1) short_text [OF that(2)], of "[]" 0] by (simp add: members_size_def)
  have v: "members_size [(''schemaVersion'', NumberValue version_one)] \<le> 1500"
    using members_size_Cons [of "''schemaVersion''" "NumberValue version_one" "[]" 0] by (simp add: members_size_def)
  have parts: "members_size ?ms = members_size [(''schemaVersion'', NumberValue version_one)] + members_size [(''effectKey'', StringValue (oc_EffectKey r))] +
    members_size [(''requestDigest'', StringValue (oc_RequestDigest r))] + members_size (optional_field ''runUID'' (oc_RunUID r)) +
    members_size [(''state'', StringValue (state_text (oc_State r)))] + members_size (optional_field ''resultDigest'' (oc_ResultDigest r)) + ?ref +
    members_size [(''recordedAt'', StringValue (time_text (oc_RecordedAt r)))]"
    unfolding outcome_fields_def by (simp only: members_size_append) (simp add: members_size_def)
  have size: "members_size ?ms \<le> 1500 + 1500 + 1500 + 1500 + 1500 + 1500 + (6 * length (oc_ResultRef r) + 100) + 1500"
    unfolding parts using ref v d assms(6) time_string_ok(2) [OF assms(5)] by (intro add_mono optional_field_size short) simp_all
  have l: "length (writeValue (ObjectValue ?ms)) = members_size ?ms + 1" by (rule object_size) (simp add: outcome_fields_def)
  then have m: "length (writeValue (ObjectValue ?ms)) \<le> MaxDocumentBytes" using size b unfolding MaxDocumentBytes_def by linarith
  have "length (oc_ResultRef r) < ?ref" if "oc_ResultRef r \<noteq> []"
    using json_string_longer [of "oc_ResultRef r"] assms(4) that by (simp add: string_ok_def optional_field_def members_size_def)
  then have "(oc_ResultRef r \<noteq> [] \<longrightarrow> length (oc_ResultRef r) < length (writeValue (ObjectValue (object_of ?ms)))) \<and>
      length (writeValue (ObjectValue (object_of ?ms))) \<le> 6 * length (oc_ResultRef r) + 12000"
    using l size parts object_of_length [of ?ms] by (auto simp: outcome_fields_def simp del: writeValue.simps)
  then show ?thesis using flat_record_canonical(1) [OF flat m] unfolding marshal_outcome_text [OF assms(2,5)] by blast
qed

text \<open>Whatever is decoded has texts the JSON contract allows.\<close>

lemma parsed_text_ok:
  assumes "decodeStrict names body = Some ms" and "text_field ms name = Some t"
  shows "string_ok t"
proof -
  have "value_ok 0 (ObjectValue ms)"
    using assms(1) by (auto simp: decodeStrict_def split: if_splits sum.splits json_value.splits dest: parsed_ok)
  then have ok: "\<forall>(k, v)\<in>set ms. value_ok 1 v" by (auto simp: list_all_iff)
  show ?thesis
  proof (cases "map_of ms name")
    case None
    then show ?thesis using assms(2) by (simp add: text_field_def string_ok_ascii)
  next
    case (Some v)
    then have "value_ok 1 v" using ok map_of_SomeD by fast
    then show ?thesis using assms(2) Some by (cases v) (auto simp: text_field_def string_ok_ascii)
  qed
qed

lemma decoded_outcome_ok:
  assumes "DecodeOutcome body = Inr r"
  shows "length body \<le> MaxLedgerBodyBytes \<and> string_ok (oc_RunUID r) \<and> string_ok (oc_ResultRef r)"
proof -
  obtain ms where ms: "decodeStrict outcome_names body = Some ms" "outcome_of ms = Some r"
    using assms by (auto simp: DecodeOutcome_def Option.bind_eq_Some_conv split: option.splits if_splits)
  have "text_field ms ''runUID'' = Some (oc_RunUID r)" "text_field ms ''resultRef'' = Some (oc_ResultRef r)"
    using ms(2) by (auto simp: outcome_of_def split: option.splits)
  moreover have "length body \<le> MaxLedgerBodyBytes" using ms(1) by (auto simp: decodeStrict_def split: if_splits)
  ultimately show ?thesis using parsed_text_ok [OF ms(1)] by blast
qed

lemma oversized_body: "MaxLedgerBodyBytes < length body \<Longrightarrow> DecodeOutcome body = Inl ErrCorrupt"
  by (simp add: DecodeOutcome_def decodeStrict_def)

section \<open>Properties\<close>

text \<open>
  C7. The encoded body of any valid outcome, whatever bytes its texts have, reads back as that outcome exactly when
  it is within \<^verbatim>\<open>MaxLedgerBodyBytes\<close> and its run UID and result reference are texts the JSON contract
  allows: UTF-8 without NUL and not too long. A longer body is refused as corrupt.
\<close>

theorem outcome_body_readable:
  assumes "validOutcome r" and "oc_SchemaVersion r = LedgerSchema" and "time_valid (oc_RecordedAt r)"
    and "\<not> IsZero (oc_RecordedAt r)" and "canonicalJSON (marshal_outcome r) = Inr body"
  shows "(DecodeOutcome body = Inr r \<longleftrightarrow>
      length body \<le> MaxLedgerBodyBytes \<and> string_ok (oc_RunUID r) \<and> string_ok (oc_ResultRef r)) \<and>
    (MaxLedgerBodyBytes < length body \<longrightarrow> DecodeOutcome body = Inl ErrCorrupt)"
  using outcome_decoded [OF assms(1,2) _ _ assms(3-5)] decoded_outcome_ok [of body r] oversized_body [of body] by auto

theorem outcome_body_readable_witness:
  "\<exists>body. canonicalJSON (marshal_outcome (sample_outcome ''ref'')) = Inr body \<and> DecodeOutcome body = Inr (sample_outcome ''ref'')"
proof -
  let ?r = "sample_outcome ''ref''"
  have r: "oc_SchemaVersion ?r = LedgerSchema" "string_ok (oc_RunUID ?r)" "string_ok (oc_ResultRef ?r)" "time_valid (oc_RecordedAt ?r)"
    "\<not> IsZero (oc_RecordedAt ?r)" "length (oc_RunUID ?r) \<le> 128" "length (oc_ResultRef ?r) = 3"
    using sample_records_ok by (simp_all add: sample_outcome_def string_ok_ascii maxStringBytes_def)
  obtain body where b: "canonicalJSON (marshal_outcome ?r) = Inr body" "length body \<le> MaxLedgerBodyBytes"
    using outcome_encodes [OF sample_records_ok(7) r(1-4,6)] r(7) by (auto simp: MaxLedgerBodyBytes_def)
  then show ?thesis using outcome_body_readable [OF sample_records_ok(7) r(1,4,5) b(1)] r(2,3) by blast
qed

text \<open>
  \<^verbatim>\<open>Commit\<close> bounds neither the result reference nor the body: there is a valid outcome that encodes, so
  that \<^verbatim>\<open>Commit\<close> stores it, and that no reader accepts.
\<close>

theorem oversized_outcome_unreadable:
  "\<exists>r body. validOutcome r \<and> canonicalJSON (marshal_outcome r) = Inr body \<and> DecodeOutcome body = Inl ErrCorrupt"
proof -
  define r where "r = sample_outcome (replicate 65536 (CHR ''a''))"
  have r: "oc_SchemaVersion r = LedgerSchema" "string_ok (oc_RunUID r)" "string_ok (oc_ResultRef r)" "time_valid (oc_RecordedAt r)"
    "length (oc_RunUID r) \<le> 128" "length (oc_ResultRef r) = 65536"
    using sample_records_ok by (simp_all add: r_def sample_outcome_def string_ok_ascii maxStringBytes_def list_all_iff)
  have v: "validOutcome r" using sample_records_ok(7) by (simp add: r_def)
  obtain body where b: "canonicalJSON (marshal_outcome r) = Inr body" "65536 < length body"
    using outcome_encodes [OF v r(1-5)] r(6) by force
  then have "DecodeOutcome body = Inl ErrCorrupt" by (simp add: DecodeOutcome_def decodeStrict_def MaxLedgerBodyBytes_def)
  then show ?thesis using v b(1) by blast
qed

end
