(* ===== verification/Retention_Policy.thy ===== *)
theory Retention_Policy
  imports Effect_Ledger Agent_Run_FSM Go_Sort
begin

text \<open>
  The vocabulary of retention, from \<^verbatim>\<open>v3/internal/retention/retention.go\<close>: policies, the inventory of
  runs, resources and objects, actions and plans, and the checks that decide whether something may be
  deleted. A nil time is the zero time; a deadline is the instant it denotes, since it is only compared.
  Whether a name is a DNS subdomain is answered by a library of Kubernetes and is the argument \<open>dns\<close>.
\<close>

section \<open>Errors, reasons and policies\<close>

datatype retention_error =
    ErrInvalidPolicy | ErrInvalidNow | ErrInvalidRun | ErrActionLimit | ErrAmbiguousOwnership | ErrMissingOwnership
  | ErrInvalidObjectKey | ErrObjectPrefixMismatch | ErrLedgerInventory
  | ErrInvalidApplierConfig | ErrUnsupportedAction string | ErrObjectNotFound | ErrFenceConflict | PairStoreError

text \<open>The reasons for leaving something alone are strings, which plans sort by.\<close>

abbreviation SkipInvalidRun :: string where "SkipInvalidRun \<equiv> ''invalid-run''"
abbreviation SkipDuplicateRun :: string where "SkipDuplicateRun \<equiv> ''duplicate-run-uid''"
abbreviation SkipRunNotFound :: string where "SkipRunNotFound \<equiv> ''run-not-found''"
abbreviation SkipActiveRun :: string where "SkipActiveRun \<equiv> ''active-run''"
abbreviation SkipUnknownEffect :: string where "SkipUnknownEffect \<equiv> ''unknown-effect''"
abbreviation SkipMissingCompletion :: string where "SkipMissingCompletion \<equiv> ''missing-completion-time''"
abbreviation SkipFutureCompletion :: string where "SkipFutureCompletion \<equiv> ''completion-time-in-future''"
abbreviation SkipRetentionWindow :: string where "SkipRetentionWindow \<equiv> ''retention-window''"
abbreviation SkipDeletingResource :: string where "SkipDeletingResource \<equiv> ''resource-already-deleting''"
abbreviation SkipUnsupportedResource :: string where "SkipUnsupportedResource \<equiv> ''unsupported-resource-kind''"
abbreviation SkipMissingRunLabel :: string where "SkipMissingRunLabel \<equiv> ''missing-run-label''"
abbreviation SkipRunLabelMismatch :: string where "SkipRunLabelMismatch \<equiv> ''run-label-mismatch''"
abbreviation SkipRoleLabelMismatch :: string where "SkipRoleLabelMismatch \<equiv> ''role-label-mismatch''"
abbreviation SkipManagedByMismatch :: string where "SkipManagedByMismatch \<equiv> ''managed-by-label-mismatch''"
abbreviation SkipOwnerMismatch :: string where "SkipOwnerMismatch \<equiv> ''owner-mismatch''"
abbreviation SkipOwnerAmbiguous :: string where "SkipOwnerAmbiguous \<equiv> ''ambiguous-owner''"
abbreviation SkipWorkSandboxMissing :: string where "SkipWorkSandboxMissing \<equiv> ''work-sandbox-reference-missing''"
abbreviation SkipArtifactRunMismatch :: string where "SkipArtifactRunMismatch \<equiv> ''artifact-run-mismatch''"
abbreviation SkipArtifactKeyMismatch :: string where "SkipArtifactKeyMismatch \<equiv> ''artifact-prefix-mismatch''"
abbreviation SkipArtifactKeyInvalid :: string where "SkipArtifactKeyInvalid \<equiv> ''artifact-key-invalid''"
abbreviation SkipArtifactCreatedMissing :: string where "SkipArtifactCreatedMissing \<equiv> ''artifact-created-at-missing''"
abbreviation SkipArtifactCreatedFuture :: string where "SkipArtifactCreatedFuture \<equiv> ''artifact-created-at-in-future''"
abbreviation SkipArtifactYoung :: string where "SkipArtifactYoung \<equiv> ''artifact-retention-window''"
abbreviation SkipDuplicateResource :: string where "SkipDuplicateResource \<equiv> ''duplicate-resource''"
abbreviation SkipDuplicateArtifact :: string where "SkipDuplicateArtifact \<equiv> ''duplicate-artifact-key''"
abbreviation SkipInvalidResource :: string where "SkipInvalidResource \<equiv> ''invalid-resource''"
abbreviation SkipSpecDigestMissing :: string where "SkipSpecDigestMissing \<equiv> ''missing-spec-digest''"
abbreviation SkipSpecDigestMismatch :: string where "SkipSpecDigestMismatch \<equiv> ''spec-digest-mismatch''"
abbreviation SkipEvidenceNotFlushed :: string where "SkipEvidenceNotFlushed \<equiv> ''evidence-not-flushed''"
abbreviation SkipEvidenceMissing :: string where "SkipEvidenceMissing \<equiv> ''evidence-object-missing''"
abbreviation SkipLedgerNotFlushed :: string where "SkipLedgerNotFlushed \<equiv> ''ledger-not-flushed''"
abbreviation SkipArtifactETagMissing :: string where "SkipArtifactETagMissing \<equiv> ''artifact-etag-missing''"
abbreviation SkipLedgerIncomplete :: string where "SkipLedgerIncomplete \<equiv> ''ledger-incomplete''"
abbreviation SkipLedgerUnknown :: string where "SkipLedgerUnknown \<equiv> ''ledger-unknown''"
abbreviation SkipLedgerIdentityMismatch :: string where "SkipLedgerIdentityMismatch \<equiv> ''ledger-identity-mismatch''"
abbreviation SkipLedgerYoung :: string where "SkipLedgerYoung \<equiv> ''ledger-retention-window''"
abbreviation SkipLedgerArtifacts :: string where "SkipLedgerArtifacts \<equiv> ''ledger-artifacts-retained''"
abbreviation SkipLedgerWorkspace :: string where "SkipLedgerWorkspace \<equiv> ''ledger-workspace-retained''"
abbreviation SkipLedgerETagMissing :: string where "SkipLedgerETagMissing \<equiv> ''ledger-etag-missing''"
abbreviation SkipLedgerTombstone :: string where "SkipLedgerTombstone \<equiv> ''ledger-tombstone-mismatch''"

abbreviation RunUIDLabelKey :: string where "RunUIDLabelKey \<equiv> ''agents.astatide.com/run-uid''"
abbreviation RoleLabelKey :: string where "RoleLabelKey \<equiv> ''agents.astatide.com/role''"
abbreviation ManagedByLabelKey :: string where "ManagedByLabelKey \<equiv> ''agents.astatide.com/managed-by''"
abbreviation RunSecretManagedBy :: string where "RunSecretManagedBy \<equiv> ''agw-run-secret''"
abbreviation WorkRole :: string where "WorkRole \<equiv> ''work''"
abbreviation AgentRunAPIVersion :: string where "AgentRunAPIVersion \<equiv> ''agents.astatide.com/v1alpha1''"
abbreviation AgentRunKind :: string where "AgentRunKind \<equiv> ''AgentRun''"
abbreviation SandboxAPIVersion :: string where "SandboxAPIVersion \<equiv> ''agents.x-k8s.io/v1beta1''"
abbreviation SandboxKind :: string where "SandboxKind \<equiv> ''Sandbox''"
abbreviation JobKind :: string where "JobKind \<equiv> ''Job''"
abbreviation CoreAPIVersion :: string where "CoreAPIVersion \<equiv> ''v1''"
abbreviation SecretKind :: string where "SecretKind \<equiv> ''Secret''"
abbreviation PersistentVolumeKind :: string where "PersistentVolumeKind \<equiv> ''PersistentVolumeClaim''"
abbreviation ObjectStoreKind :: string where "ObjectStoreKind \<equiv> ''ObjectStore''"
abbreviation SpecDigestAnnotation :: string where "SpecDigestAnnotation \<equiv> ''agents.astatide.com/spec-digest''"

section \<open>Object keys\<close>

text \<open>\<^verbatim>\<open>path.Clean(key) = key\<close> for a key that does not start with a slash.\<close>

definition path_clean :: "string \<Rightarrow> bool" where
  "path_clean key \<longleftrightarrow> key = ''.'' \<or>
     (let ss = split_on (CHR ''/'') key
      in list_all (\<lambda>s. s \<noteq> [] \<and> s \<noteq> ''.'') ss \<and> list_all (\<lambda>s. s \<noteq> ''..'') (dropWhile (\<lambda>s. s = ''..'') ss))"

definition validateObjectKey :: "string \<Rightarrow> bool \<Rightarrow> bool" where
  "validateObjectKey key allowEmpty =
     (if key = [] \<and> allowEmpty then True
      else if key = [] \<or> length key > 1024 \<or> \<not> utf8_valid key \<or> has_prefix key ''/'' \<or> has_suffix key ''/'' \<or>
        contains_sub key ''//'' \<or> \<not> path_clean key then False
      else list_all (\<lambda>s. s \<noteq> [] \<and> s \<noteq> ''.'' \<and> s \<noteq> ''..'' \<and> list_all segment_byte s) (split_on (CHR ''/'') key))"

definition runPrefix :: "string \<Rightarrow> string \<Rightarrow> string" where
  "runPrefix objectPrefix runUID =
     (if objectPrefix = [] then ''runs/'' @ runUID @ ''/'' else objectPrefix @ ''/runs/'' @ runUID @ ''/'')"

definition validateArtifactKey :: "string \<Rightarrow> string \<Rightarrow> string \<Rightarrow> retention_error option" where
  "validateArtifactKey objectPrefix runUID key =
     (if \<not> validateObjectKey key False then Some ErrInvalidObjectKey
      else let want = runPrefix objectPrefix runUID
           in if \<not> has_prefix key want \<or> trim_prefix key want = [] then Some ErrObjectPrefixMismatch else None)"

definition validUID :: "string \<Rightarrow> bool" where
  "validUID v \<longleftrightarrow> v \<noteq> [] \<and> length v \<le> 128 \<and> utf8_valid v \<and> list_all segment_byte v"

section \<open>Policies\<close>

record retention_policy =
  rp_ArtifactRetentionDays :: int
  rp_WorktreeRetentionDays :: int
  rp_LedgerRetentionDays :: int
  rp_ObjectPrefix :: string
  rp_LedgerPrefix :: string
  rp_MaxActionsPerPlan :: int
  rp_DryRun :: bool

abbreviation DefaultLedgerRetentionDays :: int where "DefaultLedgerRetentionDays \<equiv> 30"
abbreviation DefaultMaxActionsPerPlan :: int where "DefaultMaxActionsPerPlan \<equiv> 256"
abbreviation MaxRetentionActions :: int where "MaxRetentionActions \<equiv> 100000"
abbreviation MaxRetentionDays :: int where "MaxRetentionDays \<equiv> 3650"

definition DefaultPolicy :: retention_policy where
  "DefaultPolicy =
     \<lparr>rp_ArtifactRetentionDays = 14, rp_WorktreeRetentionDays = 7, rp_LedgerRetentionDays = DefaultLedgerRetentionDays,
      rp_ObjectPrefix = ''agents-gateway/v3'', rp_LedgerPrefix = ''publish-effects'',
      rp_MaxActionsPerPlan = DefaultMaxActionsPerPlan, rp_DryRun = True\<rparr>"

text \<open>\<^verbatim>\<open>Policy.normalized\<close>.\<close>

definition normalized_policy :: "retention_policy \<Rightarrow> retention_error + retention_policy" where
  "normalized_policy p =
     (if rp_ArtifactRetentionDays p \<le> 0 \<or> rp_ArtifactRetentionDays p > MaxRetentionDays \<or>
         rp_WorktreeRetentionDays p \<le> 0 \<or> rp_WorktreeRetentionDays p > MaxRetentionDays then Inl ErrInvalidPolicy
      else if rp_LedgerRetentionDays p < DefaultLedgerRetentionDays \<or> rp_LedgerRetentionDays p > MaxRetentionDays then Inl ErrInvalidPolicy
      else let p = (if rp_MaxActionsPerPlan p = 0 then p\<lparr>rp_MaxActionsPerPlan := DefaultMaxActionsPerPlan\<rparr> else p)
           in if rp_MaxActionsPerPlan p < 1 \<or> rp_MaxActionsPerPlan p > MaxRetentionActions then Inl ErrInvalidPolicy
              else if \<not> validateObjectKey (rp_ObjectPrefix p) True then Inl ErrInvalidPolicy
              else if \<not> validateObjectKey (rp_LedgerPrefix p) False then Inl ErrInvalidPolicy
              else Inr p)"

text \<open>A duration in nanoseconds.\<close>

definition days :: "int \<Rightarrow> int" where
  "days v = v * 24 * 3600 * 1000000000"

section \<open>The inventory\<close>

record run_child =
  ch_Kind :: string
  ch_Name :: string
  ch_UID :: string
  ch_Role :: string
  ch_SpecDigest :: string

record retention_run =
  rr_Namespace :: string
  rr_Name :: string
  rr_UID :: string
  rr_SpecDigest :: string
  rr_BaseSHA :: string
  rr_PatchDigest :: string
  rr_Phase :: phase
  rr_CompletedAt :: go_time
  rr_Children :: "run_child list"
  rr_EvidenceFlushed :: bool
  rr_RequiredObjectKeys :: "string list"
  rr_LedgerFlushed :: bool
  rr_EffectKey :: string

record owner_reference =
  ow_APIVersion :: string
  ow_Kind :: string
  ow_Name :: string
  ow_UID :: string
  ow_Controller :: "bool option"
  ow_BlockOwnerDeletion :: "bool option"

record cluster_resource =
  rs_Kind :: string
  rs_Namespace :: string
  rs_Name :: string
  rs_UID :: string
  rs_SpecDigest :: string
  rs_Labels :: "(string \<times> string) list"
  rs_Annotations :: "(string \<times> string) list"
  rs_OwnerReferences :: "owner_reference list"
  rs_Deleting :: bool

record stored_artifact =
  af_RunUID :: string
  af_Key :: string
  af_ETag :: string
  af_Digest :: string
  af_Kind :: string
  af_CreatedAt :: go_time
  af_SizeBytes :: int

record ledger_object =
  lo_Key :: string
  lo_ETag :: string
  lo_Body :: string
  lo_SizeBytes :: int

record inventory =
  iv_Runs :: "retention_run list"
  iv_Resources :: "cluster_resource list"
  iv_Artifacts :: "stored_artifact list"
  iv_Ledger :: "ledger_object list"

text \<open>Reading a Go map of strings: the empty string where there is no entry.\<close>

definition map_get :: "(string \<times> string) list \<Rightarrow> string \<Rightarrow> string" where
  "map_get m k = (case map_of m k of None \<Rightarrow> [] | Some v \<Rightarrow> v)"

section \<open>Plans\<close>

abbreviation ActionWouldDelete :: string where "ActionWouldDelete \<equiv> ''would-delete''"
abbreviation ActionDelete :: string where "ActionDelete \<equiv> ''delete''"

record action_target =
  at_APIVersion :: string
  at_Kind :: string
  at_Namespace :: string
  at_Name :: string
  at_UID :: string
  at_ObjectKey :: string
  at_ETag :: string

record retention_action =
  ra_Mode :: string
  ra_RunUID :: string
  ra_Role :: string
  ra_PairKey :: string
  ra_Reason :: string
  ra_Target :: action_target

record retention_skip =
  sk_RunUID :: string
  sk_Kind :: string
  sk_Namespace :: string
  sk_Name :: string
  sk_UID :: string
  sk_ObjectKey :: string
  sk_Reason :: string

record ledger_pair_plan =
  lp_EffectKey :: string
  lp_RunUID :: string
  lp_Claim :: effect_claim
  lp_Outcome :: effect_outcome
  lp_ClaimKey :: string
  lp_OutcomeKey :: string
  lp_ClaimETag :: string
  lp_OutcomeETag :: string
  lp_Tombstone :: effect_tombstone
  lp_TombstoneKey :: string
  lp_TombstoneBody :: string
  lp_TombstoneExists :: bool

record retention_plan =
  pl_DryRun :: bool
  pl_ArtifactCutoff :: int
  pl_WorktreeCutoff :: int
  pl_LedgerCutoff :: int
  pl_Actions :: "retention_action list"
  pl_LedgerPairs :: "ledger_pair_plan list"
  pl_Skipped :: "retention_skip list"

abbreviation object_target :: "string \<Rightarrow> string \<Rightarrow> action_target" where
  "object_target key etag \<equiv> \<lparr>at_APIVersion = [], at_Kind = ObjectStoreKind, at_Namespace = [], at_Name = [], at_UID = [],
     at_ObjectKey = key, at_ETag = etag\<rparr>"

abbreviation resource_target :: "string \<Rightarrow> cluster_resource \<Rightarrow> action_target" where
  "resource_target kind r \<equiv> \<lparr>at_APIVersion = CoreAPIVersion, at_Kind = kind, at_Namespace = rs_Namespace r, at_Name = rs_Name r,
     at_UID = rs_UID r, at_ObjectKey = [], at_ETag = []\<rparr>"

definition actionMode :: "retention_plan \<Rightarrow> string" where
  "actionMode plan = (if pl_DryRun plan then ActionWouldDelete else ActionDelete)"

definition skipResource :: "cluster_resource \<Rightarrow> string \<Rightarrow> string \<Rightarrow> retention_plan \<Rightarrow> retention_plan" where
  "skipResource r runUID why plan = plan\<lparr>pl_Skipped := pl_Skipped plan @
     [\<lparr>sk_RunUID = runUID, sk_Kind = rs_Kind r, sk_Namespace = rs_Namespace r, sk_Name = rs_Name r, sk_UID = rs_UID r,
       sk_ObjectKey = [], sk_Reason = why\<rparr>]\<rparr>"

definition skipArtifact :: "stored_artifact \<Rightarrow> string \<Rightarrow> retention_plan \<Rightarrow> retention_plan" where
  "skipArtifact a why plan = plan\<lparr>pl_Skipped := pl_Skipped plan @
     [\<lparr>sk_RunUID = af_RunUID a, sk_Kind = [], sk_Namespace = [], sk_Name = [], sk_UID = [], sk_ObjectKey = af_Key a, sk_Reason = why\<rparr>]\<rparr>"

definition add_action :: "retention_action \<Rightarrow> retention_plan \<Rightarrow> retention_plan" where
  "add_action a plan = plan\<lparr>pl_Actions := pl_Actions plan @ [a]\<rparr>"

section \<open>Eligibility\<close>

definition validateRunIdentity :: "(string \<Rightarrow> bool) \<Rightarrow> retention_run \<Rightarrow> bool" where
  "validateRunIdentity dns run \<longleftrightarrow>
     dns (rr_Namespace run) \<and> dns (rr_Name run) \<and> validUID (rr_UID run) \<and> ValidDigest (rr_SpecDigest run) \<and>
     (rr_Phase run = OtherPhase [] \<or> IsKnownPhase (rr_Phase run))"

definition validateResourceIdentity :: "(string \<Rightarrow> bool) \<Rightarrow> cluster_resource \<Rightarrow> bool" where
  "validateResourceIdentity dns r \<longleftrightarrow>
     rs_Namespace r \<noteq> [] \<and> dns (rs_Namespace r) \<and> rs_Name r \<noteq> [] \<and> dns (rs_Name r) \<and> validUID (rs_UID r)"

text \<open>The answers of the eligibility checks: nothing, or the reason to skip.\<close>

definition terminalEligible :: "retention_run \<Rightarrow> go_time \<Rightarrow> int \<Rightarrow> string option" where
  "terminalEligible run now retention =
     (if \<not> IsTerminal (rr_Phase run) then Some SkipActiveRun
      else if rr_Phase run = UnknownEffect then Some SkipUnknownEffect
      else if IsZero (rr_CompletedAt run) then Some SkipMissingCompletion
      else if After (rr_CompletedAt run) now then Some SkipFutureCompletion
      else if instant (rr_CompletedAt run) + retention > instant now then Some SkipRetentionWindow
      else None)"

definition requireSpecDigest :: "cluster_resource \<Rightarrow> retention_run \<Rightarrow> string option" where
  "requireSpecDigest r run =
     (if rr_SpecDigest run = [] then Some ''retention: invalid AgentRun identity: run digest is empty''
      else let d = (if rs_SpecDigest r = [] then map_get (rs_Annotations r) SpecDigestAnnotation else rs_SpecDigest r)
           in if d = [] then Some ''missing spec digest''
              else if d \<noteq> rr_SpecDigest run then Some ''spec digest mismatch''
              else None)"

definition specDigestSkipReason :: "string \<Rightarrow> string" where
  "specDigestSkipReason err = (if contains_sub err ''missing'' then SkipSpecDigestMissing else SkipSpecDigestMismatch)"

fun required_keys_check :: "string \<Rightarrow> string \<Rightarrow> (string \<Rightarrow> bool) \<Rightarrow> string list \<Rightarrow> string option" where
  "required_keys_check objectPrefix runUID present [] = None"
| "required_keys_check objectPrefix runUID present (key # keys) =
     (if key = [] then Some SkipEvidenceNotFlushed
      else if validateArtifactKey objectPrefix runUID key \<noteq> None then Some SkipArtifactKeyMismatch
      else if \<not> present key then Some SkipEvidenceMissing
      else required_keys_check objectPrefix runUID present keys)"

definition evidenceEligible :: "retention_run \<Rightarrow> string \<Rightarrow> string \<Rightarrow> string list \<Rightarrow> string option" where
  "evidenceEligible run objectPrefix ledgerPrefix objectKeys =
     (if \<not> rr_EvidenceFlushed run then Some SkipEvidenceNotFlushed
      else if \<not> rr_LedgerFlushed run then Some SkipLedgerNotFlushed
      else case required_keys_check objectPrefix (rr_UID run) (List.member objectKeys) (rr_RequiredObjectKeys run) of
        Some why \<Rightarrow> Some why
      | None \<Rightarrow>
          if rr_EffectKey run = [] then None
          else if \<not> ValidDigest (rr_EffectKey run) then Some SkipLedgerNotFlushed
          else let key = (\<lambda>segment. objectPrefix @ ''/'' @ ledgerPrefix @ ''/'' @ segment @ ''/'' @ trim_prefix (rr_EffectKey run) DigestPrefix @ ''.json'')
               in if list_all (\<lambda>segment. List.member objectKeys (key segment)) [''claims'', ''outcomes''] then None
                  else Some SkipLedgerNotFlushed)"

definition evidenceReferencesBound :: "retention_run \<Rightarrow> string \<Rightarrow> string option" where
  "evidenceReferencesBound run objectPrefix =
     (if \<not> rr_EvidenceFlushed run then Some SkipEvidenceNotFlushed
      else required_keys_check objectPrefix (rr_UID run) (\<lambda>_. True) (rr_RequiredObjectKeys run))"

definition inventoryKeySet :: "stored_artifact list \<Rightarrow> ledger_object list \<Rightarrow> string list" where
  "inventoryKeySet artifacts ledger = filter (\<lambda>k. k \<noteq> []) (map af_Key artifacts @ map lo_Key ledger)"

definition uniqueStrings :: "string list \<Rightarrow> string list" where
  "uniqueStrings values = sort (remdups values)"

section \<open>Ownership\<close>

text \<open>The loop of \<^verbatim>\<open>workSandbox\<close>; \<open>found\<close> is the child seen so far.\<close>

fun work_sandbox_loop :: "run_child option \<Rightarrow> run_child list \<Rightarrow> run_child option" where
  "work_sandbox_loop found [] = found"
| "work_sandbox_loop found (c # cs) =
     (if ch_Role c \<noteq> WorkRole then work_sandbox_loop found cs
      else if found \<noteq> None \<or> (ch_Kind c \<noteq> SandboxKind \<and> ch_Kind c \<noteq> JobKind) \<or> ch_Name c = [] \<or> \<not> validUID (ch_UID c) then None
      else work_sandbox_loop (Some c) cs)"

definition workSandbox :: "retention_run \<Rightarrow> run_child option" where
  "workSandbox run = work_sandbox_loop None (rr_Children run)"

definition boolValue :: "bool option \<Rightarrow> bool" where
  "boolValue v = (v = Some True)"

definition controllerOwner :: "owner_reference list \<Rightarrow> retention_error + owner_reference" where
  "controllerOwner owners =
     (case filter (\<lambda>w. boolValue (ow_Controller w)) owners of
        [] \<Rightarrow> Inl ErrMissingOwnership
      | [w] \<Rightarrow> Inr w
      | _ \<Rightarrow> Inl ErrAmbiguousOwnership)"

definition requireRunOwner :: "owner_reference list \<Rightarrow> retention_run \<Rightarrow> retention_error option" where
  "requireRunOwner owners run =
     (case controllerOwner owners of Inl err \<Rightarrow> Some err | Inr w \<Rightarrow>
        if ow_APIVersion w \<noteq> AgentRunAPIVersion \<or> ow_Kind w \<noteq> AgentRunKind \<or> ow_Name w \<noteq> rr_Name run \<or>
           ow_UID w \<noteq> rr_UID run \<or> \<not> boolValue (ow_BlockOwnerDeletion w)
        then Some ErrMissingOwnership else None)"

definition requireWorkspaceOwner :: "owner_reference list \<Rightarrow> run_child \<Rightarrow> retention_run \<Rightarrow> retention_error option" where
  "requireWorkspaceOwner owners child run =
     (if ch_Kind child = JobKind then requireRunOwner owners run
      else if ch_Kind child \<noteq> SandboxKind then Some ErrMissingOwnership
      else case controllerOwner owners of Inl err \<Rightarrow> Some err | Inr w \<Rightarrow>
        if ow_APIVersion w \<noteq> SandboxAPIVersion \<or> ow_Kind w \<noteq> SandboxKind \<or> ow_Name w \<noteq> ch_Name child \<or>
           ow_UID w \<noteq> ch_UID child \<or> \<not> boolValue (ow_BlockOwnerDeletion w)
        then Some ErrMissingOwnership else None)"

definition ownerSkipReason :: "retention_error \<Rightarrow> string" where
  "ownerSkipReason err = (if err = ErrAmbiguousOwnership then SkipOwnerAmbiguous else SkipOwnerMismatch)"

end
