(* ===== verification/Ledger_Retention.thy ===== *)
theory Ledger_Retention
  imports Retention_Policy
begin

text \<open>
  Retirement of ledger pairs, from \<^verbatim>\<open>v3/internal/retention/applier.go\<close>, \<^verbatim>\<open>ledger.go\<close> and
  \<^verbatim>\<open>retention.go\<close>: the shape of object keys, the checks of a plan, and the program that installs the
  permanent tombstone of an effect before it deletes its outcome and its claim.
\<close>

section \<open>Ledger keys\<close>

definition trim_suffix :: "string \<Rightarrow> string \<Rightarrow> string" where
  "trim_suffix s p = (if has_suffix s p then take (length s - length p) s else s)"

definition ledgerRoot :: "string \<Rightarrow> string \<Rightarrow> string" where
  "ledgerRoot objectPrefix ledgerPrefix = trim_suffix objectPrefix ''/'' @ ''/'' @ trim_byte (CHR ''/'') ledgerPrefix @ ''/''"

definition isLedgerObjectKey :: "string \<Rightarrow> string \<Rightarrow> string \<Rightarrow> bool" where
  "isLedgerObjectKey objectPrefix ledgerPrefix key = has_prefix key (ledgerRoot objectPrefix ledgerPrefix)"

definition isLowerHex :: "string \<Rightarrow> bool" where
  "isLowerHex v = list_all lower_hex v"

text \<open>
  \<^verbatim>\<open>parseLedgerObjectKey\<close>: the segment and the effect key. A text of lowercase hexadecimal digits is its
  own lower case, so the comparison with \<^verbatim>\<open>strings.ToLower\<close> adds nothing.
\<close>

definition parseLedgerObjectKey :: "string \<Rightarrow> string \<Rightarrow> string \<Rightarrow> (string \<times> string) option" where
  "parseLedgerObjectKey objectPrefix ledgerPrefix key =
     (let root = ledgerRoot objectPrefix ledgerPrefix
      in if \<not> validateObjectKey key False \<or> \<not> has_prefix key root then None
         else case split_on (CHR ''/'') (trim_prefix key root) of
           [segment, name] \<Rightarrow>
             if name = [] \<or> \<not> has_suffix name ''.json'' then None
             else if segment \<noteq> ''claims'' \<and> segment \<noteq> ''outcomes'' \<and> segment \<noteq> TombstonesSegment then None
             else let hex = trim_suffix name ''.json''
                  in if length hex \<noteq> 64 \<or> \<not> isLowerHex hex then None else Some (segment, DigestPrefix @ hex)
         | _ \<Rightarrow> None)"

section \<open>Plans\<close>

record applier_config =
  ac_ObjectPrefix :: string
  ac_LedgerPrefix :: string
  ac_MaxActions :: int
  ac_Enforce :: bool
  ac_DryRun :: bool
  ac_LifecycleAttested :: bool

text \<open>\<^verbatim>\<open>ApplierConfig.normalized\<close>.\<close>

definition normalized_config :: "applier_config \<Rightarrow> retention_error + applier_config" where
  "normalized_config c =
     (if \<not> validateObjectKey (trim_suffix (ac_ObjectPrefix c) ''/'') False then Inl ErrInvalidApplierConfig
      else let c = (if ac_LedgerPrefix c = [] then c\<lparr>ac_LedgerPrefix := ''publish-effects''\<rparr> else c)
           in if \<not> validateObjectKey (trim_suffix (ac_LedgerPrefix c) ''/'') False then Inl ErrInvalidApplierConfig
              else let c = (if ac_MaxActions c = 0 then c\<lparr>ac_MaxActions := 256\<rparr> else c)
                   in if ac_MaxActions c < 1 \<or> (ac_Enforce c \<and> ac_DryRun c) then Inl ErrInvalidApplierConfig else Inr c)"

definition sameTombstoneIdentity :: "effect_tombstone \<Rightarrow> effect_tombstone \<Rightarrow> bool" where
  "sameTombstoneIdentity l r \<longleftrightarrow>
     tb_SchemaVersion l = tb_SchemaVersion r \<and> tb_EffectKey l = tb_EffectKey r \<and> tb_RequestDigest l = tb_RequestDigest r \<and>
     tb_Operation l = tb_Operation r \<and> tb_RunUID l = tb_RunUID r \<and> tb_State l = tb_State r \<and>
     \<not> IsZero (tb_RetiredAt l) \<and> \<not> IsZero (tb_RetiredAt r)"

text \<open>The first loop of \<^verbatim>\<open>validateLedgerPlan\<close>: the ledger actions by pair key and role.\<close>

fun index_actions :: "((string \<times> string) \<times> retention_action) list \<Rightarrow> retention_action list \<Rightarrow>
    retention_error + ((string \<times> string) \<times> retention_action) list" where
  "index_actions table [] = Inr table"
| "index_actions table (a # as) =
     (if ra_PairKey a = [] then index_actions table as
      else if ra_Role a \<noteq> ''ledger-claim'' \<and> ra_Role a \<noteq> ''ledger-outcome'' then Inl (ErrUnsupportedAction ''invalid ledger action role'')
      else if map_of table (ra_PairKey a, ra_Role a) \<noteq> None then Inl (ErrUnsupportedAction ''duplicate ledger action'')
      else index_actions (((ra_PairKey a, ra_Role a), a) # table) as)"

definition pair_well_formed :: "ledger_pair_plan \<Rightarrow> bool" where
  "pair_well_formed pair \<longleftrightarrow>
     ValidDigest (lp_EffectKey pair) \<and> lp_RunUID pair \<noteq> [] \<and> cl_EffectKey (lp_Claim pair) = lp_EffectKey pair \<and>
     oc_EffectKey (lp_Outcome pair) = lp_EffectKey pair \<and>
     cl_RequestDigest (lp_Claim pair) = oc_RequestDigest (lp_Outcome pair) \<and> cl_RunUID (lp_Claim pair) = lp_RunUID pair \<and>
     oc_RunUID (lp_Outcome pair) = lp_RunUID pair \<and>
     (oc_State (lp_Outcome pair) = OutcomeSucceeded \<or> oc_State (lp_Outcome pair) = OutcomeFailed) \<and>
     lp_ClaimETag pair \<noteq> [] \<and> lp_OutcomeETag pair \<noteq> [] \<and>
     lp_TombstoneBody pair \<noteq> [] \<and> length (lp_TombstoneBody pair) \<le> MaxLedgerBodyBytes"

definition pair_keys_ok :: "applier_config \<Rightarrow> ledger_pair_plan \<Rightarrow> bool" where
  "pair_keys_ok c pair \<longleftrightarrow>
     parseLedgerObjectKey (ac_ObjectPrefix c) (ac_LedgerPrefix c) (lp_ClaimKey pair) = Some (''claims'', lp_EffectKey pair) \<and>
     parseLedgerObjectKey (ac_ObjectPrefix c) (ac_LedgerPrefix c) (lp_OutcomeKey pair) = Some (''outcomes'', lp_EffectKey pair) \<and>
     parseLedgerObjectKey (ac_ObjectPrefix c) (ac_LedgerPrefix c) (lp_TombstoneKey pair) = Some (TombstonesSegment, lp_EffectKey pair)"

definition pair_tombstone_ok :: "ledger_pair_plan \<Rightarrow> bool" where
  "pair_tombstone_ok pair =
     (case DecodeTombstone (lp_TombstoneBody pair) of
        Inl _ \<Rightarrow> False
      | Inr t \<Rightarrow>
          sameTombstoneIdentity t (lp_Tombstone pair) \<and> tb_State t = oc_State (lp_Outcome pair) \<and>
          tb_EffectKey t = lp_EffectKey pair \<and> tb_RequestDigest t = cl_RequestDigest (lp_Claim pair) \<and>
          tb_Operation t = cl_Operation (lp_Claim pair) \<and> tb_RunUID t = lp_RunUID pair)"

text \<open>The role of an indexed action is one of two, so an index with both has exactly two entries for the pair.\<close>

definition pair_actions_ok :: "string \<Rightarrow> ((string \<times> string) \<times> retention_action) list \<Rightarrow> ledger_pair_plan \<Rightarrow> bool" where
  "pair_actions_ok mode table pair =
     (case (map_of table (lp_EffectKey pair, ''ledger-claim''), map_of table (lp_EffectKey pair, ''ledger-outcome'')) of
        (Some ca, Some oa) \<Rightarrow>
          ra_Mode ca = mode \<and> ra_Mode oa = mode \<and> ra_RunUID ca = lp_RunUID pair \<and> ra_RunUID oa = lp_RunUID pair \<and>
          ra_PairKey ca = lp_EffectKey pair \<and> ra_PairKey oa = lp_EffectKey pair \<and>
          at_ObjectKey (ra_Target ca) = lp_ClaimKey pair \<and> at_ETag (ra_Target ca) = lp_ClaimETag pair \<and>
          at_ObjectKey (ra_Target oa) = lp_OutcomeKey pair \<and> at_ETag (ra_Target oa) = lp_OutcomeETag pair
      | _ \<Rightarrow> False)"

fun check_pairs :: "applier_config \<Rightarrow> string \<Rightarrow> ((string \<times> string) \<times> retention_action) list \<Rightarrow> string list \<Rightarrow>
    ledger_pair_plan list \<Rightarrow> retention_error option" where
  "check_pairs c mode table keys [] = None"
| "check_pairs c mode table keys (pair # pairs) =
     (if List.member keys (lp_EffectKey pair) then Some (ErrUnsupportedAction ''duplicate ledger pair'')
      else if \<not> pair_well_formed pair then Some (ErrUnsupportedAction ''malformed ledger pair'')
      else if \<not> pair_keys_ok c pair then Some (ErrUnsupportedAction ''invalid ledger key'')
      else if \<not> pair_tombstone_ok pair then Some (ErrUnsupportedAction ''invalid ledger tombstone body'')
      else if \<not> pair_actions_ok mode table pair then Some (ErrUnsupportedAction ''ledger pair actions are incomplete'')
      else check_pairs c mode table (lp_EffectKey pair # keys) pairs)"

definition validateLedgerPlan :: "retention_plan \<Rightarrow> applier_config \<Rightarrow> retention_error option" where
  "validateLedgerPlan plan c =
     (if pl_LedgerPairs plan = [] then
        (if list_ex (\<lambda>a. ra_PairKey a \<noteq> []) (pl_Actions plan) then Some (ErrUnsupportedAction ''ledger action has no pair'') else None)
      else case index_actions [] (pl_Actions plan) of Inl err \<Rightarrow> Some err | Inr table \<Rightarrow>
        (case check_pairs c (actionMode plan) table [] (pl_LedgerPairs plan) of Some err \<Rightarrow> Some err | None \<Rightarrow>
           if list_all (\<lambda>((e, role), a). List.member (map lp_EffectKey (pl_LedgerPairs plan)) e) table then None
           else Some (ErrUnsupportedAction ''ledger action has no pair'')))"

section \<open>Retiring a pair\<close>

record apply_result =
  ar_Action :: retention_action
  ar_Result :: string
  ar_Reason :: string

record pair_report =
  pr_WouldDelete :: nat
  pr_Deleted :: nat
  pr_Skipped :: nat
  pr_Failed :: nat
  pr_Results :: "apply_result list"

definition ensureLedgerTombstone :: "ledger_pair_plan \<Rightarrow> retention_error option program" where
  "ensureLedgerTombstone pair =
     (let matches = (\<lambda>body. case DecodeTombstone body of Inl _ \<Rightarrow> False | Inr t \<Rightarrow> sameTombstoneIdentity t (lp_Tombstone pair))
      in if lp_TombstoneExists pair then
           Get (lp_TombstoneKey pair) (\<lambda>r. Done (case r of
             Found body \<Rightarrow> if matches body then None else Some ErrFenceConflict
           | _ \<Rightarrow> Some PairStoreError))
         else Create (lp_TombstoneKey pair) (lp_TombstoneBody pair) (\<lambda>r. case r of
           CreateFailed \<Rightarrow> Done (Some PairStoreError)
         | Created \<Rightarrow> Done None
         | Exists \<Rightarrow>
             Get (lp_TombstoneKey pair) (\<lambda>r. Done (case r of
               Found body \<Rightarrow> if matches body then None else Some ErrFenceConflict
             | _ \<Rightarrow> Some ErrFenceConflict))))"

definition pair_actions :: "retention_plan \<Rightarrow> ledger_pair_plan \<Rightarrow> retention_action \<times> retention_action" where
  "pair_actions plan pair =
     (\<lparr>ra_Mode = actionMode plan, ra_RunUID = lp_RunUID pair, ra_Role = ''ledger-outcome'', ra_PairKey = lp_EffectKey pair,
       ra_Reason = ''terminal effect outcome exceeded retention window'',
       ra_Target = object_target (lp_OutcomeKey pair) (lp_OutcomeETag pair)\<rparr>,
      \<lparr>ra_Mode = actionMode plan, ra_RunUID = lp_RunUID pair, ra_Role = ''ledger-claim'', ra_PairKey = lp_EffectKey pair,
       ra_Reason = ''terminal effect claim exceeded retention window'',
       ra_Target = object_target (lp_ClaimKey pair) (lp_ClaimETag pair)\<rparr>)"

abbreviation result_of :: "retention_action \<Rightarrow> string \<Rightarrow> string \<Rightarrow> apply_result" where
  "result_of a r why \<equiv> \<lparr>ar_Action = a, ar_Result = r, ar_Reason = why\<rparr>"

definition skip_pair :: "retention_action \<times> retention_action \<Rightarrow> string \<Rightarrow> pair_report" where
  "skip_pair as why =
     \<lparr>pr_WouldDelete = 2, pr_Deleted = 0, pr_Skipped = 2, pr_Failed = 0,
      pr_Results = [result_of (fst as) ''skipped'' why, result_of (snd as) ''skipped'' why]\<rparr>"

definition fail_pair :: "retention_action \<times> retention_action \<Rightarrow> string \<Rightarrow> pair_report" where
  "fail_pair as why =
     \<lparr>pr_WouldDelete = 0, pr_Deleted = 0, pr_Skipped = 0, pr_Failed = 2,
      pr_Results = [result_of (fst as) ''failed'' why, result_of (snd as) ''failed'' why]\<rparr>"

text \<open>The result of a delete that counts: the object was deleted, or was absent already.\<close>

definition gone :: "retention_action \<Rightarrow> delete_answer \<Rightarrow> apply_result" where
  "gone a r = (if r = Absent then result_of a ''already-absent'' ''idempotent-absent''
     else result_of a ''deleted'' ''finalizer-safe-delete'')"

definition delete_pair_claim :: "ledger_pair_plan \<Rightarrow> retention_action \<Rightarrow> apply_result \<Rightarrow> (pair_report \<times> retention_error option) program" where
  "delete_pair_claim pair a before =
     Delete (lp_ClaimKey pair) (lp_ClaimETag pair) (\<lambda>r. Done
       (if r = FenceConflict then
          (\<lparr>pr_WouldDelete = 0, pr_Deleted = 1, pr_Skipped = 1, pr_Failed = 0,
            pr_Results = [before, result_of a ''fence-conflict'' ''uid-or-etag-fence-conflict'']\<rparr>, None)
        else if r = DeleteFailed then
          (\<lparr>pr_WouldDelete = 0, pr_Deleted = 1, pr_Skipped = 0, pr_Failed = 1,
            pr_Results = [before, result_of a ''failed'' ''delete-error'']\<rparr>, Some PairStoreError)
        else (\<lparr>pr_WouldDelete = 0, pr_Deleted = 2, pr_Skipped = 0, pr_Failed = 0, pr_Results = [before, gone a r]\<rparr>, None)))"

definition delete_pair :: "ledger_pair_plan \<Rightarrow> retention_action \<times> retention_action \<Rightarrow> (pair_report \<times> retention_error option) program" where
  "delete_pair pair as =
     Delete (lp_OutcomeKey pair) (lp_OutcomeETag pair) (\<lambda>r.
       if r = FenceConflict then Done
         (\<lparr>pr_WouldDelete = 0, pr_Deleted = 0, pr_Skipped = 2, pr_Failed = 0,
           pr_Results = [result_of (fst as) ''fence-conflict'' ''uid-or-etag-fence-conflict'',
                         result_of (snd as) ''skipped'' ''ledger-outcome-not-retired'']\<rparr>, None)
       else if r = DeleteFailed then Done
         (\<lparr>pr_WouldDelete = 0, pr_Deleted = 0, pr_Skipped = 1, pr_Failed = 1,
           pr_Results = [result_of (fst as) ''failed'' ''delete-error'',
                         result_of (snd as) ''skipped'' ''ledger-outcome-not-retired'']\<rparr>, Some PairStoreError)
       else delete_pair_claim pair (snd as) (gone (fst as) r))"

text \<open>
  \<^verbatim>\<open>applyLedgerPair\<close>; \<open>writes\<close> says that the inventory also creates and reads objects, which the
  source asks by a type assertion.
\<close>

definition applyLedgerPair :: "bool \<Rightarrow> ledger_pair_plan \<Rightarrow> retention_plan \<Rightarrow> applier_config \<Rightarrow> (pair_report \<times> retention_error option) program" where
  "applyLedgerPair writes pair plan c =
     (let as = pair_actions plan pair
      in if pl_DryRun plan \<or> ac_DryRun c then Done (skip_pair as ''dry-run'', None)
         else if \<not> ac_Enforce c then Done (skip_pair as ''enforcement-disabled'', None)
         else if \<not> ac_LifecycleAttested c then Done (skip_pair as ''lifecycle-attestation-missing'', None)
         else if actionMode plan \<noteq> ActionDelete then
           Done (\<lparr>pr_WouldDelete = 0, pr_Deleted = 0, pr_Skipped = 0, pr_Failed = 0, pr_Results = []\<rparr>, Some (ErrUnsupportedAction []))
         else if \<not> writes then Done (fail_pair as ''ledger-fence-store-unavailable'', Some (ErrUnsupportedAction ''object store cannot create and read ledger tombstones''))
         else followed_by (ensureLedgerTombstone pair) (\<lambda>e. case e of
           Some err \<Rightarrow> Done (fail_pair as ''ledger-fence-failed'', Some err)
         | None \<Rightarrow> delete_pair pair as))"

end
