(* ===== verification/Retention_Apply.thy ===== *)
theory Retention_Apply
  imports Ledger_Retention
begin

text \<open>
  \<^verbatim>\<open>Apply\<close> of \<^verbatim>\<open>v3/internal/retention/applier.go\<close>: a plan is carried out one deletion after the other, by UID in
  the cluster and by entity tag in the object store, and its ledger pairs last. The errors that are
  joined at the end are a list.
\<close>

record apply_report =
  rep_WouldDelete :: nat
  rep_Deleted :: nat
  rep_Skipped :: nat
  rep_Failed :: nat
  rep_Guarded :: bool
  rep_Results :: "apply_result list"

definition empty_report :: apply_report where
  "empty_report = \<lparr>rep_WouldDelete = 0, rep_Deleted = 0, rep_Skipped = 0, rep_Failed = 0, rep_Guarded = False, rep_Results = []\<rparr>"

text \<open>The error of a deletion; those of the Kubernetes client fall in the same cases.\<close>

fun delete_error :: "delete_answer \<Rightarrow> retention_error option" where
  "delete_error Deleted = None"
| "delete_error Absent = Some ErrObjectNotFound"
| "delete_error FenceConflict = Some ErrFenceConflict"
| "delete_error DeleteFailed = Some PairStoreError"

definition runObjectKey :: "string \<Rightarrow> string \<Rightarrow> string \<Rightarrow> string" where
  "runObjectKey objectPrefix runUID key = (if validateArtifactKey objectPrefix runUID key \<noteq> None then [] else key)"

definition applyAction :: "retention_action \<Rightarrow> applier_config \<Rightarrow> retention_error option program" where
  "applyAction a c =
     (let t = ra_Target a
      in if ra_RunUID a = [] then Done (Some (ErrUnsupportedAction []))
         else if at_Kind t = SecretKind \<or> at_Kind t = PersistentVolumeKind then
           (if at_Namespace t = [] \<or> at_Name t = [] \<or> \<not> validUID (at_UID t) then Done (Some (ErrUnsupportedAction []))
            else KubeDelete (at_Kind t, at_Namespace t, at_Name t, at_UID t) (\<lambda>r. Done (delete_error r)))
         else if at_Kind t = ObjectStoreKind then
           (if at_ObjectKey t = [] \<or> at_ETag t = [] \<or> at_ObjectKey t \<noteq> runObjectKey (ac_ObjectPrefix c) (ra_RunUID a) (at_ObjectKey t)
            then Done (Some (ErrUnsupportedAction []))
            else Delete (at_ObjectKey t) (at_ETag t) (\<lambda>r. Done (delete_error r)))
         else Done (Some (ErrUnsupportedAction [])))"

type_synonym apply_state = "apply_report \<times> retention_error list"

definition record_skip :: "retention_action \<Rightarrow> string \<Rightarrow> nat \<Rightarrow> apply_state \<Rightarrow> apply_state" where
  "record_skip a why would st =
     ((fst st)\<lparr>rep_WouldDelete := rep_WouldDelete (fst st) + would, rep_Skipped := rep_Skipped (fst st) + 1,
        rep_Results := rep_Results (fst st) @ [result_of a ''skipped'' why]\<rparr>, snd st)"

definition record_deletion :: "retention_action \<Rightarrow> retention_error option \<Rightarrow> apply_state \<Rightarrow> apply_state" where
  "record_deletion a err st =
     (let rep = fst st; add = (\<lambda>result why. rep_Results rep @ [result_of a result why])
      in case err of
           None \<Rightarrow> (rep\<lparr>rep_Deleted := rep_Deleted rep + 1, rep_Results := add ''deleted'' ''finalizer-safe-delete''\<rparr>, snd st)
         | Some e \<Rightarrow>
             if e = ErrObjectNotFound then
               (rep\<lparr>rep_Deleted := rep_Deleted rep + 1, rep_Results := add ''already-absent'' ''idempotent-absent''\<rparr>, snd st)
             else if e = ErrFenceConflict then
               (rep\<lparr>rep_Skipped := rep_Skipped rep + 1, rep_Results := add ''fence-conflict'' ''uid-or-etag-fence-conflict''\<rparr>, snd st)
             else (rep\<lparr>rep_Failed := rep_Failed rep + 1, rep_Results := add ''failed'' ''delete-error''\<rparr>, snd st @ [e]))"

text \<open>A round of the loop over the actions.\<close>

definition apply_one :: "retention_plan \<Rightarrow> applier_config \<Rightarrow> retention_action \<Rightarrow> apply_state \<Rightarrow> apply_state program" where
  "apply_one plan c a st =
     (if ra_PairKey a \<noteq> [] then Done st
      else if pl_DryRun plan \<or> ac_DryRun c then Done (record_skip a ''dry-run'' 1 st)
      else if \<not> ac_Enforce c then Done (record_skip a ''enforcement-disabled'' 1 st)
      else if \<not> ac_LifecycleAttested c then Done (record_skip a ''lifecycle-attestation-missing'' 1 st)
      else if ra_Mode a \<noteq> ActionDelete then Done (record_skip a ''invalid-action'' 0 st)
      else followed_by (applyAction a c) (\<lambda>err. Done (record_deletion a err st)))"

fun apply_actions :: "retention_plan \<Rightarrow> applier_config \<Rightarrow> retention_action list \<Rightarrow> apply_state \<Rightarrow> apply_state program" where
  "apply_actions plan c [] st = Done st"
| "apply_actions plan c (a # as) st = followed_by (apply_one plan c a st) (apply_actions plan c as)"

definition record_pair :: "pair_report \<times> retention_error option \<Rightarrow> apply_state \<Rightarrow> apply_state" where
  "record_pair out st =
     (let rep = fst st; p = fst out
      in (rep\<lparr>rep_WouldDelete := rep_WouldDelete rep + pr_WouldDelete p, rep_Deleted := rep_Deleted rep + pr_Deleted p,
              rep_Skipped := rep_Skipped rep + pr_Skipped p, rep_Failed := rep_Failed rep + pr_Failed p,
              rep_Results := rep_Results rep @ pr_Results p\<rparr>,
          snd st @ (case snd out of None \<Rightarrow> [] | Some e \<Rightarrow> [e])))"

fun apply_pairs :: "bool \<Rightarrow> retention_plan \<Rightarrow> applier_config \<Rightarrow> ledger_pair_plan list \<Rightarrow> apply_state \<Rightarrow> apply_state program" where
  "apply_pairs writes plan c [] st = Done st"
| "apply_pairs writes plan c (pair # pairs) st =
     followed_by (applyLedgerPair writes pair plan c) (\<lambda>out. apply_pairs writes plan c pairs (record_pair out st))"

definition Apply_plan :: "bool \<Rightarrow> retention_plan \<Rightarrow> applier_config \<Rightarrow> apply_state program" where
  "Apply_plan writes plan config =
     (case normalized_config config of Inl err \<Rightarrow> Done (empty_report, [err]) | Inr c \<Rightarrow>
      if int (length (pl_Actions plan)) > ac_MaxActions c then Done (empty_report, [ErrActionLimit])
      else if pl_Actions plan = [] \<and> pl_LedgerPairs plan = [] then Done (empty_report, [])
      else case validateLedgerPlan plan c of Some err \<Rightarrow> Done (empty_report, [err]) | None \<Rightarrow>
        let start = (empty_report\<lparr>rep_Guarded := (\<not> ac_LifecycleAttested c \<and> ac_Enforce c)\<rparr>, [])
        in followed_by (apply_actions plan c (pl_Actions plan) start) (apply_pairs writes plan c (pl_LedgerPairs plan)))"

end
