(* ===== verification/Ledger_Safety.thy ===== *)
theory Ledger_Safety
  imports Retention_Apply
begin

text \<open>
  The ledger under concurrency. Any number of clients run \<^verbatim>\<open>Claim\<close>, \<^verbatim>\<open>Commit\<close> and \<^verbatim>\<open>Apply\<close> of
  retention plans against one object store; between two operations of a client any other client may run, and
  every operation may fail, with or without having taken effect. The store is an interface with the
  laws of conditional creation; the properties are proved once for every store with these laws.
\<close>

section \<open>Runs of programs\<close>

datatype store_action =
    AGet string get_answer
  | ACreate string string create_answer
  | ADelete string string delete_answer
  | AKubeDelete "string \<times> string \<times> string \<times> string" delete_answer

fun advance :: "'a program \<Rightarrow> store_action \<Rightarrow> 'a program option" where
  "advance (Get k f) (AGet k' r) = (if k = k' then Some (f r) else None)"
| "advance (Create k b f) (ACreate k' b' r) = (if k = k' \<and> b = b' then Some (f r) else None)"
| "advance (Delete k e f) (ADelete k' e' r) = (if k = k' \<and> e = e' then Some (f r) else None)"
| "advance (KubeDelete x f) (AKubeDelete x' r) = (if x = x' then Some (f r) else None)"
| "advance _ _ = None"

fun resume :: "'a program \<Rightarrow> store_action list \<Rightarrow> 'a program option" where
  "resume p [] = Some p"
| "resume p (a # as) = (case advance p a of None \<Rightarrow> None | Some q \<Rightarrow> resume q as)"

lemma resume_append: "resume p (as @ bs) = (case resume p as of None \<Rightarrow> None | Some q \<Rightarrow> resume q bs)"
  by (induction as arbitrary: p) (auto split: option.split)

lemma resume_Done: "resume (Done x) as = Some q \<longleftrightarrow> as = [] \<and> q = Done x"
  by (cases as) auto

text \<open>A run of a sequence is a run of its first part, or a complete run of it and a run of the rest.\<close>

lemma resume_followed_by:
  assumes "resume (followed_by p g) as = Some q"
  shows "(\<exists>p'. resume p as = Some p') \<or>
    (\<exists>bs cs x. as = bs @ cs \<and> resume p bs = Some (Done x) \<and> resume (g x) cs = Some q)"
  using assms
proof (induction as arbitrary: p)
  case (Cons a as)
  show ?case
  proof (cases "\<exists>x. p = Done x")
    case True
    then obtain x where x: "p = Done x" by blast
    then have "a # as = [] @ (a # as) \<and> resume p [] = Some (Done x) \<and> resume (g x) (a # as) = Some q" using Cons.prems by simp
    then show ?thesis by blast
  next
    case False
    then obtain p' where p': "advance p a = Some p'" "resume (followed_by p' g) as = Some q"
      using Cons.prems by (cases p; cases a) (auto split: option.splits if_splits)
    from Cons.IH [OF p'(2)] show ?thesis
    proof (elim disjE exE conjE)
      fix bs cs x assume "as = bs @ cs" "resume p' bs = Some (Done x)" "resume (g x) cs = Some q"
      then have "a # as = (a # bs) @ cs \<and> resume p (a # bs) = Some (Done x) \<and> resume (g x) cs = Some q" using p'(1) by simp
      then show ?thesis by blast
    qed (use p'(1) in auto)
  qed
qed simp

text \<open>The keys a program can create and delete, and the results it can end with.\<close>

primrec creates :: "'a program \<Rightarrow> string set" where
  "creates (Done x) = {}"
| "creates (Get k f) = (\<Union>r. creates (f r))"
| "creates (Create k b f) = insert k (\<Union>r. creates (f r))"
| "creates (Delete k e f) = (\<Union>r. creates (f r))"
| "creates (KubeDelete x f) = (\<Union>r. creates (f r))"

primrec deletes :: "'a program \<Rightarrow> string set" where
  "deletes (Done x) = {}"
| "deletes (Get k f) = (\<Union>r. deletes (f r))"
| "deletes (Create k b f) = (\<Union>r. deletes (f r))"
| "deletes (Delete k e f) = insert k (\<Union>r. deletes (f r))"
| "deletes (KubeDelete x f) = (\<Union>r. deletes (f r))"

primrec results :: "'a program \<Rightarrow> 'a set" where
  "results (Done x) = {x}"
| "results (Get k f) = (\<Union>r. results (f r))"
| "results (Create k b f) = (\<Union>r. results (f r))"
| "results (Delete k e f) = (\<Union>r. results (f r))"
| "results (KubeDelete x f) = (\<Union>r. results (f r))"

lemma creates_followed_by: "creates (followed_by p g) = creates p \<union> (\<Union>x\<in>results p. creates (g x))"
  by (induction p) auto

lemma deletes_followed_by: "deletes (followed_by p g) = deletes p \<union> (\<Union>x\<in>results p. deletes (g x))"
  by (induction p) auto

lemma results_followed_by: "results (followed_by p g) = (\<Union>x\<in>results p. results (g x))"
  by (induction p) auto

lemma advance_keys:
  assumes "advance p a = Some q"
  shows "creates q \<subseteq> creates p" "deletes q \<subseteq> deletes p" "results q \<subseteq> results p"
  using assms by (cases p; cases a; auto split: if_splits)+

lemma resume_keys:
  "resume p as = Some q \<Longrightarrow> ACreate k b r \<in> set as \<Longrightarrow> k \<in> creates p"
  "resume p as = Some q \<Longrightarrow> ADelete k e d \<in> set as \<Longrightarrow> k \<in> deletes p"
  "resume p as = Some q \<Longrightarrow> results q \<subseteq> results p"
proof (induction as arbitrary: p)
  case (Cons a as)
  { case 1
    then obtain p' where "advance p a = Some p'" "resume p' as = Some q" by (auto split: option.splits)
    then show ?case using 1(2) Cons.IH(1) [of p'] advance_keys(1) [of p a p'] by (cases p; cases a; auto split: if_splits)
  next
    case 2
    then obtain p' where "advance p a = Some p'" "resume p' as = Some q" by (auto split: option.splits)
    then show ?case using 2(2) Cons.IH(2) [of p'] advance_keys(2) [of p a p'] by (cases p; cases a; auto split: if_splits)
  next
    case 3
    then obtain p' where "advance p a = Some p'" "resume p' as = Some q" by (auto split: option.splits)
    then show ?case using Cons.IH(3) [of p'] advance_keys(3) [of p a p'] by blast }
qed auto

section \<open>Keys\<close>

lemma ValidDigest_hex: "ValidDigest e \<Longrightarrow> e = DigestPrefix @ digestHex e"
  by (auto simp: ValidDigest_def digestHex_def trim_prefix_def has_prefix_iff)

lemma digestHex_inj: "ValidDigest e \<Longrightarrow> ValidDigest e' \<Longrightarrow> digestHex e = digestHex e' \<Longrightarrow> e = e'"
  using ValidDigest_hex by metis

lemma ledger_keys_distinct [simp]:
  "claimKey p e \<noteq> tombstoneKey p e'" "outcomeKey p e \<noteq> tombstoneKey p e'" "outcomeKey p e \<noteq> claimKey p e'"
  "claimKey p e \<noteq> outcomeKey p e'" "tombstoneKey p e \<noteq> claimKey p e'" "tombstoneKey p e \<noteq> outcomeKey p e'"
  by (simp_all add: claimKey_def outcomeKey_def tombstoneKey_def)

lemma ledger_keys_inj:
  assumes "ValidDigest e" and "ValidDigest e'"
  shows "claimKey p e = claimKey p e' \<longleftrightarrow> e = e'" "tombstoneKey p e = tombstoneKey p e' \<longleftrightarrow> e = e'"
    "outcomeKey p e = outcomeKey p e' \<longleftrightarrow> e = e'"
  using digestHex_inj [OF assms] by (auto simp: claimKey_def tombstoneKey_def outcomeKey_def)

lemma split_on_two: "split_on c s = [a, b] \<Longrightarrow> s = a @ [c] @ b"
  using split_on_join [of c s] by simp

lemma parse_ledger_key:
  assumes "parseLedgerObjectKey op lp key = Some (segment, e)"
  shows "key = ledgerRoot op lp @ segment @ ''/'' @ digestHex e @ ''.json''" and "ValidDigest e"
proof -
  let ?root = "ledgerRoot op lp"
  obtain name where r: "has_prefix key ?root" and sp: "split_on (CHR ''/'') (trim_prefix key ?root) = [segment, name]"
    and n: "has_suffix name ''.json''" and h: "length (trim_suffix name ''.json'') = 64" "isLowerHex (trim_suffix name ''.json'')"
    and e: "e = DigestPrefix @ trim_suffix name ''.json''"
    using assms by (auto simp: parseLedgerObjectKey_def Let_def split: if_splits list.splits)
  have "key = ?root @ trim_prefix key ?root" using r by (auto simp: trim_prefix_def has_prefix_iff)
  moreover have "trim_prefix key ?root = segment @ ''/'' @ name" using split_on_two [OF sp] by simp
  moreover have "name = trim_suffix name ''.json'' @ ''.json''" using n by (auto simp: trim_suffix_def has_suffix_iff)
  moreover have "digestHex e = trim_suffix name ''.json''" using e by (simp add: digestHex_def trim_prefix_def has_prefix_iff)
  ultimately show "key = ?root @ segment @ ''/'' @ digestHex e @ ''.json''" by metis
  show "ValidDigest e" using h unfolding e by (simp add: ValidDigest_def has_prefix_iff isLowerHex_def)
qed

text \<open>The keys of a checked pair are those of the ledger when both work below the same root.\<close>

lemma pair_keys:
  assumes "pair_keys_ok c pair" and "p @ ''/'' = ledgerRoot (ac_ObjectPrefix c) (ac_LedgerPrefix c)"
  shows "lp_ClaimKey pair = claimKey p (lp_EffectKey pair)" "lp_OutcomeKey pair = outcomeKey p (lp_EffectKey pair)"
    "lp_TombstoneKey pair = tombstoneKey p (lp_EffectKey pair)" "ValidDigest (lp_EffectKey pair)"
proof -
  let ?parse = "parseLedgerObjectKey (ac_ObjectPrefix c) (ac_LedgerPrefix c)"
  have parsed: "?parse (lp_ClaimKey pair) = Some (''claims'', lp_EffectKey pair)"
    "?parse (lp_OutcomeKey pair) = Some (''outcomes'', lp_EffectKey pair)"
    "?parse (lp_TombstoneKey pair) = Some (TombstonesSegment, lp_EffectKey pair)"
    using assms(1) by (auto simp: pair_keys_ok_def)
  note keys = parsed [THEN parse_ledger_key(1), folded assms(2)]
  show "lp_ClaimKey pair = claimKey p (lp_EffectKey pair)" "lp_OutcomeKey pair = outcomeKey p (lp_EffectKey pair)"
    "lp_TombstoneKey pair = tombstoneKey p (lp_EffectKey pair)"
    using keys by (simp_all add: claimKey_def outcomeKey_def tombstoneKey_def)
  show "ValidDigest (lp_EffectKey pair)" using parsed(1) by (rule parse_ledger_key(2))
qed

lemma checked_pairs_keys: "check_pairs c mode table keys pairs = None \<Longrightarrow> pair \<in> set pairs \<Longrightarrow> pair_keys_ok c pair"
  by (induction c mode table keys pairs rule: check_pairs.induct) (auto split: if_splits)

lemma validated_pair_keys: "validateLedgerPlan plan c = None \<Longrightarrow> pair \<in> set (pl_LedgerPairs plan) \<Longrightarrow> pair_keys_ok c pair"
  by (auto simp: validateLedgerPlan_def intro: checked_pairs_keys split: if_splits sum.splits option.splits)

section \<open>What the programs do to the store\<close>

text \<open>
  A program stays within \<open>C\<close>, \<open>D\<close> and \<open>P\<close> when it creates only keys of \<open>C\<close>, deletes only keys of \<open>D\<close> and ends
  only with results in \<open>P\<close>, whatever the store answers. The rules follow the structure of the programs.
\<close>

definition stays :: "string set \<Rightarrow> string set \<Rightarrow> ('a \<Rightarrow> bool) \<Rightarrow> 'a program \<Rightarrow> bool" where
  "stays C D P p \<longleftrightarrow> creates p \<subseteq> C \<and> deletes p \<subseteq> D \<and> (\<forall>x\<in>results p. P x)"

lemma stays_simps [simp]:
  "stays C D P (Done x) \<longleftrightarrow> P x"
  "stays C D P (Get k f) \<longleftrightarrow> (\<forall>r. stays C D P (f r))"
  "stays C D P (Create k b h) \<longleftrightarrow> k \<in> C \<and> (\<forall>r. stays C D P (h r))"
  "stays C D P (Delete k e g) \<longleftrightarrow> k \<in> D \<and> (\<forall>r. stays C D P (g r))"
  "stays C D P (KubeDelete y g) \<longleftrightarrow> (\<forall>r. stays C D P (g r))"
  by (simp_all add: stays_def UN_subset_iff) blast+

lemma stays_followed_by [intro!]:
  "stays C D (\<lambda>x. stays C D P (g x)) p \<Longrightarrow> stays C D P (followed_by p g)"
  by (fastforce simp: stays_def creates_followed_by deletes_followed_by results_followed_by)

lemma stays_run:
  assumes "stays C D P p" and "resume p as = Some q"
  shows "ACreate k b r \<in> set as \<Longrightarrow> k \<in> C" "ADelete k e d \<in> set as \<Longrightarrow> k \<in> D" "q = Done x \<Longrightarrow> P x"
  using assms resume_keys [OF assms(2)] by (fastforce simp: stays_def)+

lemma stays_reads [intro!]:
  "(\<And>r. P r) \<Longrightarrow> stays C D P (tombstoneExists p e)"
  "(\<And>r. Q r) \<Longrightarrow> stays C D Q (ReadOutcome p e d)"
  "(\<And>r. R r) \<Longrightarrow> stays C D R (readClaim k)"
  by (auto simp: tombstoneExists_def ReadOutcome_def readClaim_def)

lemma stays_unless_tombstoned [intro!]:
  "(\<And>err. P (failed err)) \<Longrightarrow> P fenced \<Longrightarrow> stays C D P go \<Longrightarrow> stays C D P (unless_tombstoned p e failed fenced go)"
  unfolding unless_tombstoned_def by (intro stays_followed_by stays_reads) (simp split: sum.split bool.split)

lemma stays_replay_claim: "stays C D (\<lambda>d. \<not> Execute (fst d)) (replay_claim p c)"
  by (auto simp: replay_claim_def failed_claim_def unknown_claim_def split: sum.split
      intro!: stays_followed_by stays_reads stays_unless_tombstoned)

lemma stays_Claim: "stays {claimKey p (cl_EffectKey c)} {} (\<lambda>_. True) (Claim p now c)"
proof -
  have "stays C D (\<lambda>_. True) (replay_claim p c')" for C D c'
    using stays_replay_claim by (auto simp: stays_def)
  then show ?thesis by (auto simp: Claim_def Let_def split: sum.split create_answer.split)
qed

lemma stays_Commit: "stays {outcomeKey p (oc_EffectKey r)} {} (\<lambda>_. True) (Commit p now r)"
  by (auto simp: Commit_def replay_commit_def Let_def split: sum.split create_answer.split intro!: stays_followed_by stays_reads)

lemma stays_ensure: "stays {lp_TombstoneKey pair} {} (\<lambda>_. True) (ensureLedgerTombstone pair)"
  by (auto simp: ensureLedgerTombstone_def Let_def split: create_answer.split)

lemma stays_delete_pair: "stays {} {lp_OutcomeKey pair, lp_ClaimKey pair} (\<lambda>_. True) (delete_pair pair as)"
  by (auto simp: delete_pair_def delete_pair_claim_def)

lemma stays_mono: "stays C D P p \<Longrightarrow> C \<subseteq> C' \<Longrightarrow> D \<subseteq> D' \<Longrightarrow> (\<And>x. P x \<Longrightarrow> P' x) \<Longrightarrow> stays C' D' P' p"
  by (auto simp: stays_def)

lemma stays_applyLedgerPair:
  "stays {lp_TombstoneKey pair} {lp_OutcomeKey pair, lp_ClaimKey pair} (\<lambda>_. True) (applyLedgerPair writes pair plan c)"
  by (auto simp: applyLedgerPair_def Let_def intro!: stays_followed_by stays_mono [OF stays_ensure]
      stays_mono [OF stays_delete_pair] split: option.split)

text \<open>A client that may execute saw no tombstone, created the claim, and then saw no tombstone again.\<close>

lemma unless_tombstoned_run:
  assumes "resume (unless_tombstoned p e failed fenced go) as = Some (Done x)"
  shows "x \<in> insert fenced (range failed) \<or> (\<exists>cs. as = AGet (tombstoneKey p e) Missing # cs \<and> resume go cs = Some (Done x))"
proof (cases "ValidDigest e")
  case True
  then show ?thesis using assms
    by (cases as; cases "hd as")
      (auto simp: unless_tombstoned_def tombstoneExists_def resume_Done split: if_splits get_answer.splits sum.splits option.splits)
next
  case False
  then show ?thesis using assms by (auto simp: unless_tombstoned_def tombstoneExists_def resume_Done)
qed

lemma not_executed [simp]: "\<not> Execute (fst (failed_claim err))" "\<not> Execute (fst (unknown_claim c))"
  by (simp_all add: failed_claim_def unknown_claim_def)

lemma Execute_run:
  assumes "resume (Claim p now c) as = Some (Done d)" and d: "Execute (fst d)"
  shows "\<exists>b. as = [AGet (tombstoneKey p (cl_EffectKey c)) Missing, ACreate (claimKey p (cl_EffectKey c)) b Created,
    AGet (tombstoneKey p (cl_EffectKey c)) Missing]"
proof -
  let ?T = "tombstoneKey p (cl_EffectKey c)" and ?K = "claimKey p (cl_EffectKey c)"
  define new where "new = c\<lparr>cl_SchemaVersion := LedgerSchema, cl_CreatedAt := now\<rparr>"
  have e: "cl_EffectKey new = cl_EffectKey c" by (simp add: new_def)
  define created where "created = (\<lambda>r. case r of CreateFailed \<Rightarrow> Done (failed_claim StoreError)
    | Created \<Rightarrow> unless_tombstoned p (cl_EffectKey new) failed_claim (unknown_claim new)
        (Done (\<lparr>Execute = True, Unknown = False, dc_Claim = new\<rparr>, None))
    | Exists \<Rightarrow> replay_claim p new)"
  define go where "go = (if IsZero now then Done (failed_claim ErrInvalidInput)
    else case canonicalJSON (marshal_claim new) of Inl err \<Rightarrow> Done (failed_claim err) | Inr body \<Rightarrow>
      Create (claimKey p (cl_EffectKey new)) body created)"
  have "Claim p now c = (if \<not> validClaim c then Done (failed_claim ErrInvalidInput)
      else unless_tombstoned p (cl_EffectKey c) failed_claim (unknown_claim c) go)"
    unfolding Claim_def go_def created_def new_def Let_def by (rule refl)
  then obtain cs where cs: "as = AGet ?T Missing # cs" "resume go cs = Some (Done d)"
    using assms by (auto simp: resume_Done split: if_splits dest!: unless_tombstoned_run)
  then obtain body where "resume (Create ?K body created) cs = Some (Done d)"
    using d unfolding go_def e by (auto simp: resume_Done split: if_splits sum.splits)
  then obtain r ds where ds: "cs = ACreate ?K body r # ds" "resume (created r) ds = Some (Done d)"
    by (cases cs; cases "hd cs") (auto split: if_splits)
  have "resume (replay_claim p new) ds \<noteq> Some (Done d)"
    using d stays_run(3) [OF stays_replay_claim [of UNIV UNIV p new], of ds "Done d" d] by blast
  then have r: "r = Created" using ds(2) d by (cases r) (auto simp: resume_Done created_def)
  then have "ds = [AGet ?T Missing]"
    using ds(2) d by (auto simp: created_def e resume_Done dest!: unless_tombstoned_run)
  then show ?thesis using cs ds r by blast
qed

text \<open>Nothing is deleted before the tombstone is known to exist.\<close>

definition fenced_by :: "string \<Rightarrow> store_action list \<Rightarrow> bool" where
  "fenced_by k as \<longleftrightarrow> (\<exists>b. ACreate k b Created \<in> set as \<or> AGet k (Found b) \<in> set as)"

lemma ensure_run: "resume (ensureLedgerTombstone pair) as = Some (Done None) \<Longrightarrow> fenced_by (lp_TombstoneKey pair) as"
  apply (cases as; cases "hd as"; cases "tl as"; cases "hd (tl as)")
  apply (auto simp: ensureLedgerTombstone_def fenced_by_def Let_def resume_Done split: if_splits get_answer.splits create_answer.splits option.splits)
  done

lemma applyLedgerPair_fenced:
  assumes "resume (applyLedgerPair writes pair plan c) as = Some q" and "ADelete k e r \<in> set as"
  shows "fenced_by (lp_TombstoneKey pair) as"
proof -
  let ?rest = "\<lambda>e. case e of Some err \<Rightarrow> Done (fail_pair (pair_actions plan pair) ''ledger-fence-failed'', Some err)
         | None \<Rightarrow> delete_pair pair (pair_actions plan pair)"
  have "resume (followed_by (ensureLedgerTombstone pair) ?rest) as = Some q"
    using assms by (auto simp: applyLedgerPair_def Let_def resume_Done split: if_splits)
  from resume_followed_by [OF this] show ?thesis
  proof (elim disjE exE conjE)
    fix p' assume "resume (ensureLedgerTombstone pair) as = Some p'"
    then show ?thesis using assms(2) stays_run(2) [OF stays_ensure] by blast
  next
    fix bs cs x assume x: "as = bs @ cs" "resume (ensureLedgerTombstone pair) bs = Some (Done x)" "resume (?rest x) cs = Some q"
    have "ADelete k e r \<in> set cs" using assms(2) x stays_run(2) [OF stays_ensure] by fastforce
    then have "x = None" using x(3) by (cases x) (auto simp: resume_Done)
    then have "fenced_by (lp_TombstoneKey pair) bs" using x(2) ensure_run by blast
    then show ?thesis using x(1) by (auto simp: fenced_by_def)
  qed
qed

section \<open>Deletions are guarded\<close>

text \<open>
  A run is guarded when it deletes no tombstone, and when it knows the tombstone of an effect whose claim
  or outcome it deletes. Every program below has guarded runs only, finished or not.
\<close>

definition guarded :: "string \<Rightarrow> store_action list \<Rightarrow> bool" where
  "guarded p as \<longleftrightarrow> (\<forall>k t r e. ADelete k t r \<in> set as \<longrightarrow> k \<noteq> tombstoneKey p e \<and>
     (ValidDigest e \<longrightarrow> k = claimKey p e \<or> k = outcomeKey p e \<longrightarrow> fenced_by (tombstoneKey p e) as))"

definition guarded_program :: "string \<Rightarrow> 'a program \<Rightarrow> bool" where
  "guarded_program p q \<longleftrightarrow> (\<forall>as q'. resume q as = Some q' \<longrightarrow> guarded p as)"

lemma guarded_append: "guarded p as \<Longrightarrow> guarded p bs \<Longrightarrow> guarded p (as @ bs)"
  by (auto simp: guarded_def fenced_by_def) metis+

lemma guarded_followed_by:
  assumes "guarded_program p q" and "\<And>x. guarded_program p (g x)"
  shows "guarded_program p (followed_by q g)"
  unfolding guarded_program_def
proof (intro allI impI)
  fix as q' assume "resume (followed_by q g) as = Some q'"
  from resume_followed_by [OF this] show "guarded p as"
    using assms guarded_append unfolding guarded_program_def by blast
qed

lemma guarded_stays: "stays C {} P q \<Longrightarrow> guarded_program p q"
  using stays_run(2) by (fastforce simp: guarded_program_def guarded_def)

lemma guarded_Done [simp]: "guarded_program p (Done x)"
  by (auto simp: guarded_program_def guarded_def resume_Done)

lemma guarded_pair:
  assumes "pair_keys_ok c pair" and "p @ ''/'' = ledgerRoot (ac_ObjectPrefix c) (ac_LedgerPrefix c)"
  shows "guarded_program p (applyLedgerPair writes pair plan c)"
  unfolding guarded_program_def guarded_def
proof (intro allI impI conjI)
  fix as q k t r e assume run: "resume (applyLedgerPair writes pair plan c) as = Some q" "ADelete k t r \<in> set as"
  note keys = pair_keys [OF assms]
  have k: "k = claimKey p (lp_EffectKey pair) \<or> k = outcomeKey p (lp_EffectKey pair)"
    using stays_run(2) [OF stays_applyLedgerPair run] keys by auto
  then show "k \<noteq> tombstoneKey p e" by auto
  assume e: "ValidDigest e" "k = claimKey p e \<or> k = outcomeKey p e"
  then have "lp_EffectKey pair = e"
    using k ledger_keys_inj [OF keys(4) e(1), of p] ledger_keys_distinct by metis
  then show "fenced_by (tombstoneKey p e) as" using applyLedgerPair_fenced [OF run] keys by simp
qed

text \<open>A key of a run is no ledger key, where the ledger is not kept among the runs.\<close>

lemma runs_prefix_differs: "''runs/'' @ x = l @ ''/'' @ y \<Longrightarrow> has_prefix (l @ ''/'') ''runs/''"
  by (cases l; cases "tl l"; cases "tl (tl l)"; cases "tl (tl (tl l))"; cases "tl (tl (tl (tl l)))") (auto simp: has_prefix_iff)

lemma run_key_apart:
  assumes "validateArtifactKey op uid key = None" and "op \<noteq> []" and "\<not> has_prefix (trim_byte (CHR ''/'') lp @ ''/'') ''runs/''"
    and root: "p @ ''/'' = ledgerRoot op lp"
  shows "key \<noteq> p @ ''/'' @ rest"
proof
  assume eq: "key = p @ ''/'' @ rest"
  let ?l = "trim_byte (CHR ''/'') lp"
  have valid: "\<not> contains_sub key ''//''" "has_prefix key (op @ ''/runs/'' @ uid @ ''/'')"
    using assms(1,2) by (auto simp: validateArtifactKey_def validateObjectKey_def runPrefix_def Let_def split: if_splits)
  then obtain x where x: "key = op @ ''/runs/'' @ x" by (auto simp: has_prefix_iff)
  have "\<not> has_suffix op ''/''"
  proof
    assume "has_suffix op ''/''"
    then obtain u where "op = u @ ''/''" by (auto simp: has_suffix_iff)
    then have "contains_sub key ''//''" unfolding x contains_sub_iff by (intro exI [of _ u] exI [of _ "''runs/'' @ x"]) simp
    then show False using valid(1) by simp
  qed
  then have "p @ ''/'' = op @ ''/'' @ ?l @ ''/''" using root by (simp add: ledgerRoot_def trim_suffix_def)
  then have "key = op @ ''/'' @ ?l @ ''/'' @ rest" using eq by (metis append.assoc)
  then have "''runs/'' @ x = ?l @ ''/'' @ rest" using x by simp
  then show False using runs_prefix_differs assms(3) by blast
qed

lemma guarded_applyAction:
  assumes "ac_ObjectPrefix c \<noteq> []" and "\<not> has_prefix (trim_byte (CHR ''/'') (ac_LedgerPrefix c) @ ''/'') ''runs/''"
    and "p @ ''/'' = ledgerRoot (ac_ObjectPrefix c) (ac_LedgerPrefix c)"
  shows "guarded_program p (applyAction a c)"
  unfolding guarded_program_def
proof (intro allI impI)
  fix as q assume run: "resume (applyAction a c) as = Some q"
  have apart: "k \<noteq> p @ ''/'' @ rest" if "ADelete k t r \<in> set as" for k t r rest
  proof -
    have "stays {} {k. validateArtifactKey (ac_ObjectPrefix c) (ra_RunUID a) k = None} (\<lambda>_. True) (applyAction a c)"
      by (auto simp: applyAction_def Let_def runObjectKey_def)
    then have "validateArtifactKey (ac_ObjectPrefix c) (ra_RunUID a) k = None" using stays_run(2) [OF _ run that] by blast
    then show ?thesis by (rule run_key_apart [OF _ assms])
  qed
  then show "guarded p as"
    unfolding guarded_def claimKey_def outcomeKey_def tombstoneKey_def by fastforce
qed

text \<open>Where the ledger of the clients and that of the applier are one, apart from the runs.\<close>

definition config_for :: "string \<Rightarrow> applier_config \<Rightarrow> bool" where
  "config_for p config =
     (case normalized_config config of Inl _ \<Rightarrow> True | Inr c \<Rightarrow>
        p @ ''/'' = ledgerRoot (ac_ObjectPrefix c) (ac_LedgerPrefix c) \<and>
        \<not> has_prefix (trim_byte (CHR ''/'') (ac_LedgerPrefix c) @ ''/'') ''runs/'')"

lemma guarded_apply_actions:
  assumes "ac_ObjectPrefix c \<noteq> []" and "\<not> has_prefix (trim_byte (CHR ''/'') (ac_LedgerPrefix c) @ ''/'') ''runs/''"
    and "p @ ''/'' = ledgerRoot (ac_ObjectPrefix c) (ac_LedgerPrefix c)"
  shows "guarded_program p (apply_actions plan c as st)"
proof (induction as arbitrary: st)
  case (Cons a as)
  have "guarded_program p (apply_one plan c a st)"
    using guarded_applyAction [OF assms] by (auto simp: apply_one_def intro: guarded_followed_by)
  then show ?case using Cons by (auto intro: guarded_followed_by)
qed simp

lemma guarded_apply_pairs:
  "list_all (pair_keys_ok c) pairs \<Longrightarrow> p @ ''/'' = ledgerRoot (ac_ObjectPrefix c) (ac_LedgerPrefix c) \<Longrightarrow>
     guarded_program p (apply_pairs writes plan c pairs st)"
proof (induction pairs arbitrary: st)
  case (Cons pair pairs)
  then have "guarded_program p (applyLedgerPair writes pair plan c)" by (intro guarded_pair) simp_all
  then show ?case using Cons by (simp add: guarded_followed_by)
qed simp

lemma normalized_prefix: "normalized_config config = Inr c \<Longrightarrow> ac_ObjectPrefix c \<noteq> []"
  by (cases "ac_ObjectPrefix config = []")
    (auto simp: normalized_config_def Let_def trim_suffix_def validateObjectKey_def [of "[]"] has_suffix_def split: if_splits)

lemma guarded_Apply:
  assumes "config_for p config"
  shows "guarded_program p (Apply_plan writes plan config)"
proof (cases "normalized_config config")
  case (Inr c)
  note ok = normalized_prefix [OF Inr]
  have "p @ ''/'' = ledgerRoot (ac_ObjectPrefix c) (ac_LedgerPrefix c)" "\<not> has_prefix (trim_byte (CHR ''/'') (ac_LedgerPrefix c) @ ''/'') ''runs/''"
    using assms Inr by (auto simp: config_for_def)
  then show ?thesis
    using Inr guarded_apply_actions [OF ok] guarded_apply_pairs [of c "pl_LedgerPairs plan" p] validated_pair_keys [of plan c]
    by (auto simp: Apply_plan_def Let_def list_all_iff intro!: guarded_followed_by split: option.split)
qed (simp add: Apply_plan_def)

section \<open>Clients\<close>

text \<open>
  A client runs one call: \<^verbatim>\<open>Claim\<close> or \<^verbatim>\<open>Commit\<close> with its reading of the clock, or \<^verbatim>\<open>Apply\<close> of any plan whatsoever.
\<close>

datatype ledger_job =
    ClaimJob go_time effect_claim
  | CommitJob go_time effect_outcome
  | ApplyJob bool retention_plan applier_config

datatype ledger_result =
    ClaimDone claim_result
  | CommitDone "ledger_error option"
  | ApplyDone apply_state

fun job_program :: "string \<Rightarrow> ledger_job \<Rightarrow> ledger_result program" where
  "job_program p (ClaimJob now c) = followed_by (Claim p now c) (\<lambda>x. Done (ClaimDone x))"
| "job_program p (CommitJob now r) = followed_by (Commit p now r) (\<lambda>x. Done (CommitDone x))"
| "job_program p (ApplyJob writes plan c) = followed_by (Apply_plan writes plan c) (\<lambda>x. Done (ApplyDone x))"

fun job_ok :: "string \<Rightarrow> ledger_job \<Rightarrow> bool" where
  "job_ok p (ApplyJob writes plan c) \<longleftrightarrow> config_for p c"
| "job_ok p _ \<longleftrightarrow> True"

lemma job_guarded:
  assumes "resume (job_program p job) as \<noteq> None" and "job_ok p job"
  shows "guarded p as"
proof -
  have "guarded_program p (job_program p job)"
    using assms(2) guarded_Apply guarded_stays [OF stays_Claim] guarded_stays [OF stays_Commit]
    by (cases job) (auto intro!: guarded_followed_by)
  then show ?thesis using assms(1) unfolding guarded_program_def by blast
qed

definition executes :: "string \<Rightarrow> ledger_job \<Rightarrow> store_action list \<Rightarrow> string \<Rightarrow> bool" where
  "executes p job as e \<longleftrightarrow> (\<exists>now c d. job = ClaimJob now c \<and> cl_EffectKey c = e \<and>
     resume (job_program p job) as = Some (Done (ClaimDone d)) \<and> Execute (fst d))"

lemma resume_wrapped:
  "resume (followed_by q (\<lambda>x. Done (f x))) as = Some r \<Longrightarrow> \<exists>q'. resume q as = Some q' \<and> r = followed_by q' (\<lambda>x. Done (f x))"
proof (induction as arbitrary: q)
  case (Cons a as)
  then show ?case by (cases q; cases a) (auto split: if_splits)
qed simp

lemma wrapped_Done: "followed_by q (\<lambda>x. Done (f x)) = Done y \<longleftrightarrow> (\<exists>x. q = Done x \<and> y = f x)"
  by (cases q) auto

lemma executes_claim:
  assumes "executes p job as e"
  obtains now c d where "job = ClaimJob now c" "cl_EffectKey c = e" "resume (Claim p now c) as = Some (Done d)" "Execute (fst d)"
proof -
  obtain now c d where job: "job = ClaimJob now c" "cl_EffectKey c = e" "Execute (fst d)"
    and run: "resume (followed_by (Claim p now c) (\<lambda>x. Done (ClaimDone x))) as = Some (Done (ClaimDone d))"
    using assms unfolding executes_def by auto
  obtain q where "resume (Claim p now c) as = Some q" "followed_by q (\<lambda>x. Done (ClaimDone x)) = Done (ClaimDone d)"
    using resume_wrapped [OF run] by metis
  then show ?thesis using that [OF job(1,2) _ job(3)] by (auto simp: wrapped_Done)
qed

lemma executes_run:
  assumes "executes p job as e"
  obtains b where "as = [AGet (tombstoneKey p e) Missing, ACreate (claimKey p e) b Created, AGet (tombstoneKey p e) Missing]"
  using assms Execute_run by (metis executes_claim)

lemma executes_valid: "executes p job as e \<Longrightarrow> ValidDigest e"
  by (erule executes_claim) (auto simp: Claim_def validClaim_def resume_Done split: if_splits)

record 's ledger_system =
  sys_store :: 's
  sys_clients :: "nat \<rightharpoonup> ledger_job \<times> store_action list"

text \<open>A client starts, or one client performs its next operation on the store.\<close>

inductive ledger_step :: "('s \<Rightarrow> store_action \<Rightarrow> 's \<Rightarrow> bool) \<Rightarrow> string \<Rightarrow> 's ledger_system \<Rightarrow> 's ledger_system \<Rightarrow> bool"
  for act p where
  client_starts: "sys_clients S i = None \<Longrightarrow> job_ok p job \<Longrightarrow>
    ledger_step act p S (S\<lparr>sys_clients := (sys_clients S)(i \<mapsto> (job, []))\<rparr>)"
| client_acts: "sys_clients S i = Some (job, as) \<Longrightarrow> resume (job_program p job) (as @ [a]) \<noteq> None \<Longrightarrow> act (sys_store S) a s' \<Longrightarrow>
    ledger_step act p S (S\<lparr>sys_store := s', sys_clients := (sys_clients S)(i \<mapsto> (job, as @ [a]))\<rparr>)"

inductive ledger_reachable :: "('s \<Rightarrow> store_action \<Rightarrow> 's \<Rightarrow> bool) \<Rightarrow> string \<Rightarrow> 's ledger_system \<Rightarrow> bool" for act p where
  no_clients: "sys_clients S = Map.empty \<Longrightarrow> ledger_reachable act p S"
| step: "ledger_reachable act p S \<Longrightarrow> ledger_step act p S S' \<Longrightarrow> ledger_reachable act p S'"

definition made :: "string \<Rightarrow> store_action list \<Rightarrow> bool" where
  "made k as \<longleftrightarrow> (\<exists>b. ACreate k b Created \<in> set as)"

definition cleared :: "string \<Rightarrow> string \<Rightarrow> store_action list \<Rightarrow> bool" where
  "cleared k t as \<longleftrightarrow> (\<exists>bs cs. as = bs @ cs \<and> made k bs \<and> AGet t Missing \<in> set cs)"

lemma made_snoc [simp]: "made k (as @ [a]) \<longleftrightarrow> made k as \<or> (\<exists>b. a = ACreate k b Created)"
  by (auto simp: made_def)

lemma fenced_by_snoc [simp]:
  "fenced_by k (as @ [a]) \<longleftrightarrow> fenced_by k as \<or> (\<exists>b. a = ACreate k b Created) \<or> (\<exists>b. a = AGet k (Found b))"
  by (auto simp: fenced_by_def)

lemma log_start [simp]: "\<not> made k []" "\<not> fenced_by k []" "\<not> cleared k t []"
  by (simp_all add: made_def fenced_by_def cleared_def)

lemma cleared_made: "cleared k t as \<Longrightarrow> made k as"
  by (auto simp: cleared_def made_def)

lemma cleared_snoc: "cleared k t (as @ [a]) \<Longrightarrow> cleared k t as \<or> made k as \<and> a = AGet t Missing"
  unfolding cleared_def
proof (elim exE conjE)
  fix bs cs assume "as @ [a] = bs @ cs" "made k bs" "AGet t Missing \<in> set cs"
  then show "(\<exists>bs cs. as = bs @ cs \<and> made k bs \<and> AGet t Missing \<in> set cs) \<or> made k as \<and> a = AGet t Missing"
    by (cases cs rule: rev_cases) (auto simp: made_def)
qed

lemma executes_cleared:
  assumes "executes p job as e"
  shows "cleared (claimKey p e) (tombstoneKey p e) as"
proof -
  let ?get = "AGet (tombstoneKey p e) Missing"
  obtain b where "as = [?get, ACreate (claimKey p e) b Created] @ [?get]" using assms by (elim executes_run) simp
  moreover have "made (claimKey p e) [?get, ACreate (claimKey p e) b Created]" by (auto simp: made_def)
  moreover have "?get \<in> set [?get]" by simp
  ultimately show ?thesis unfolding cleared_def by blast
qed

section \<open>The store as an interface\<close>

text \<open>
  What a conditional object store promises of the operations it reports. An operation that reports a
  failure may or may not have taken effect: no law says anything of it but that it touches no other key
  and overwrites nothing.
\<close>

locale conditional_store =
  fixes act :: "'s \<Rightarrow> store_action \<Rightarrow> 's \<Rightarrow> bool" and content :: "'s \<Rightarrow> string \<Rightarrow> string option"
  assumes created: "act s (ACreate k b Created) s' \<Longrightarrow> content s k = None \<and> content s' k = Some b"
    and found: "act s (AGet k (Found b)) s' \<Longrightarrow> content s k = Some b"
    and missing: "act s (AGet k Missing) s' \<Longrightarrow> content s k = None"
    and kept: "act s a s' \<Longrightarrow> content s k = Some b \<Longrightarrow> (\<And>t r. a \<noteq> ADelete k t r) \<Longrightarrow> content s' k = Some b"
begin

definition client_inv :: "string \<Rightarrow> string \<Rightarrow> 's \<Rightarrow> ledger_job \<Rightarrow> store_action list \<Rightarrow> bool" where
  "client_inv p e s job as \<longleftrightarrow> job_ok p job \<and> resume (job_program p job) as \<noteq> None \<and>
     (fenced_by (tombstoneKey p e) as \<longrightarrow> content s (tombstoneKey p e) \<noteq> None) \<and>
     (made (claimKey p e) as \<longrightarrow> content s (claimKey p e) \<noteq> None \<or> content s (tombstoneKey p e) \<noteq> None)"

definition clients_inv :: "string \<Rightarrow> string \<Rightarrow> 's \<Rightarrow> store_action list \<Rightarrow> store_action list \<Rightarrow> bool" where
  "clients_inv p e s as bs \<longleftrightarrow>
     (made (claimKey p e) as \<longrightarrow> made (claimKey p e) bs \<longrightarrow> content s (tombstoneKey p e) \<noteq> None) \<and>
     \<not> (cleared (claimKey p e) (tombstoneKey p e) as \<and> cleared (claimKey p e) (tombstoneKey p e) bs)"

definition ledger_inv :: "string \<Rightarrow> string \<Rightarrow> 's ledger_system \<Rightarrow> bool" where
  "ledger_inv p e S \<longleftrightarrow>
     (\<forall>i job as. sys_clients S i = Some (job, as) \<longrightarrow> client_inv p e (sys_store S) job as) \<and>
     (\<forall>i j job job' as bs. i \<noteq> j \<longrightarrow> sys_clients S i = Some (job, as) \<longrightarrow> sys_clients S j = Some (job', bs) \<longrightarrow>
        clients_inv p e (sys_store S) as bs)"

lemma tombstone_kept:
  assumes "act s a s'" and "resume (job_program p job) (as @ [a]) \<noteq> None" and "job_ok p job"
    and "content s (tombstoneKey p e) = Some b"
  shows "content s' (tombstoneKey p e) = Some b"
  using kept [OF assms(1,4)] job_guarded [OF assms(2,3)] by (auto simp: guarded_def)

lemma record_kept:
  assumes "act s a s'" and "resume (job_program p job) (as @ [a]) \<noteq> None" and "job_ok p job" and "ValidDigest e"
    and "fenced_by (tombstoneKey p e) as \<longrightarrow> content s (tombstoneKey p e) \<noteq> None"
    and "content s k = Some b" and "k = claimKey p e \<or> k = outcomeKey p e"
  shows "content s' k = Some b \<or> content s' (tombstoneKey p e) \<noteq> None"
proof (cases "\<exists>t r. a = ADelete k t r")
  case True
  then obtain t r where a: "a = ADelete k t r" by blast
  then have "fenced_by (tombstoneKey p e) (as @ [a])"
    using job_guarded [OF assms(2,3)] assms(4,7) by (auto simp: guarded_def)
  then have "content s (tombstoneKey p e) \<noteq> None" using a assms(5) by simp
  then show ?thesis using tombstone_kept [OF assms(1-3)] by blast
next
  case False
  then show ?thesis using kept [OF assms(1,6)] by blast
qed

lemma client_inv_kept:
  assumes "act s a s'" and "resume (job_program p job) (as @ [a]) \<noteq> None" and "job_ok p job" and "ValidDigest e"
    and "client_inv p e s job as" and "client_inv p e s job' bs"
  shows "client_inv p e s' job' bs"
  using assms(5,6) tombstone_kept [OF assms(1-3), of e] record_kept [OF assms(1-4), of "claimKey p e"]
  unfolding client_inv_def by blast

lemma client_inv_acts:
  assumes "act s a s'" and "resume (job_program p job) (as @ [a]) \<noteq> None" and "ValidDigest e" and inv: "client_inv p e s job as"
  shows "client_inv p e s' job (as @ [a])"
proof -
  have ok: "job_ok p job" using inv by (simp add: client_inv_def)
  have "client_inv p e s' job as" by (rule client_inv_kept [OF assms(1,2) ok assms(3) inv inv])
  then show ?thesis
    using assms(1,2) created [of s _ _ s'] found [of s _ _ s'] tombstone_kept [OF assms(1,2) ok, of e]
    unfolding client_inv_def by auto
qed

lemma clients_inv_kept:
  assumes "act s a s'" and "resume (job_program p job) (as @ [a]) \<noteq> None" and "job_ok p job" and "clients_inv p e s bs cs"
  shows "clients_inv p e s' bs cs"
  using assms(4) tombstone_kept [OF assms(1-3), of e] unfolding clients_inv_def by blast

lemma clients_inv_acts:
  assumes "act s a s'" and "resume (job_program p job) (as @ [a]) \<noteq> None" and "job_ok p job"
    and "clients_inv p e s as bs" and "client_inv p e s job' bs"
  shows "clients_inv p e s' (as @ [a]) bs"
proof -
  let ?K = "claimKey p e" and ?T = "tombstoneKey p e"
  have "content s ?T \<noteq> None" if "made ?K (as @ [a])" "made ?K bs"
    using that assms(1,4,5) by (auto simp: clients_inv_def client_inv_def dest: created)
  moreover have "False" if "cleared ?K ?T (as @ [a])" "cleared ?K ?T bs"
    using cleared_snoc [OF that(1)] cleared_made [OF that(2)] that(2) assms(1,4) missing [of s ?T s']
    by (auto simp: clients_inv_def)
  ultimately show ?thesis
    using tombstone_kept [OF assms(1-3), of e] unfolding clients_inv_def by blast
qed

lemma clients_inv_sym: "clients_inv p e s as bs \<Longrightarrow> clients_inv p e s bs as"
  unfolding clients_inv_def by blast

lemma ledger_inv_start:
  assumes "ledger_inv p e S" and "sys_clients S i = None" and "job_ok p job"
  shows "ledger_inv p e (S\<lparr>sys_clients := (sys_clients S)(i \<mapsto> (job, []))\<rparr>)"
  using assms by (auto simp: ledger_inv_def client_inv_def clients_inv_def)

lemma ledger_inv_acts:
  assumes inv: "ledger_inv p e S" and i: "sys_clients S i = Some (job, as)" and r: "resume (job_program p job) (as @ [a]) \<noteq> None"
    and a: "act (sys_store S) a s'" and e: "ValidDigest e"
  shows "ledger_inv p e (S\<lparr>sys_store := s', sys_clients := (sys_clients S)(i \<mapsto> (job, as @ [a]))\<rparr>)" (is "ledger_inv p e ?S'")
proof -
  have c: "client_inv p e (sys_store S) job' bs" if "sys_clients S j = Some (job', bs)" for j job' bs
    using inv that unfolding ledger_inv_def by blast
  have cc: "clients_inv p e (sys_store S) bs cs"
    if "j \<noteq> k" "sys_clients S j = Some (job', bs)" "sys_clients S k = Some (job'', cs)" for j k job' job'' bs cs
    using inv that unfolding ledger_inv_def by blast
  have ok: "job_ok p job" using c [OF i] by (simp add: client_inv_def)
  have "client_inv p e s' job' bs" if "sys_clients ?S' j = Some (job', bs)" for j job' bs
    using that client_inv_acts [OF a r e c [OF i]] client_inv_kept [OF a r ok e c [OF i] c] by (auto split: if_splits)
  moreover have new: "clients_inv p e s' (as @ [a]) bs" if "j \<noteq> i" "sys_clients S j = Some (job', bs)" for j job' bs
    using clients_inv_acts [OF a r ok cc [OF that(1) [symmetric] i that(2)] c [OF that(2)]] .
  moreover have "clients_inv p e s' bs cs"
    if "j \<noteq> k" "sys_clients ?S' j = Some (job', bs)" "sys_clients ?S' k = Some (job'', cs)" for j k job' job'' bs cs
    using that new [OF not_sym] clients_inv_sym [OF new] clients_inv_kept [OF a r ok cc] by (auto split: if_splits)
  ultimately show ?thesis unfolding ledger_inv_def by auto
qed

lemma ledger_inv_step: "ledger_step act p S S' \<Longrightarrow> ValidDigest e \<Longrightarrow> ledger_inv p e S \<Longrightarrow> ledger_inv p e S'"
  by (induction rule: ledger_step.induct) (blast intro: ledger_inv_start ledger_inv_acts)+

lemma ledger_inv_reachable:
  assumes "ledger_reachable act p S" and "ValidDigest e"
  shows "ledger_inv p e S"
  using assms
proof (induction rule: ledger_reachable.induct)
  case (no_clients S)
  then show ?case by (simp add: ledger_inv_def)
next
  case (step S S')
  then show ?case using ledger_inv_step by blast
qed

lemma reachable_steps: "(ledger_step act p)\<^sup>*\<^sup>* S S' \<Longrightarrow> ledger_reachable act p S \<Longrightarrow> ledger_reachable act p S'"
  by (induction rule: rtranclp_induct) (auto intro: ledger_reachable.step)

text \<open>Two clients never both execute.\<close>

lemma one_execution:
  assumes "ledger_reachable act p S" and "sys_clients S i = Some (job, as)" and "executes p job as e"
    and "sys_clients S j = Some (job', bs)" and "i \<noteq> j"
  shows "\<not> executes p job' bs e"
  using assms ledger_inv_reachable [OF assms(1) executes_valid [OF assms(3)]] executes_cleared
  unfolding ledger_inv_def clients_inv_def by metis

text \<open>A tombstone is permanent, and nothing executes once it exists.\<close>

lemma fence_step:
  assumes "ledger_step act p S S'" and "ledger_inv p e S" and "content (sys_store S) (tombstoneKey p e) = Some b"
  shows "content (sys_store S') (tombstoneKey p e) = Some b"
  using assms
proof (cases rule: ledger_step.cases)
  case (client_acts i job as a s')
  then show ?thesis using assms(2,3) tombstone_kept by (auto simp: ledger_inv_def client_inv_def)
qed simp

lemma late_step:
  assumes "ledger_step act p S S'" and "content (sys_store S) (tombstoneKey p e) = Some b"
    and "sys_clients S' i = Some (job, as)" and "executes p job as e"
  shows "sys_clients S i = Some (job, as)"
proof -
  have last: "as \<noteq> [] \<and> last as = AGet (tombstoneKey p e) Missing" using assms(4) by (elim executes_run) simp
  from assms(1) show ?thesis
  proof (cases rule: ledger_step.cases)
    case (client_starts j job')
    then show ?thesis using assms(3) last by (auto split: if_splits)
  next
    case (client_acts j job' bs a s')
    then show ?thesis using assms(2,3) last missing by (auto split: if_splits)
  qed
qed

lemma fenced_history:
  assumes "(ledger_step act p)\<^sup>*\<^sup>* S S'" and "ledger_reachable act p S" and "ValidDigest e"
    and "content (sys_store S) (tombstoneKey p e) = Some b"
  shows "content (sys_store S') (tombstoneKey p e) = Some b \<and>
    (\<forall>i job as. sys_clients S' i = Some (job, as) \<longrightarrow> executes p job as e \<longrightarrow> sys_clients S i = Some (job, as))"
  using assms(1)
proof (induction rule: rtranclp_induct)
  case base
  then show ?case using assms(4) by blast
next
  case (step S1 S2)
  have "ledger_inv p e S1" using reachable_steps [OF step(1) assms(2)] assms(3) by (rule ledger_inv_reachable)
  then show ?case using step fence_step [OF step(2)] late_step [OF step(2)] by blast
qed

lemma deletes_fenced:
  assumes "ledger_reachable act p S" and "sys_clients S i = Some (job, as)" and "ADelete k t r \<in> set as"
    and "ValidDigest e" and "k = claimKey p e \<or> k = outcomeKey p e"
  shows "\<exists>b. content (sys_store S) (tombstoneKey p e) = Some b"
proof -
  have inv: "client_inv p e (sys_store S) job as"
    using ledger_inv_reachable [OF assms(1,4)] assms(2) by (auto simp: ledger_inv_def)
  then have "guarded p as" using job_guarded by (auto simp: client_inv_def)
  then have "fenced_by (tombstoneKey p e) as" using assms(3-5) unfolding guarded_def by blast
  then show ?thesis using inv by (auto simp: client_inv_def)
qed

lemma retired_history:
  assumes "ledger_reachable act p S" and "sys_clients S j = Some (job', bs)" and "ADelete k t r \<in> set bs"
    and "k = claimKey p e \<or> k = outcomeKey p e" and "(ledger_step act p)\<^sup>*\<^sup>* S S'"
    and "sys_clients S' i = Some (job, as)" and "executes p job as e"
  shows "sys_clients S i = Some (job, as)"
proof -
  have e: "ValidDigest e" using assms(7) by (rule executes_valid)
  then obtain b where "content (sys_store S) (tombstoneKey p e) = Some b" using deletes_fenced [OF assms(1-3) _ assms(4)] by blast
  then show ?thesis using fenced_history [OF assms(5,1) e] assms(6,7) by blast
qed

text \<open>A record keeps its bytes until the tombstone of its effect exists.\<close>

lemma record_history:
  assumes "(ledger_step act p)\<^sup>*\<^sup>* S S'" and "ledger_reachable act p S" and "ValidDigest e"
    and "content (sys_store S) k = Some b" and "k = claimKey p e \<or> k = outcomeKey p e"
  shows "content (sys_store S') k = Some b \<or> content (sys_store S') (tombstoneKey p e) \<noteq> None"
  using assms(1)
proof (induction rule: rtranclp_induct)
  case (step S1 S2)
  have inv: "ledger_inv p e S1" using reachable_steps [OF step(1) assms(2)] assms(3) by (rule ledger_inv_reachable)
  have "content (sys_store S2) k = Some b \<or> content (sys_store S2) (tombstoneKey p e) \<noteq> None"
    if "content (sys_store S1) k = Some b"
    using step(2)
  proof (cases rule: ledger_step.cases)
    case (client_acts i job as a s')
    then have "client_inv p e (sys_store S1) job as" using inv by (auto simp: ledger_inv_def)
    then show ?thesis
      using client_acts that assms(3,5) record_kept [of "sys_store S1" a s' p job as e k b] by (simp add: client_inv_def)
  qed (use that in simp)
  then show ?case using step.IH fence_step [OF step(2) inv] by blast
qed (use assms(4) in simp)

end

section \<open>A store that keeps the laws\<close>

text \<open>
  Objects with a body and an entity tag. A failed operation may have taken effect or not; a delete is
  conditional on the tag. This is the contract of \<^verbatim>\<open>ObjectStore\<close> and of the store of the applier.
\<close>

type_synonym object_store = "string \<rightharpoonup> string \<times> string"

inductive store_step :: "object_store \<Rightarrow> store_action \<Rightarrow> object_store \<Rightarrow> bool" where
  get_found: "s k = Some (b, t) \<Longrightarrow> store_step s (AGet k (Found b)) s"
| get_missing: "s k = None \<Longrightarrow> store_step s (AGet k Missing) s"
| get_failed: "store_step s (AGet k GetFailed) s"
| create_new: "s k = None \<Longrightarrow> store_step s (ACreate k b Created) (s(k \<mapsto> (b, t)))"
| create_exists: "s k \<noteq> None \<Longrightarrow> store_step s (ACreate k b Exists) s"
| create_failed: "store_step s (ACreate k b CreateFailed) s"
| create_unacknowledged: "s k = None \<Longrightarrow> store_step s (ACreate k b CreateFailed) (s(k \<mapsto> (b, t)))"
| delete_done: "s k = Some (b, t) \<Longrightarrow> store_step s (ADelete k t Deleted) (s(k := None))"
| delete_absent: "s k = None \<Longrightarrow> store_step s (ADelete k t Absent) s"
| delete_conflict: "s k = Some (b, t') \<Longrightarrow> t' \<noteq> t \<Longrightarrow> store_step s (ADelete k t FenceConflict) s"
| delete_failed: "store_step s (ADelete k t DeleteFailed) s"
| delete_unacknowledged: "s k = Some (b, t) \<Longrightarrow> store_step s (ADelete k t DeleteFailed) (s(k := None))"
| elsewhere: "store_step s (AKubeDelete x r) s"

inductive_cases store_step_cases: "store_step s (ACreate k b Created) s'" "store_step s (AGet k (Found b)) s'"
  "store_step s (AGet k Missing) s'"

definition stored :: "object_store \<Rightarrow> string \<Rightarrow> string option" where
  "stored s k = map_option fst (s k)"

interpretation objects: conditional_store store_step stored
proof
  show "stored s k = None \<and> stored s' k = Some b" if "store_step s (ACreate k b Created) s'" for s k b s'
    using that by (auto simp: stored_def elim: store_step_cases)
  show "stored s k = Some b" if "store_step s (AGet k (Found b)) s'" for s k b s'
    using that by (auto simp: stored_def elim: store_step_cases)
  show "stored s k = None" if "store_step s (AGet k Missing) s'" for s k s'
    using that by (auto simp: stored_def elim: store_step_cases)
  show "stored s' k = Some b" if "store_step s a s'" "stored s k = Some b" "\<And>t r. a \<noteq> ADelete k t r" for s a s' k b
    using that by (cases rule: store_step.cases) (auto simp: stored_def)
qed

end
