(* ===== verification/Ledger_Replay.thy ===== *)
theory Ledger_Replay
  imports Ledger_Records Ledger_Safety
begin

text \<open>
  The life of one effect on a store that answers every operation: claim, commit, replay and retirement,
  one call after the other. The bodies written by one call are the ones the next call decodes.
\<close>

section \<open>A store that does not fail\<close>

text \<open>The entity tag of an object is a function of its body.\<close>

primrec run_on :: "(string \<Rightarrow> string) \<Rightarrow> 'a program \<Rightarrow> object_store \<Rightarrow> 'a \<times> object_store" where
  "run_on tag (Done x) s = (x, s)"
| "run_on tag (Get k f) s = run_on tag (f (case s k of None \<Rightarrow> Missing | Some (b, t) \<Rightarrow> Found b)) s"
| "run_on tag (Create k b f) s =
     (if s k = None then run_on tag (f Created) (s(k \<mapsto> (b, tag b))) else run_on tag (f Exists) s)"
| "run_on tag (Delete k e f) s =
     (case s k of
        None \<Rightarrow> run_on tag (f Absent) s
      | Some (b, t) \<Rightarrow> if t = e then run_on tag (f Deleted) (s(k := None)) else run_on tag (f FenceConflict) s)"
| "run_on tag (KubeDelete x f) s = run_on tag (f Deleted) s"

lemma run_on_followed_by:
  "run_on tag (followed_by p g) s = (let (x, s') = run_on tag p s in run_on tag (g x) s')"
  by (induction p arbitrary: s) (auto split: option.split)

text \<open>Such a run is one of the runs of the program against the general store.\<close>

inductive store_steps :: "object_store \<Rightarrow> store_action list \<Rightarrow> object_store \<Rightarrow> bool" where
  no_action: "store_steps s [] s"
| action: "store_step s a s' \<Longrightarrow> store_steps s' as s'' \<Longrightarrow> store_steps s (a # as) s''"

lemma run_on_steps: "\<exists>as. resume p as = Some (Done (fst (run_on tag p s))) \<and> store_steps s as (snd (run_on tag p s))"
proof (induction p arbitrary: s)
  case (Done x)
  show ?case by (intro exI [of _ "[]"]) (simp add: no_action)
next
  case (Get k f)
  let ?r = "case s k of None \<Rightarrow> Missing | Some (b, t) \<Rightarrow> Found b"
  obtain as where as: "resume (f ?r) as = Some (Done (fst (run_on tag (f ?r) s)))" "store_steps s as (snd (run_on tag (f ?r) s))"
    using Get by blast
  have "store_step s (AGet k ?r) s" by (auto intro: store_step.intros split: option.split)
  then have "store_steps s (AGet k ?r # as) (snd (run_on tag (f ?r) s))" using as(2) by (rule action)
  then show ?case using as(1) by (intro exI [of _ "AGet k ?r # as"]) auto
next
  case (Create k b f)
  define r s' where "r = (if s k = None then Created else Exists)" and "s' = (if s k = None then s(k \<mapsto> (b, tag b)) else s)"
  obtain as where as: "resume (f r) as = Some (Done (fst (run_on tag (f r) s')))" "store_steps s' as (snd (run_on tag (f r) s'))"
    using Create by blast
  have "store_step s (ACreate k b r) s'" by (auto simp: r_def s'_def intro: store_step.intros)
  then have "store_steps s (ACreate k b r # as) (snd (run_on tag (f r) s'))" using as(2) by (rule action)
  then show ?case using as(1) by (intro exI [of _ "ACreate k b r # as"]) (auto simp: r_def s'_def)
next
  case (Delete k e f)
  define r where "r = (case s k of None \<Rightarrow> Absent | Some (b, t) \<Rightarrow> if t = e then Deleted else FenceConflict)"
  define s' where "s' = (if r = Deleted then s(k := None) else s)"
  obtain as where as: "resume (f r) as = Some (Done (fst (run_on tag (f r) s')))" "store_steps s' as (snd (run_on tag (f r) s'))"
    using Delete by blast
  have "store_step s (ADelete k e r) s'" by (auto simp: r_def s'_def intro: store_step.intros split: option.split)
  then have "store_steps s (ADelete k e r # as) (snd (run_on tag (f r) s'))" using as(2) by (rule action)
  then show ?case using as(1) by (intro exI [of _ "ADelete k e r # as"]) (auto simp: r_def s'_def split: option.split)
next
  case (KubeDelete x f)
  obtain as where as: "resume (f Deleted) as = Some (Done (fst (run_on tag (f Deleted) s)))" "store_steps s as (snd (run_on tag (f Deleted) s))"
    using KubeDelete by blast
  have "store_steps s (AKubeDelete x Deleted # as) (snd (run_on tag (f Deleted) s))" by (rule action [OF elsewhere as(2)])
  then show ?case using as(1) by (intro exI [of _ "AKubeDelete x Deleted # as"]) auto
qed

section \<open>The calls\<close>

lemma unless_tombstoned_open:
  "ValidDigest e \<Longrightarrow> s (tombstoneKey p e) = None \<Longrightarrow> run_on tag (unless_tombstoned p e failed fenced go) s = run_on tag go s"
  by (simp add: unless_tombstoned_def tombstoneExists_def)

lemma unless_tombstoned_fenced:
  "ValidDigest e \<Longrightarrow> s (tombstoneKey p e) = Some (b, t) \<Longrightarrow> DecodeTombstone b = Inr x \<Longrightarrow> tb_EffectKey x = e \<Longrightarrow>
     run_on tag (unless_tombstoned p e failed fenced go) s = (fenced, s)"
  by (simp add: unless_tombstoned_def tombstoneExists_def)

lemma readClaim_found: "s k = Some (b, t) \<Longrightarrow> DecodeClaim b = Inr c \<Longrightarrow> run_on tag (readClaim k) s = (Inr c, s)"
  by (simp add: readClaim_def)

lemma ReadOutcome_found:
  "ValidDigest e \<Longrightarrow> ValidDigest d \<Longrightarrow> s (outcomeKey p e) = Some (b, t) \<Longrightarrow> DecodeOutcome b = Inr r \<Longrightarrow>
     oc_EffectKey r = e \<Longrightarrow> oc_RequestDigest r = d \<Longrightarrow> run_on tag (ReadOutcome p e d) s = (Inr r, s)"
  by (simp add: ReadOutcome_def)

lemma ReadOutcome_missing:
  "ValidDigest e \<Longrightarrow> ValidDigest d \<Longrightarrow> s (outcomeKey p e) = None \<Longrightarrow> run_on tag (ReadOutcome p e d) s = (Inl ErrNotFound, s)"
  by (simp add: ReadOutcome_def)

abbreviation stamped :: "effect_claim \<Rightarrow> go_time \<Rightarrow> effect_claim" where
  "stamped c now \<equiv> c\<lparr>cl_SchemaVersion := LedgerSchema, cl_CreatedAt := now\<rparr>"

lemma Claim_fresh:
  assumes "validClaim c" and "\<not> IsZero now" and "canonicalJSON (marshal_claim (stamped c now)) = Inr body"
    and "s (tombstoneKey p (cl_EffectKey c)) = None" and "s (claimKey p (cl_EffectKey c)) = None"
  shows "run_on tag (Claim p now c) s =
    ((\<lparr>Execute = True, Unknown = False, dc_Claim = stamped c now\<rparr>, None), s(claimKey p (cl_EffectKey c) \<mapsto> (body, tag body)))"
  using assms by (simp add: Claim_def Let_def unless_tombstoned_open validClaim_def)

lemma Claim_again:
  assumes "validClaim c" and "\<not> IsZero now" and "canonicalJSON (marshal_claim (stamped c now)) = Inr body"
    and "s (tombstoneKey p (cl_EffectKey c)) = None" and "s (claimKey p (cl_EffectKey c)) \<noteq> None"
  shows "run_on tag (Claim p now c) s = run_on tag (replay_claim p (stamped c now)) s"
  using assms by (auto simp: Claim_def Let_def unless_tombstoned_open validClaim_def)

lemma replay_claim_pending:
  assumes "validClaim c" and "s (tombstoneKey p (cl_EffectKey c)) = None" and "s (claimKey p (cl_EffectKey c)) = Some (b, t)"
    and "DecodeClaim b = Inr (stamped c t0)" and "s (outcomeKey p (cl_EffectKey c)) = None"
  shows "run_on tag (replay_claim p (stamped c now)) s = (unknown_claim (stamped c t0), s)"
  using assms
  by (simp add: replay_claim_def run_on_followed_by readClaim_found unless_tombstoned_open ReadOutcome_missing validClaim_def isNotFound_def)

lemma replay_claim_done:
  assumes "validClaim c" and "s (tombstoneKey p (cl_EffectKey c)) = None" and "s (claimKey p (cl_EffectKey c)) = Some (b, t)"
    and "DecodeClaim b = Inr (stamped c t0)" and "s (outcomeKey p (cl_EffectKey c)) = Some (b', t')"
    and "DecodeOutcome b' = Inr r" and "oc_EffectKey r = cl_EffectKey c" and "oc_RequestDigest r = cl_RequestDigest c"
    and "oc_State r \<noteq> OutcomeUnknown"
  shows "run_on tag (replay_claim p (stamped c now)) s = ((\<lparr>Execute = False, Unknown = False, dc_Claim = stamped c t0\<rparr>, None), s)"
  using assms
  by (simp add: replay_claim_def run_on_followed_by readClaim_found unless_tombstoned_open ReadOutcome_found validClaim_def)

abbreviation recorded :: "effect_outcome \<Rightarrow> effect_claim \<Rightarrow> go_time \<Rightarrow> effect_outcome" where
  "recorded r c now \<equiv> r\<lparr>oc_RunUID := cl_RunUID c, oc_SchemaVersion := LedgerSchema, oc_RecordedAt := now\<rparr>"

text \<open>What a claim and an outcome must have in common, and what makes the outcome writable and readable.\<close>

definition outcome_for :: "effect_claim \<Rightarrow> effect_outcome \<Rightarrow> bool" where
  "outcome_for c r \<longleftrightarrow> validOutcome r \<and> oc_EffectKey r = cl_EffectKey c \<and> oc_RequestDigest r = cl_RequestDigest c \<and>
     (oc_RunUID r = [] \<or> oc_RunUID r = cl_RunUID c) \<and> string_ok (oc_ResultRef r) \<and> length (oc_ResultRef r) \<le> 8192"

definition writable_claim :: "effect_claim \<Rightarrow> bool" where
  "writable_claim c \<longleftrightarrow> validClaim c \<and> utf8_valid (cl_Operation c) \<and> utf8_valid (cl_RunUID c)"

lemma stamped_body:
  assumes "writable_claim c" and "time_valid now" and "\<not> IsZero now"
  obtains body where "canonicalJSON (marshal_claim (stamped c now)) = Inr body" "DecodeClaim body = Inr (stamped c now)"
  using claim_decoded [of "stamped c now"] assms by (auto simp: writable_claim_def validClaim_def)

lemma recorded_body:
  assumes "writable_claim c" and "outcome_for c r" and "time_valid now" and "\<not> IsZero now"
  obtains body where "canonicalJSON (marshal_outcome (recorded r c now)) = Inr body" "DecodeOutcome body = Inr (recorded r c now)"
proof -
  let ?r = "recorded r c now"
  have v: "validOutcome ?r" using assms(2) by (auto simp: outcome_for_def validOutcome_def)
  have u: "string_ok (cl_RunUID c)" "length (cl_RunUID c) \<le> 128"
    using assms(1) identifier_string_ok by (auto simp: writable_claim_def validClaim_def safeIdentifier_def)
  have f: "string_ok (oc_ResultRef ?r)" "length (oc_ResultRef ?r) \<le> 8192" using assms(2) by (simp_all add: outcome_for_def)
  obtain body where b: "canonicalJSON (marshal_outcome ?r) = Inr body" "length body \<le> 6 * length (oc_ResultRef ?r) + 12000"
    using outcome_encodes [OF v _ _ f(1)] u assms(3) by auto
  then have "length body \<le> MaxLedgerBodyBytes" using f(2) unfolding MaxLedgerBodyBytes_def by linarith
  then show ?thesis using that [OF b(1)] outcome_decoded [OF v _ _ f(1) _ _ b(1)] u(1) assms(3,4) by simp
qed

lemma Commit_fresh:
  assumes "writable_claim c" and "outcome_for c r" and "\<not> IsZero now"
    and "canonicalJSON (marshal_outcome (recorded r c now)) = Inr body"
    and "s (tombstoneKey p (cl_EffectKey c)) = None" and "s (claimKey p (cl_EffectKey c)) = Some (b, t)"
    and "DecodeClaim b = Inr (stamped c t0)" and "s (outcomeKey p (cl_EffectKey c)) = None"
  shows "run_on tag (Commit p now r) s = (None, s(outcomeKey p (cl_EffectKey c) \<mapsto> (body, tag body)))"
  using assms
  by (auto simp: Commit_def Let_def run_on_followed_by unless_tombstoned_open readClaim_found outcome_for_def writable_claim_def validClaim_def)

lemma Commit_again:
  assumes "writable_claim c" and "outcome_for c r" and "\<not> IsZero now"
    and "canonicalJSON (marshal_outcome (recorded r c now)) = Inr body"
    and "s (tombstoneKey p (cl_EffectKey c)) = None" and "s (claimKey p (cl_EffectKey c)) = Some (b, t)"
    and "DecodeClaim b = Inr (stamped c t0)" and "s (outcomeKey p (cl_EffectKey c)) = Some (b', t')"
    and "DecodeOutcome b' = Inr (recorded r c t1)"
  shows "run_on tag (Commit p now r) s = (None, s)"
  using assms
  by (auto simp: Commit_def replay_commit_def Let_def run_on_followed_by unless_tombstoned_open readClaim_found ReadOutcome_found
      outcome_for_def writable_claim_def validClaim_def)

lemma Claim_fenced:
  "validClaim c \<Longrightarrow> s (tombstoneKey p (cl_EffectKey c)) = Some (b, t) \<Longrightarrow> DecodeTombstone b = Inr x \<Longrightarrow> tb_EffectKey x = cl_EffectKey c \<Longrightarrow>
     run_on tag (Claim p now c) s = (unknown_claim c, s)"
  unfolding Claim_def by (simp add: unless_tombstoned_fenced validClaim_def)

lemma Commit_fenced:
  "validOutcome r \<Longrightarrow> s (tombstoneKey p (oc_EffectKey r)) = Some (b, t) \<Longrightarrow> DecodeTombstone b = Inr x \<Longrightarrow> tb_EffectKey x = oc_EffectKey r \<Longrightarrow>
     run_on tag (Commit p now r) s = (Some ErrUnknown, s)"
  unfolding Commit_def by (simp add: unless_tombstoned_fenced validOutcome_def)

text \<open>The calls of one effect in sequence.\<close>

lemma lifecycle_runs:
  assumes "writable_claim c" and "outcome_for c r" and "oc_State r \<noteq> OutcomeUnknown"
    and "list_all (\<lambda>t. time_valid t \<and> \<not> IsZero t) [t0, t1, t2, t3, t4]"
    and "s (claimKey p (cl_EffectKey c)) = None" and "s (outcomeKey p (cl_EffectKey c)) = None"
    and "s (tombstoneKey p (cl_EffectKey c)) = None"
  shows "\<exists>b0 b2 s1 s2. s1 = s(claimKey p (cl_EffectKey c) \<mapsto> (b0, tag b0)) \<and>
    s2 = s1(outcomeKey p (cl_EffectKey c) \<mapsto> (b2, tag b2)) \<and>
    run_on tag (Claim p t0 c) s = ((\<lparr>Execute = True, Unknown = False, dc_Claim = stamped c t0\<rparr>, None), s1) \<and>
    run_on tag (Claim p t1 c) s1 = (unknown_claim (stamped c t0), s1) \<and>
    run_on tag (Commit p t2 r) s1 = (None, s2) \<and>
    run_on tag (Commit p t3 r) s2 = (None, s2) \<and>
    run_on tag (Claim p t4 c) s2 = ((\<lparr>Execute = False, Unknown = False, dc_Claim = stamped c t0\<rparr>, None), s2)"
proof -
  let ?e = "cl_EffectKey c"
  have v: "validClaim c" using assms(1) by (simp add: writable_claim_def)
  have t: "time_valid t0" "\<not> IsZero t0" "time_valid t1" "\<not> IsZero t1" "time_valid t2" "\<not> IsZero t2"
    "time_valid t3" "\<not> IsZero t3" "time_valid t4" "\<not> IsZero t4" using assms(4) by simp_all
  obtain b0 where b0: "canonicalJSON (marshal_claim (stamped c t0)) = Inr b0" "DecodeClaim b0 = Inr (stamped c t0)"
    using stamped_body [OF assms(1) t(1,2)] .
  obtain b1 where b1: "canonicalJSON (marshal_claim (stamped c t1)) = Inr b1" using stamped_body [OF assms(1) t(3,4)] .
  obtain b4 where b4: "canonicalJSON (marshal_claim (stamped c t4)) = Inr b4" using stamped_body [OF assms(1) t(9,10)] .
  obtain b2 where b2: "canonicalJSON (marshal_outcome (recorded r c t2)) = Inr b2" "DecodeOutcome b2 = Inr (recorded r c t2)"
    using recorded_body [OF assms(1,2) t(5,6)] .
  obtain b3 where b3: "canonicalJSON (marshal_outcome (recorded r c t3)) = Inr b3" using recorded_body [OF assms(1,2) t(7,8)] .
  define s1 where "s1 = s(claimKey p ?e \<mapsto> (b0, tag b0))"
  define s2 where "s2 = s1(outcomeKey p ?e \<mapsto> (b2, tag b2))"
  have f1: "s1 (tombstoneKey p ?e) = None" "s1 (claimKey p ?e) = Some (b0, tag b0)" "s1 (outcomeKey p ?e) = None"
    using assms(6,7) by (simp_all add: s1_def)
  then have f2: "s2 (tombstoneKey p ?e) = None" "s2 (claimKey p ?e) = Some (b0, tag b0)" "s2 (outcomeKey p ?e) = Some (b2, tag b2)"
    by (simp_all add: s2_def)
  have r: "oc_EffectKey (recorded r c t2) = ?e" "oc_RequestDigest (recorded r c t2) = cl_RequestDigest c"
    "oc_State (recorded r c t2) \<noteq> OutcomeUnknown" using assms(2,3) by (simp_all add: outcome_for_def)
  have "run_on tag (Claim p t0 c) s = ((\<lparr>Execute = True, Unknown = False, dc_Claim = stamped c t0\<rparr>, None), s1)"
    unfolding s1_def by (rule Claim_fresh [where s = s and p = p, OF v t(2) b0(1) assms(7,5)])
  moreover have "run_on tag (Claim p t1 c) s1 = (unknown_claim (stamped c t0), s1)"
    using Claim_again [where s = s1 and p = p, OF v t(4) b1 f1(1)] replay_claim_pending [where s = s1 and p = p, OF v f1(1,2) b0(2) f1(3)] f1(2) by simp
  moreover have "run_on tag (Commit p t2 r) s1 = (None, s2)"
    unfolding s2_def by (rule Commit_fresh [where s = s1 and p = p, OF assms(1,2) t(6) b2(1) f1(1,2) b0(2) f1(3)])
  moreover have "run_on tag (Commit p t3 r) s2 = (None, s2)"
    by (rule Commit_again [where s = s2 and p = p, OF assms(1,2) t(8) b3 f2(1,2) b0(2) f2(3) b2(2)])
  moreover have "run_on tag (Claim p t4 c) s2 = ((\<lparr>Execute = False, Unknown = False, dc_Claim = stamped c t0\<rparr>, None), s2)"
    using Claim_again [where s = s2 and p = p, OF v t(10) b4 f2(1)] replay_claim_done [where s = s2 and p = p, OF v f2(1,2) b0(2) f2(3) b2(2) r] f2(2) by simp
  ultimately show ?thesis using s1_def s2_def by blast
qed

lemma sample_calls:
  "writable_claim sample_claim" "outcome_for sample_claim (sample_outcome ''ref'')" "oc_State (sample_outcome ''ref'') \<noteq> OutcomeUnknown"
  using sample_records_ok
  by (simp_all add: writable_claim_def outcome_for_def sample_claim_def sample_outcome_def string_ok_ascii maxStringBytes_def validOutcome_def validClaim_def)

lemma sample_calls_run:
  "\<exists>b0 b2 s1 s2. s1 = Map.empty(claimKey p (cl_EffectKey sample_claim) \<mapsto> (b0, tag b0)) \<and>
     s2 = s1(outcomeKey p (cl_EffectKey sample_claim) \<mapsto> (b2, tag b2)) \<and>
     run_on tag (Claim p sample_time sample_claim) Map.empty =
      ((\<lparr>Execute = True, Unknown = False, dc_Claim = sample_claim\<rparr>, None), s1) \<and>
     run_on tag (Claim p sample_time sample_claim) s1 = (unknown_claim sample_claim, s1) \<and>
     run_on tag (Commit p sample_time (sample_outcome ''ref'')) s1 = (None, s2)"
proof -
  have s: "stamped sample_claim sample_time = sample_claim" by (simp add: sample_claim_def)
  show ?thesis
    using lifecycle_runs [OF sample_calls, of sample_time sample_time sample_time sample_time sample_time Map.empty p tag] sample_records_ok(3,4)
    unfolding s by simp blast
qed

section \<open>A history\<close>

text \<open>A client that runs alone completes its call.\<close>

lemma client_continues:
  "store_steps s as s' \<Longrightarrow> ledger_reachable store_step p S \<Longrightarrow> sys_store S = s \<Longrightarrow> sys_clients S i = Some (job, bs) \<Longrightarrow>
     resume (job_program p job) (bs @ as) \<noteq> None \<Longrightarrow>
     ledger_reachable store_step p (S\<lparr>sys_store := s', sys_clients := (sys_clients S)(i \<mapsto> (job, bs @ as))\<rparr>)"
proof (induction arbitrary: S bs rule: store_steps.induct)
  case (no_action s)
  then have "S\<lparr>sys_store := s, sys_clients := (sys_clients S)(i \<mapsto> (job, bs @ []))\<rparr> = S" by (cases S) (auto simp: fun_upd_idem)
  then show ?case using no_action(1) by (simp only:)
next
  case (action s a s' as s'')
  let ?S = "S\<lparr>sys_store := s', sys_clients := (sys_clients S)(i \<mapsto> (job, bs @ [a]))\<rparr>"
  have "resume (job_program p job) (bs @ [a]) \<noteq> None"
    using action.prems(4) resume_append [of "job_program p job" "bs @ [a]" as] by (auto split: option.splits)
  then have "ledger_reachable store_step p ?S"
    using action.prems(1,2,3) action.hyps(1) by (auto intro: ledger_reachable.step client_acts)
  then show ?case using action.IH [of ?S "bs @ [a]"] action.prems(4) by (simp cong: if_cong)
qed

lemma client_completes:
  assumes "ledger_reachable store_step p S" and "sys_clients S i = None" and "job_ok p job" and "store_steps (sys_store S) as s'"
    and "resume (job_program p job) as \<noteq> None"
  shows "ledger_reachable store_step p (S\<lparr>sys_store := s', sys_clients := (sys_clients S)(i \<mapsto> (job, as))\<rparr>)"
proof -
  let ?S = "S\<lparr>sys_clients := (sys_clients S)(i \<mapsto> (job, []))\<rparr>"
  have "ledger_reachable store_step p ?S" using assms(1-3) by (auto intro: ledger_reachable.step client_starts)
  then show ?thesis using client_continues [OF assms(4), of p ?S i job "[]"] assms(5) by (simp cong: if_cong)
qed

text \<open>The plan that retires the sample effect.\<close>

definition sample_pair :: "string \<Rightarrow> ledger_pair_plan" where
  "sample_pair body =
     \<lparr>lp_EffectKey = sample_digest (CHR ''a''), lp_RunUID = ''run'', lp_Claim = sample_claim, lp_Outcome = sample_outcome ''ref'',
      lp_ClaimKey = claimKey ''a/e'' (sample_digest (CHR ''a'')), lp_OutcomeKey = outcomeKey ''a/e'' (sample_digest (CHR ''a'')),
      lp_ClaimETag = ''t'', lp_OutcomeETag = ''t'', lp_Tombstone = sample_tombstone,
      lp_TombstoneKey = tombstoneKey ''a/e'' (sample_digest (CHR ''a'')), lp_TombstoneBody = body, lp_TombstoneExists = False\<rparr>"

definition sample_plan :: "string \<Rightarrow> retention_plan" where
  "sample_plan body =
     (let plan = \<lparr>pl_DryRun = False, pl_ArtifactCutoff = 0, pl_WorktreeCutoff = 0, pl_LedgerCutoff = 0, pl_Actions = [],
        pl_LedgerPairs = [sample_pair body], pl_Skipped = []\<rparr>; as = pair_actions plan (sample_pair body)
      in plan\<lparr>pl_Actions := [fst as, snd as]\<rparr>)"

definition sample_config :: applier_config where
  "sample_config = \<lparr>ac_ObjectPrefix = ''a'', ac_LedgerPrefix = ''e'', ac_MaxActions = 256, ac_Enforce = True, ac_DryRun = False,
     ac_LifecycleAttested = True\<rparr>"

lemma sample_root: "ledgerRoot ''a'' ''e'' = ''a/e/''"
  by (simp add: ledgerRoot_def trim_suffix_def has_suffix_def trim_byte_def trim_left_byte_def trim_right_byte_def)

lemma sample_keys_parsed:
  "parseLedgerObjectKey ''a'' ''e'' (claimKey ''a/e'' (sample_digest (CHR ''a''))) = Some (''claims'', sample_digest (CHR ''a''))"
  "parseLedgerObjectKey ''a'' ''e'' (outcomeKey ''a/e'' (sample_digest (CHR ''a''))) = Some (''outcomes'', sample_digest (CHR ''a''))"
  "parseLedgerObjectKey ''a'' ''e'' (tombstoneKey ''a/e'' (sample_digest (CHR ''a''))) = Some (TombstonesSegment, sample_digest (CHR ''a''))"
proof -
  have h: "replicate 64 (CHR ''a'') = ''aaaaaaaaaaaaaaaaaaaaaaaaaaaaaaaaaaaaaaaaaaaaaaaaaaaaaaaaaaaaaaaa''" by (simp add: eval_nat_numeral)
  note evaluate = parseLedgerObjectKey_def sample_root validateObjectKey_def ascii_valid has_prefix_def has_suffix_def path_clean_def
    segment_byte_def trim_prefix_def trim_suffix_def isLowerHex_def lower_hex_def claimKey_def outcomeKey_def tombstoneKey_def
    digestHex_def sample_digest_def h
  show "parseLedgerObjectKey ''a'' ''e'' (claimKey ''a/e'' (sample_digest (CHR ''a''))) = Some (''claims'', sample_digest (CHR ''a''))"
    "parseLedgerObjectKey ''a'' ''e'' (outcomeKey ''a/e'' (sample_digest (CHR ''a''))) = Some (''outcomes'', sample_digest (CHR ''a''))"
    "parseLedgerObjectKey ''a'' ''e'' (tombstoneKey ''a/e'' (sample_digest (CHR ''a''))) = Some (TombstonesSegment, sample_digest (CHR ''a''))"
    by (simp_all add: evaluate)
qed

lemma sample_config_normal: "normalized_config sample_config = Inr sample_config"
  by (simp add: normalized_config_def sample_config_def validateObjectKey_def ascii_valid has_prefix_def has_suffix_def path_clean_def
      segment_byte_def trim_suffix_def)

lemma sample_job_ok: "job_ok ''a/e'' (ApplyJob True plan sample_config)"
  using sample_root unfolding job_ok.simps config_for_def sample_config_normal
  by (simp add: sample_config_def trim_byte_def trim_left_byte_def trim_right_byte_def has_prefix_def)

lemma sample_plan_valid:
  assumes "DecodeTombstone body = Inr sample_tombstone"
  shows "validateLedgerPlan (sample_plan body) sample_config = None"
proof -
  have b: "body \<noteq> []" "length body \<le> MaxLedgerBodyBytes"
    using assms by (auto simp: DecodeTombstone_def decodeStrict_def split: if_splits option.splits)
  have "pair_well_formed (sample_pair body)"
    using sample_records_ok(1) b by (simp add: pair_well_formed_def sample_pair_def sample_claim_def sample_outcome_def)
  moreover have "pair_keys_ok sample_config (sample_pair body)"
    using sample_keys_parsed by (simp add: pair_keys_ok_def sample_pair_def sample_config_def)
  moreover have "pair_tombstone_ok (sample_pair body)"
    using assms sample_records_ok(4)
    by (simp add: pair_tombstone_ok_def sameTombstoneIdentity_def sample_pair_def sample_tombstone_def sample_claim_def sample_outcome_def)
  moreover have "sample_digest (CHR ''a'') \<noteq> []" by (simp add: sample_digest_def)
  ultimately show ?thesis
    by (simp add: validateLedgerPlan_def sample_plan_def Let_def pair_actions_def pair_actions_ok_def actionMode_def)
      (simp add: sample_pair_def sample_config_def)
qed

lemma sample_retirement:
  assumes "s (claimKey ''a/e'' (sample_digest (CHR ''a''))) = Some (b0, ''t'')" "s (outcomeKey ''a/e'' (sample_digest (CHR ''a''))) = Some (b2, ''t'')"
    "s (tombstoneKey ''a/e'' (sample_digest (CHR ''a''))) = None" and "DecodeTombstone tb = Inr sample_tombstone"
  shows "\<exists>cs s'. resume (job_program ''a/e'' (ApplyJob True (sample_plan tb) sample_config)) cs \<noteq> None \<and>
    store_steps s cs s' \<and> ADelete (claimKey ''a/e'' (sample_digest (CHR ''a''))) ''t'' Deleted \<in> set cs"
proof -
  let ?K = "claimKey ''a/e'' (sample_digest (CHR ''a''))" and ?O = "outcomeKey ''a/e'' (sample_digest (CHR ''a''))"
    and ?T = "tombstoneKey ''a/e'' (sample_digest (CHR ''a''))"
  let ?cs = "[ACreate ?T tb Created, ADelete ?O ''t'' Deleted, ADelete ?K ''t'' Deleted]"
  obtain a b where plan: "pl_Actions (sample_plan tb) = [a, b]" "ra_PairKey a \<noteq> []" "ra_PairKey b \<noteq> []" "\<not> pl_DryRun (sample_plan tb)"
      "pl_LedgerPairs (sample_plan tb) = [sample_pair tb]"
    by (simp add: sample_plan_def Let_def pair_actions_def sample_pair_def sample_digest_def)
  have "ac_MaxActions sample_config = 256" "ac_Enforce sample_config" "\<not> ac_DryRun sample_config" "ac_LifecycleAttested sample_config"
    by (simp_all add: sample_config_def)
  then have "resume (job_program ''a/e'' (ApplyJob True (sample_plan tb) sample_config)) ?cs \<noteq> None"
    using plan sample_plan_valid [OF assms(4)]
    by (simp add: Apply_plan_def sample_config_normal apply_one_def applyLedgerPair_def Let_def ensureLedgerTombstone_def delete_pair_def
        delete_pair_claim_def sample_pair_def actionMode_def)
  moreover have "store_step s (ACreate ?T tb Created) (s(?T \<mapsto> (tb, ''t'')))"
    "store_step (s(?T \<mapsto> (tb, ''t''))) (ADelete ?O ''t'' Deleted) (s(?T \<mapsto> (tb, ''t''), ?O := None))"
    "store_step (s(?T \<mapsto> (tb, ''t''), ?O := None)) (ADelete ?K ''t'' Deleted) (s(?T \<mapsto> (tb, ''t''), ?O := None, ?K := None))"
    using assms by (auto intro: create_new delete_done)
  then have "store_steps s ?cs (s(?T \<mapsto> (tb, ''t''), ?O := None, ?K := None))" by (blast intro: action no_action)
  moreover have "ADelete ?K ''t'' Deleted \<in> set ?cs" by simp
  ultimately show ?thesis by blast
qed

text \<open>A claim that executes, a second claim, the commit and the retirement, by four clients.\<close>

lemma sample_history:
  "\<exists>S as bs cs plan. ledger_reachable store_step ''a/e'' S \<and>
     sys_clients S 0 = Some (ClaimJob sample_time sample_claim, as) \<and>
     executes ''a/e'' (ClaimJob sample_time sample_claim) as (sample_digest (CHR ''a'')) \<and>
     sys_clients S 1 = Some (ClaimJob sample_time sample_claim, bs) \<and>
     sys_clients S 2 = Some (ApplyJob True plan sample_config, cs) \<and>
     ADelete (claimKey ''a/e'' (sample_digest (CHR ''a''))) ''t'' Deleted \<in> set cs"
proof -
  let ?p = "''a/e''" and ?e = "sample_digest (CHR ''a'')" and ?tag = "\<lambda>_. ''t''" and ?job = "ClaimJob sample_time sample_claim"
  let ?K = "claimKey ?p ?e" and ?O = "outcomeKey ?p ?e" and ?T = "tombstoneKey ?p ?e" and ?R = "CommitJob sample_time (sample_outcome ''ref'')"
  have e: "cl_EffectKey sample_claim = ?e" by (simp add: sample_claim_def)
  obtain b0 b2 s1 s2 where s: "s1 = Map.empty(?K \<mapsto> (b0, ''t''))" "s2 = s1(?O \<mapsto> (b2, ''t''))"
    and r0: "run_on ?tag (Claim ?p sample_time sample_claim) Map.empty = ((\<lparr>Execute = True, Unknown = False, dc_Claim = sample_claim\<rparr>, None), s1)"
    and r1: "run_on ?tag (Claim ?p sample_time sample_claim) s1 = (unknown_claim sample_claim, s1)"
    and r2: "run_on ?tag (Commit ?p sample_time (sample_outcome ''ref'')) s1 = (None, s2)"
    using sample_calls_run [of ?p ?tag] unfolding e by blast
  obtain tb where tb: "DecodeTombstone tb = Inr sample_tombstone"
    using tombstone_decoded [of sample_tombstone] sample_records_ok by (auto simp: sample_tombstone_def)
  let ?J = "ApplyJob True (sample_plan tb) sample_config"
  obtain as where as: "resume (job_program ?p ?job) as = Some (Done (ClaimDone (\<lparr>Execute = True, Unknown = False, dc_Claim = sample_claim\<rparr>, None)))"
    "store_steps Map.empty as s1" using run_on_steps [of "job_program ?p ?job" ?tag Map.empty] r0 by (auto simp: run_on_followed_by)
  obtain bs where bs: "resume (job_program ?p ?job) bs \<noteq> None" "store_steps s1 bs s1"
    using run_on_steps [of "job_program ?p ?job" ?tag s1] r1 by (auto simp: run_on_followed_by)
  obtain ds where ds: "resume (job_program ?p ?R) ds \<noteq> None" "store_steps s1 ds s2"
    using run_on_steps [of "job_program ?p ?R" ?tag s1] r2 by (auto simp: run_on_followed_by)
  obtain cs s3 where cs: "resume (job_program ?p ?J) cs \<noteq> None" "store_steps s2 cs s3" "ADelete ?K ''t'' Deleted \<in> set cs"
    using sample_retirement [of s2 b0 b2 tb] s tb by auto
  let ?S0 = "\<lparr>sys_store = Map.empty, sys_clients = Map.empty\<rparr> :: object_store ledger_system"
  let ?S1 = "?S0\<lparr>sys_store := s1, sys_clients := (sys_clients ?S0)(0 \<mapsto> (?job, as))\<rparr>"
  let ?S2 = "?S1\<lparr>sys_store := s1, sys_clients := (sys_clients ?S1)(1 \<mapsto> (?job, bs))\<rparr>"
  let ?S3 = "?S2\<lparr>sys_store := s2, sys_clients := (sys_clients ?S2)(3 \<mapsto> (?R, ds))\<rparr>"
  let ?S4 = "?S3\<lparr>sys_store := s3, sys_clients := (sys_clients ?S3)(2 \<mapsto> (?J, cs))\<rparr>"
  have "ledger_reachable store_step ?p ?S0" by (rule no_clients) simp
  then have "ledger_reachable store_step ?p ?S1" by (rule client_completes) (use as in simp_all)
  then have "ledger_reachable store_step ?p ?S2" by (rule client_completes) (use bs in simp_all)
  then have "ledger_reachable store_step ?p ?S3" by (rule client_completes) (use ds in simp_all)
  then have "ledger_reachable store_step ?p ?S4" by (rule client_completes) (use cs sample_job_ok in simp_all)
  moreover have "sys_clients ?S4 0 = Some (?job, as)" "sys_clients ?S4 1 = Some (?job, bs)" "sys_clients ?S4 2 = Some (?J, cs)" by simp_all
  moreover have "executes ?p ?job as ?e" using as(1) e by (auto simp: executes_def)
  ultimately show ?thesis using cs(3) by blast
qed

section \<open>Properties\<close>

text \<open>
  C5. One effect from claim to replay, on a store that holds nothing of it yet, for a well-formed settled outcome
  (UTF-8 texts, a result reference of at most 8192 bytes, a state other than unknown). The first claim may execute;
  a second claim before the outcome is reported unknown; the outcome commits; the same commit again
  succeeds; and a claim after that is a replay that returns the stored claim, neither executing nor
  unknown. The repeated calls leave the store as it is.
\<close>

theorem effect_lifecycle:
  assumes "writable_claim c" and "outcome_for c r" and "oc_State r \<noteq> OutcomeUnknown"
    and "list_all (\<lambda>t. time_valid t \<and> \<not> IsZero t) [t0, t1, t2, t3, t4]"
    and "s (claimKey p (cl_EffectKey c)) = None" and "s (outcomeKey p (cl_EffectKey c)) = None"
    and "s (tombstoneKey p (cl_EffectKey c)) = None"
  shows "\<exists>s1 s2. run_on tag (Claim p t0 c) s = ((\<lparr>Execute = True, Unknown = False, dc_Claim = stamped c t0\<rparr>, None), s1) \<and>
    run_on tag (Claim p t1 c) s1 = (unknown_claim (stamped c t0), s1) \<and>
    run_on tag (Commit p t2 r) s1 = (None, s2) \<and>
    run_on tag (Commit p t3 r) s2 = (None, s2) \<and>
    run_on tag (Claim p t4 c) s2 = ((\<lparr>Execute = False, Unknown = False, dc_Claim = stamped c t0\<rparr>, None), s2)"
  using lifecycle_runs [OF assms] by blast

theorem effect_lifecycle_witness:
  "\<exists>s1 s2. run_on id (Claim ''effects'' sample_time sample_claim) Map.empty =
      ((\<lparr>Execute = True, Unknown = False, dc_Claim = sample_claim\<rparr>, None), s1) \<and>
    run_on id (Claim ''effects'' sample_time sample_claim) s1 = (unknown_claim sample_claim, s1) \<and>
    run_on id (Commit ''effects'' sample_time (sample_outcome ''ref'')) s1 = (None, s2) \<and>
    run_on id (Commit ''effects'' sample_time (sample_outcome ''ref'')) s2 = (None, s2) \<and>
    run_on id (Claim ''effects'' sample_time sample_claim) s2 = ((\<lparr>Execute = False, Unknown = False, dc_Claim = sample_claim\<rparr>, None), s2)"
proof -
  have s: "stamped sample_claim sample_time = sample_claim" by (simp add: sample_claim_def)
  show ?thesis
    using effect_lifecycle [OF sample_calls, of sample_time sample_time sample_time sample_time sample_time Map.empty] sample_records_ok(3,4) unfolding s by simp
qed

text \<open>The plan of a pair with the keys of the ledger and the entity tags of the stored records.\<close>

definition plan_for :: "string \<Rightarrow> (string \<Rightarrow> string) \<Rightarrow> object_store \<Rightarrow> string \<Rightarrow> ledger_pair_plan \<Rightarrow> bool" where
  "plan_for p tag s e pair \<longleftrightarrow> lp_ClaimKey pair = claimKey p e \<and> lp_OutcomeKey pair = outcomeKey p e \<and>
     lp_TombstoneKey pair = tombstoneKey p e \<and> \<not> lp_TombstoneExists pair \<and>
     map_option snd (s (claimKey p e)) = Some (lp_ClaimETag pair) \<and> map_option snd (s (outcomeKey p e)) = Some (lp_OutcomeETag pair) \<and>
     s (tombstoneKey p e) = None"

text \<open>
  C6. Retiring a planned pair deletes exactly its two records and leaves its tombstone, and from then on a
  claim of the effect is answered as unknown and a commit is refused, with nothing written.
\<close>

theorem retired_effect_fenced:
  assumes "plan_for p tag s e pair" and "\<not> pl_DryRun plan" and "\<not> ac_DryRun cfg" and "ac_Enforce cfg" and "ac_LifecycleAttested cfg"
    and "DecodeTombstone (lp_TombstoneBody pair) = Inr t" and "tb_EffectKey t = e"
    and "validClaim c" and "cl_EffectKey c = e" and "validOutcome r" and "oc_EffectKey r = e"
  shows "\<exists>report s'. run_on tag (applyLedgerPair True pair plan cfg) s = ((report, None), s') \<and> pr_Deleted report = 2 \<and>
    s' = s(tombstoneKey p e \<mapsto> (lp_TombstoneBody pair, tag (lp_TombstoneBody pair)), outcomeKey p e := None, claimKey p e := None) \<and>
    run_on tag (Claim p now c) s' = (unknown_claim c, s') \<and> run_on tag (Commit p now r) s' = (Some ErrUnknown, s')"
proof -
  let ?s = "s(tombstoneKey p e \<mapsto> (lp_TombstoneBody pair, tag (lp_TombstoneBody pair)), outcomeKey p e := None, claimKey p e := None)"
  obtain cb ob where o: "s (claimKey p e) = Some (cb, lp_ClaimETag pair)" "s (outcomeKey p e) = Some (ob, lp_OutcomeETag pair)"
    using assms(1) by (auto simp: plan_for_def)
  have "\<exists>report. run_on tag (applyLedgerPair True pair plan cfg) s = ((report, None), ?s) \<and> pr_Deleted report = 2"
    using assms(1-5) o
    by (simp add: applyLedgerPair_def Let_def run_on_followed_by ensureLedgerTombstone_def delete_pair_def delete_pair_claim_def
        plan_for_def actionMode_def gone_def)
  moreover have "?s (tombstoneKey p e) = Some (lp_TombstoneBody pair, tag (lp_TombstoneBody pair))" by simp
  then have "run_on tag (Claim p now c) ?s = (unknown_claim c, ?s)" "run_on tag (Commit p now r) ?s = (Some ErrUnknown, ?s)"
    using assms(6-11) Claim_fenced [of c ?s p] Commit_fenced [of r ?s p] by simp_all
  ultimately show ?thesis by blast
qed

theorem retired_effect_fenced_witness:
  "\<exists>body report s'. run_on (\<lambda>_. ''t'') (applyLedgerPair True (sample_pair body) (sample_plan body) sample_config)
      (Map.empty(claimKey ''a/e'' (sample_digest (CHR ''a'')) \<mapsto> (''c'', ''t''), outcomeKey ''a/e'' (sample_digest (CHR ''a'')) \<mapsto> (''r'', ''t''))) =
      ((report, None), s') \<and> pr_Deleted report = 2 \<and>
    run_on (\<lambda>_. ''t'') (Claim ''a/e'' sample_time sample_claim) s' = (unknown_claim sample_claim, s')"
proof -
  obtain body where b: "DecodeTombstone body = Inr sample_tombstone"
    using tombstone_decoded [of sample_tombstone] sample_records_ok by (auto simp: sample_tombstone_def)
  have p: "plan_for ''a/e'' (\<lambda>_. ''t'') (Map.empty(claimKey ''a/e'' (sample_digest (CHR ''a'')) \<mapsto> (''c'', ''t''),
      outcomeKey ''a/e'' (sample_digest (CHR ''a'')) \<mapsto> (''r'', ''t''))) (sample_digest (CHR ''a'')) (sample_pair body)"
    by (simp add: plan_for_def sample_pair_def)
  have f: "DecodeTombstone (lp_TombstoneBody (sample_pair body)) = Inr sample_tombstone" using b by (simp add: sample_pair_def)
  show ?thesis
    using retired_effect_fenced [OF p _ _ _ _ f _ sample_records_ok(5) _ sample_records_ok(7), of "sample_plan body" sample_config "''ref''" sample_time]
    by (simp add: sample_plan_def sample_config_def sample_tombstone_def sample_claim_def sample_outcome_def Let_def) blast
qed

text \<open>
  C2. At most one client executes an effect. Any number of clients claim, commit and apply retention plans against one
  store, in any interleaving, with any operation failing before or after it took effect; the store only has to
  create conditionally and answer reads truthfully, and the appliers are configured on the ledger's own root, outside
  \<^verbatim>\<open>runs/\<close>. If one client was told to execute an effect, no other
  client ever is.
\<close>

theorem at_most_one_execution:
  assumes "conditional_store act content" and "ledger_reachable act p S"
    and "sys_clients S i = Some (job, as)" and "executes p job as e" and "sys_clients S j = Some (job', bs)" and "i \<noteq> j"
  shows "\<not> executes p job' bs e"
  using assms(2-6) by (rule conditional_store.one_execution [OF assms(1)])

theorem at_most_one_execution_witness:
  "\<exists>S bs. ledger_reachable store_step ''a/e'' S \<and> sys_clients S 1 = Some (ClaimJob sample_time sample_claim, bs) \<and>
     \<not> executes ''a/e'' (ClaimJob sample_time sample_claim) bs (sample_digest (CHR ''a''))"
  using sample_history at_most_one_execution [OF objects.conditional_store_axioms, of "''a/e''" _ 0 _ _ _ 1] by fastforce

text \<open>
  C3. Retirement never lets an effect run again. Once some client has tried to delete the claim or the outcome
  of an effect (an applier configured on the ledger's own root, outside \<^verbatim>\<open>runs/\<close>), whatever its deletion answered, every execution of the effect in any later state had been
  granted before.
\<close>

theorem retired_never_executes:
  assumes "conditional_store act content" and "ledger_reachable act p S"
    and "sys_clients S j = Some (job', bs)" and "ADelete k t r \<in> set bs" and "k = claimKey p e \<or> k = outcomeKey p e"
    and "(ledger_step act p)\<^sup>*\<^sup>* S S'" and "sys_clients S' i = Some (job, as)" and "executes p job as e"
  shows "sys_clients S i = Some (job, as)"
  using assms(2-8) by (rule conditional_store.retired_history [OF assms(1)])

theorem retired_never_executes_witness:
  "\<exists>S as. ledger_reachable store_step ''a/e'' S \<and>
     executes ''a/e'' (ClaimJob sample_time sample_claim) as (sample_digest (CHR ''a'')) \<and>
     sys_clients S 0 = Some (ClaimJob sample_time sample_claim, as)"
proof -
  obtain S as bs cs plan where h: "ledger_reachable store_step ''a/e'' S" "sys_clients S 0 = Some (ClaimJob sample_time sample_claim, as)"
    "executes ''a/e'' (ClaimJob sample_time sample_claim) as (sample_digest (CHR ''a''))"
    "sys_clients S 2 = Some (ApplyJob True plan sample_config, cs)"
    "ADelete (claimKey ''a/e'' (sample_digest (CHR ''a''))) ''t'' Deleted \<in> set cs" using sample_history by blast
  have "sys_clients S 0 = Some (ClaimJob sample_time sample_claim, as)"
    by (rule retired_never_executes [OF objects.conditional_store_axioms h(1,4,5) _ _ h(2,3)]) simp_all
  then show ?thesis using h by blast
qed

text \<open>
  C4. With appliers configured on the ledger's own root, outside \<^verbatim>\<open>runs/\<close>, a recorded claim or outcome is never
  overwritten: in every later state it has the same bytes, unless the
  tombstone of its effect exists, and a tombstone, once stored, stays as it is for ever.
\<close>

theorem records_immutable:
  assumes "conditional_store act content" and "ledger_reachable act p S" and "(ledger_step act p)\<^sup>*\<^sup>* S S'" and "ValidDigest e"
    and "k = claimKey p e \<or> k = outcomeKey p e \<or> k = tombstoneKey p e" and "content (sys_store S) k = Some b"
  shows "content (sys_store S') k = Some b \<or> k \<noteq> tombstoneKey p e \<and> content (sys_store S') (tombstoneKey p e) \<noteq> None"
  using assms(5,6) conditional_store.record_history [OF assms(1,3,2,4)] conditional_store.fenced_history [OF assms(1,3,2,4)]
  by (cases "k = tombstoneKey p e") auto

theorem records_immutable_witness:
  "\<exists>S S'. ledger_step store_step ''a/e'' S S' \<and> stored (sys_store S') (claimKey ''a/e'' (sample_digest (CHR ''a''))) = Some ''c''"
proof -
  let ?K = "claimKey ''a/e'' (sample_digest (CHR ''a''))" and ?job = "ClaimJob sample_time sample_claim"
  let ?S = "\<lparr>sys_store = Map.empty(?K \<mapsto> (''c'', ''t'')), sys_clients = Map.empty\<rparr> :: object_store ledger_system"
  let ?S' = "?S\<lparr>sys_clients := (sys_clients ?S)(0 \<mapsto> (?job, []))\<rparr>"
  have r: "ledger_reachable store_step ''a/e'' ?S" by (rule no_clients) simp
  have s: "ledger_step store_step ''a/e'' ?S ?S'" by (rule client_starts) simp_all
  have "stored (sys_store ?S') ?K = Some ''c'' \<or>
      ?K \<noteq> tombstoneKey ''a/e'' (sample_digest (CHR ''a'')) \<and> stored (sys_store ?S') (tombstoneKey ''a/e'' (sample_digest (CHR ''a''))) \<noteq> None"
    by (rule records_immutable [OF objects.conditional_store_axioms r _ sample_records_ok(1)]) (use s in \<open>auto simp: stored_def\<close>)
  then have "stored (sys_store ?S') ?K = Some ''c''" by (simp add: stored_def)
  then show ?thesis using s by blast
qed

end
