(* ===== verification/Retention_Plan.thy ===== *)
theory Retention_Plan
  imports Ledger_Retention
begin

text \<open>
  The retention planner, \<^verbatim>\<open>v3/internal/retention/retention.go\<close> and \<^verbatim>\<open>ledger.go\<close>: from a policy, the time and a
  complete inventory to a sorted and bounded list of deletions. The methods of \<^verbatim>\<open>Plan\<close> that append to the
  plan are functions from plan to plan. The time is given in UTC.
\<close>

section \<open>Runs\<close>

record artifact_ref =
  ref_URI :: string
  ref_Digest :: string

record effect_summary =
  es_Key :: string
  es_State :: string

text \<open>The fields of an \<^verbatim>\<open>AgentRun\<close> that retention reads; a patch has its reference and its manifest.\<close>

record agent_run =
  ar_Namespace :: string
  ar_Name :: string
  ar_UID :: string
  ar_SpecDigest :: string
  ar_BaseSHA :: string
  ar_Phase :: phase
  ar_CompletedAt :: "go_time option"
  ar_WorkSandboxRef :: "run_child option"
  ar_VerifySandboxRef :: "run_child option"
  ar_Children :: "run_child list"
  ar_ResolvedSpecRef :: "artifact_ref option"
  ar_ContextPackRef :: "artifact_ref option"
  ar_EventStreamRef :: "artifact_ref option"
  ar_Patch :: "(artifact_ref option \<times> artifact_ref option) option"
  ar_Gate :: "artifact_ref option option"
  ar_Artifacts :: "artifact_ref list"
  ar_Effect :: "effect_summary option"

definition artifactRefs :: "agent_run \<Rightarrow> artifact_ref option list" where
  "artifactRefs run =
     [ar_ResolvedSpecRef run, ar_ContextPackRef run, ar_EventStreamRef run] @
     (case ar_Patch run of None \<Rightarrow> [] | Some (r, m) \<Rightarrow> [r, m]) @
     (case ar_Gate run of None \<Rightarrow> [] | Some r \<Rightarrow> [r]) @ map Some (ar_Artifacts run)"

definition objectKeyFromURI :: "string \<Rightarrow> string" where
  "objectKeyFromURI v =
     (if \<not> has_prefix v ''s3://'' \<or> contains_any v [CHR 0x00, CHR 0x0D, CHR 0x0A, CHR ''?'', CHR ''#'', CHR ''@''] then []
      else let rest = trim_prefix v ''s3://''; slash = length (takeWhile (\<lambda>c. c \<noteq> CHR ''/'') rest)
           in if slash = 0 \<or> slash \<ge> length rest - 1 then []
              else let key = drop (slash + 1) rest in if validateObjectKey key False then key else [])"

definition FromAgentRun :: "(string \<Rightarrow> bool) \<Rightarrow> agent_run \<Rightarrow> retention_error + retention_run" where
  "FromAgentRun dns run =
     (let result =
        \<lparr>rr_Namespace = ar_Namespace run, rr_Name = ar_Name run, rr_UID = ar_UID run, rr_SpecDigest = ar_SpecDigest run,
         rr_BaseSHA = ar_BaseSHA run,
         rr_PatchDigest = (case ar_Patch run of Some (Some r, _) \<Rightarrow> ref_Digest r | _ \<Rightarrow> []),
         rr_Phase = ar_Phase run,
         rr_CompletedAt = (case ar_CompletedAt run of None \<Rightarrow> zero_time | Some t \<Rightarrow> t),
         rr_Children = (case ar_WorkSandboxRef run of None \<Rightarrow> [] | Some c \<Rightarrow> [c]) @
           (case ar_VerifySandboxRef run of None \<Rightarrow> [] | Some c \<Rightarrow> [c]) @ ar_Children run,
         rr_EvidenceFlushed = (ar_EventStreamRef run \<noteq> None),
         rr_RequiredObjectKeys = map (\<lambda>r. objectKeyFromURI (ref_URI r)) (List.map_filter id (artifactRefs run)),
         rr_LedgerFlushed = (case ar_Effect run of None \<Rightarrow> True
           | Some e \<Rightarrow> (es_State e = ''succeeded'' \<or> es_State e = ''failed'') \<and> ValidDigest (es_Key e)),
         rr_EffectKey = (case ar_Effect run of None \<Rightarrow> [] | Some e \<Rightarrow> es_Key e)\<rparr>
      in if \<not> validateRunIdentity dns result then Inl ErrInvalidRun
         else Inr (result\<lparr>rr_RequiredObjectKeys := uniqueStrings (rr_RequiredObjectKeys result)\<rparr>))"

text \<open>\<^verbatim>\<open>indexRuns\<close>: the runs by UID, the UIDs that repeat, and the plan with the invalid runs skipped.\<close>

fun indexRuns :: "(string \<Rightarrow> bool) \<Rightarrow> retention_run list \<Rightarrow> (string \<times> retention_run) list \<Rightarrow> string list \<Rightarrow> retention_plan \<Rightarrow>
    (string \<times> retention_run) list \<times> string list \<times> retention_plan" where
  "indexRuns dns [] runs dups plan = (runs, dups, plan)"
| "indexRuns dns (run # rest) runs dups plan =
     (if \<not> validateRunIdentity dns run then
        indexRuns dns rest runs dups (plan\<lparr>pl_Skipped := pl_Skipped plan @
          [\<lparr>sk_RunUID = rr_UID run, sk_Kind = AgentRunKind, sk_Namespace = rr_Namespace run, sk_Name = rr_Name run, sk_UID = [],
            sk_ObjectKey = [], sk_Reason = SkipInvalidRun\<rparr>]\<rparr>)
      else if map_of runs (rr_UID run) \<noteq> None then indexRuns dns rest runs (rr_UID run # dups) plan
      else indexRuns dns rest ((rr_UID run, run) # runs) dups plan)"

section \<open>Resources and artifacts\<close>

definition secret :: "(string \<Rightarrow> bool) \<Rightarrow> cluster_resource \<Rightarrow> retention_run \<Rightarrow> go_time \<Rightarrow> retention_plan \<Rightarrow> retention_plan" where
  "secret dns r run now plan =
     (let skip = (\<lambda>why. skipResource r (rr_UID run) why plan)
      in case terminalEligible run now 0 of Some why \<Rightarrow> skip why | None \<Rightarrow>
        if rs_Namespace r \<noteq> rr_Namespace run \<or> map_get (rs_Labels r) RunUIDLabelKey \<noteq> rr_UID run then skip SkipRunLabelMismatch
        else if map_get (rs_Labels r) ManagedByLabelKey \<noteq> RunSecretManagedBy then skip SkipManagedByMismatch
        else case requireSpecDigest r run of Some err \<Rightarrow> skip (specDigestSkipReason err) | None \<Rightarrow>
       (case requireRunOwner (rs_OwnerReferences r) run of Some err \<Rightarrow> skip (ownerSkipReason err) | None \<Rightarrow>
          if \<not> validateResourceIdentity dns r then skip SkipInvalidResource
          else add_action
            \<lparr>ra_Mode = actionMode plan, ra_RunUID = rr_UID run, ra_Role = ''credentials'', ra_PairKey = [],
             ra_Reason = ''terminal per-run credentials are no longer needed'', ra_Target = resource_target SecretKind r\<rparr> plan))"

definition workspacePVC :: "(string \<Rightarrow> bool) \<Rightarrow> cluster_resource \<Rightarrow> retention_run \<Rightarrow> go_time \<Rightarrow> string \<Rightarrow> string \<Rightarrow> string list \<Rightarrow>
    retention_plan \<Rightarrow> retention_plan" where
  "workspacePVC dns r run now objectPrefix ledgerPrefix objectKeys plan =
     (let skip = (\<lambda>why. skipResource r (rr_UID run) why plan)
      in case terminalEligible run now 0 of Some why \<Rightarrow> skip why | None \<Rightarrow>
        (case evidenceEligible run objectPrefix ledgerPrefix objectKeys of Some why \<Rightarrow> skip why | None \<Rightarrow>
         if instant (rr_CompletedAt run) > pl_WorktreeCutoff plan then skip SkipRetentionWindow
         else if rs_Namespace r \<noteq> rr_Namespace run \<or> map_get (rs_Labels r) RunUIDLabelKey \<noteq> rr_UID run then skip SkipRunLabelMismatch
         else if map_get (rs_Labels r) RoleLabelKey \<noteq> WorkRole then skip SkipRoleLabelMismatch
         else case workSandbox run of None \<Rightarrow> skip SkipWorkSandboxMissing | Some child \<Rightarrow>
        (case requireWorkspaceOwner (rs_OwnerReferences r) child run of Some err \<Rightarrow> skip (ownerSkipReason err) | None \<Rightarrow>
        (case requireSpecDigest r run of Some err \<Rightarrow> skip (specDigestSkipReason err) | None \<Rightarrow>
           if \<not> validateResourceIdentity dns r then skip SkipInvalidResource
           else add_action
             \<lparr>ra_Mode = actionMode plan, ra_RunUID = rr_UID run, ra_Role = WorkRole, ra_PairKey = [],
              ra_Reason = ''terminal worktree PVC exceeded retention window'',
              ra_Target = resource_target PersistentVolumeKind r\<rparr> plan))))"

definition artifact :: "stored_artifact \<Rightarrow> retention_run \<Rightarrow> string \<Rightarrow> string \<Rightarrow> string list \<Rightarrow> go_time \<Rightarrow> retention_plan \<Rightarrow> retention_plan" where
  "artifact a run objectPrefix ledgerPrefix objectKeys now plan =
     (let skip = (\<lambda>why. skipArtifact a why plan)
      in case terminalEligible run now 0 of Some why \<Rightarrow> skip why | None \<Rightarrow>
        if \<not> rr_EvidenceFlushed run then skip SkipEvidenceNotFlushed
        else case evidenceEligible run objectPrefix ledgerPrefix objectKeys of Some why \<Rightarrow> skip why | None \<Rightarrow>
          if IsZero (af_CreatedAt a) then skip SkipArtifactCreatedMissing
          else if After (af_CreatedAt a) now then skip SkipArtifactCreatedFuture
          else if instant (af_CreatedAt a) > pl_ArtifactCutoff plan then skip SkipArtifactYoung
          else if af_RunUID a \<noteq> rr_UID run then skip SkipArtifactRunMismatch
          else case validateArtifactKey objectPrefix (rr_UID run) (af_Key a) of
            Some err \<Rightarrow> skip (if err = ErrInvalidObjectKey then SkipArtifactKeyInvalid else SkipArtifactKeyMismatch)
          | None \<Rightarrow>
              if af_SizeBytes a < 0 then skip SkipInvalidResource
              else if af_ETag a = [] then skip SkipArtifactETagMissing
              else add_action
                \<lparr>ra_Mode = actionMode plan, ra_RunUID = rr_UID run, ra_Role = [], ra_PairKey = [],
                 ra_Reason = ''terminal artifact exceeded retention window'', ra_Target = object_target (af_Key a) (af_ETag a)\<rparr> plan)"

section \<open>Ledger pairs\<close>

record ledger_pair =
  pa_EffectKey :: string
  pa_Claim :: "(ledger_object \<times> effect_claim) option"
  pa_Outcome :: "(ledger_object \<times> effect_outcome) option"
  pa_Tombstone :: "(ledger_object \<times> effect_tombstone) option"

record ledger_tables =
  tb_claims :: "(string \<times> ledger_object \<times> effect_claim) list"
  tb_outcomes :: "(string \<times> ledger_object \<times> effect_outcome) list"
  tb_tombstones :: "(string \<times> ledger_object \<times> effect_tombstone) list"

text \<open>One entry of a table: refused if the effect has one already, if the body does not decode, or if it names another effect.\<close>

definition record_entry :: "(string \<times> 'r) list \<Rightarrow> string \<Rightarrow> ledger_error + 'v \<Rightarrow> ('v \<Rightarrow> string) \<Rightarrow> ('v \<Rightarrow> 'r) \<Rightarrow>
    retention_error + (string \<times> 'r) list" where
  "record_entry table e decoded effect_of entry =
     (if map_of table e \<noteq> None then Inl ErrLedgerInventory
      else case decoded of
        Inl _ \<Rightarrow> Inl ErrLedgerInventory
      | Inr v \<Rightarrow> if effect_of v \<noteq> e then Inl ErrLedgerInventory else Inr ((e, entry v) # table))"

definition index_object :: "retention_policy \<Rightarrow> ledger_object \<Rightarrow> ledger_tables \<Rightarrow> retention_error + ledger_tables" where
  "index_object p x t =
     (if lo_Body x = [] \<or> length (lo_Body x) > MaxLedgerBodyBytes then Inl ErrLedgerInventory
      else case parseLedgerObjectKey (rp_ObjectPrefix p) (rp_LedgerPrefix p) (lo_Key x) of
        None \<Rightarrow> Inl ErrLedgerInventory
      | Some (segment, e) \<Rightarrow>
          if segment = ''claims'' then
            map_sum id (\<lambda>c. t\<lparr>tb_claims := c\<rparr>) (record_entry (tb_claims t) e (DecodeClaim (lo_Body x)) cl_EffectKey (Pair x))
          else if segment = ''outcomes'' then
            map_sum id (\<lambda>r. t\<lparr>tb_outcomes := r\<rparr>) (record_entry (tb_outcomes t) e (DecodeOutcome (lo_Body x)) oc_EffectKey (Pair x))
          else
            map_sum id (\<lambda>s. t\<lparr>tb_tombstones := s\<rparr>) (record_entry (tb_tombstones t) e (DecodeTombstone (lo_Body x)) tb_EffectKey (Pair x)))"

fun index_objects :: "retention_policy \<Rightarrow> ledger_object list \<Rightarrow> ledger_tables \<Rightarrow> retention_error + ledger_tables" where
  "index_objects p [] t = Inr t"
| "index_objects p (x # xs) t = (case index_object p x t of Inl err \<Rightarrow> Inl err | Inr t \<Rightarrow> index_objects p xs t)"

definition table_pairs :: "ledger_tables \<Rightarrow> ledger_pair list" where
  "table_pairs t =
     map (\<lambda>e. \<lparr>pa_EffectKey = e, pa_Claim = map_of (tb_claims t) e, pa_Outcome = map_of (tb_outcomes t) e,
               pa_Tombstone = map_of (tb_tombstones t) e\<rparr>)
       (sort (remdups (map fst (tb_claims t) @ map fst (tb_outcomes t))))"

definition indexLedger :: "retention_policy \<Rightarrow> ledger_object list \<Rightarrow> retention_error + ledger_pair list" where
  "indexLedger p objects =
     map_sum id table_pairs (index_objects p objects \<lparr>tb_claims = [], tb_outcomes = [], tb_tombstones = []\<rparr>)"

definition ValidBaseSHA :: "string \<Rightarrow> bool" where
  "ValidBaseSHA v \<longleftrightarrow> (length v = 40 \<or> length v = 64) \<and> list_all lower_hex v"

definition ledgerEffectKeyMatches :: "retention_run \<Rightarrow> effect_claim \<Rightarrow> bool" where
  "ledgerEffectKeyMatches run c =
     (let matches = (\<lambda>digest. EffectKey (rr_UID run) (rr_BaseSHA run) digest (cl_Operation c) = Inr (cl_EffectKey c))
      in if cl_Operation c = ''publish/pr'' then
           ValidDigest (rr_PatchDigest run) \<and> rr_PatchDigest run = cl_RequestDigest c \<and> matches (rr_PatchDigest run)
         else if cl_Operation c = ''mcp-write'' \<or> cl_Operation c = ''mcp-publish'' then matches (cl_RequestDigest c)
         else False)"

definition hasRetainedArtifact :: "string \<Rightarrow> string \<Rightarrow> stored_artifact list \<Rightarrow> bool" where
  "hasRetainedArtifact objectPrefix runUID artifacts \<longleftrightarrow>
     list_ex (\<lambda>a. af_RunUID a = runUID \<or> has_prefix (af_Key a) (runPrefix objectPrefix runUID)) artifacts"

definition hasRetainedWorkspace :: "retention_run \<Rightarrow> cluster_resource list \<Rightarrow> bool" where
  "hasRetainedWorkspace run resources =
     (let work = filter (\<lambda>c. ch_Role c = WorkRole) (rr_Children run)
      in list_ex (\<lambda>r. rs_Kind r = PersistentVolumeKind \<and>
           (map_get (rs_Labels r) RunUIDLabelKey = rr_UID run \<or>
            list_ex (\<lambda>w. ow_UID w = rr_UID run \<or>
               (ow_Kind w = SandboxKind \<and>
                ((ow_Name w \<noteq> [] \<and> List.member (map ch_Name work) (ow_Name w)) \<or>
                 (ow_UID w \<noteq> [] \<and> List.member (map ch_UID work) (ow_UID w)))))
              (rs_OwnerReferences r))) resources)"

definition skipLedger :: "ledger_pair \<Rightarrow> string \<Rightarrow> retention_plan \<Rightarrow> retention_plan" where
  "skipLedger pair why plan = plan\<lparr>pl_Skipped := pl_Skipped plan @
     [\<lparr>sk_RunUID = (case pa_Claim pair of None \<Rightarrow> [] | Some (x, c) \<Rightarrow> cl_RunUID c), sk_Kind = [], sk_Namespace = [], sk_Name = [],
       sk_UID = [], sk_ObjectKey = pa_EffectKey pair, sk_Reason = why\<rparr>]\<rparr>"

text \<open>The checks of \<^verbatim>\<open>ledgerPair\<close> on a complete pair, in order: nothing, or the reason to skip.\<close>

definition ledger_pair_check :: "retention_policy \<Rightarrow> inventory \<Rightarrow> go_time \<Rightarrow> int \<Rightarrow> retention_run \<Rightarrow> string \<Rightarrow>
    ledger_object \<times> effect_claim \<Rightarrow> ledger_object \<times> effect_outcome \<Rightarrow> string option" where
  "ledger_pair_check p iv now cutoff run e claim_record outcome_record =
     (let (cx, c) = claim_record; (ox, r) = outcome_record
      in if oc_State r \<noteq> OutcomeSucceeded \<and> oc_State r \<noteq> OutcomeFailed then Some SkipLedgerUnknown
         else if oc_RunUID r = [] \<or> cl_RunUID c \<noteq> rr_UID run \<or> oc_RunUID r \<noteq> rr_UID run \<or> cl_EffectKey c \<noteq> e \<or>
           oc_EffectKey r \<noteq> e \<or> cl_RequestDigest c \<noteq> oc_RequestDigest r \<or> cl_Operation c = [] then Some SkipLedgerIdentityMismatch
         else if rr_EffectKey run \<noteq> [] \<and> rr_EffectKey run \<noteq> e then Some SkipLedgerIdentityMismatch
         else case terminalEligible run now 0 of Some why \<Rightarrow> Some why | None \<Rightarrow>
           if \<not> rr_LedgerFlushed run then Some SkipLedgerNotFlushed
           else case evidenceReferencesBound run (rp_ObjectPrefix p) of Some why \<Rightarrow> Some why | None \<Rightarrow>
             if instant (rr_CompletedAt run) > cutoff \<or> instant (oc_RecordedAt r) > cutoff \<or> After (cl_CreatedAt c) now \<or>
                After (oc_RecordedAt r) now \<or> After (cl_CreatedAt c) (oc_RecordedAt r) then Some SkipLedgerYoung
             else if \<not> ValidBaseSHA (rr_BaseSHA run) \<or> \<not> ledgerEffectKeyMatches run c then Some SkipLedgerIdentityMismatch
             else if hasRetainedArtifact (rp_ObjectPrefix p) (rr_UID run) (iv_Artifacts iv) then Some SkipLedgerArtifacts
             else if hasRetainedWorkspace run (iv_Resources iv) then Some SkipLedgerWorkspace
             else if lo_ETag cx = [] \<or> lo_ETag ox = [] then Some SkipLedgerETagMissing
             else None)"

definition pair_tombstone :: "string \<Rightarrow> effect_claim \<Rightarrow> retention_run \<Rightarrow> effect_outcome \<Rightarrow> go_time \<Rightarrow> effect_tombstone" where
  "pair_tombstone e c run r now =
     \<lparr>tb_SchemaVersion = LedgerSchema, tb_EffectKey = e, tb_RequestDigest = cl_RequestDigest c, tb_Operation = cl_Operation c,
      tb_RunUID = rr_UID run, tb_State = oc_State r, tb_RetiredAt = now\<rparr>"

text \<open>The planned retirement of a pair, and the two actions that go with it.\<close>

definition planned_pair :: "retention_policy \<Rightarrow> retention_run \<Rightarrow> go_time \<Rightarrow> ledger_pair \<Rightarrow> ledger_object \<times> effect_claim \<Rightarrow>
    ledger_object \<times> effect_outcome \<Rightarrow> string \<Rightarrow> ledger_pair_plan" where
  "planned_pair p run now pair claim_record outcome_record body =
     (let (cx, c) = claim_record; (ox, r) = outcome_record
      in \<lparr>lp_EffectKey = pa_EffectKey pair, lp_RunUID = rr_UID run, lp_Claim = c, lp_Outcome = r,
          lp_ClaimKey = lo_Key cx, lp_OutcomeKey = lo_Key ox, lp_ClaimETag = lo_ETag cx, lp_OutcomeETag = lo_ETag ox,
          lp_Tombstone = pair_tombstone (pa_EffectKey pair) c run r now,
          lp_TombstoneKey = ledgerRoot (rp_ObjectPrefix p) (rp_LedgerPrefix p) @ TombstonesSegment @ ''/'' @
            trim_prefix (pa_EffectKey pair) DigestPrefix @ ''.json'',
          lp_TombstoneBody = body, lp_TombstoneExists = (pa_Tombstone pair \<noteq> None)\<rparr>)"

definition add_pair :: "ledger_pair_plan \<Rightarrow> retention_plan \<Rightarrow> retention_plan" where
  "add_pair planned plan =
     plan\<lparr>pl_LedgerPairs := pl_LedgerPairs plan @ [planned],
          pl_Actions := pl_Actions plan @ [fst (pair_actions plan planned), snd (pair_actions plan planned)]\<rparr>"

definition ledgerPair :: "ledger_pair \<Rightarrow> retention_run \<Rightarrow> retention_policy \<Rightarrow> inventory \<Rightarrow> go_time \<Rightarrow> retention_plan \<Rightarrow> retention_plan" where
  "ledgerPair pair run p iv now plan =
     (case (pa_Claim pair, pa_Outcome pair) of
        (Some cr, Some rr) \<Rightarrow>
          (case ledger_pair_check p iv now (pl_LedgerCutoff plan) run (pa_EffectKey pair) cr rr of
             Some why \<Rightarrow> skipLedger pair why plan
           | None \<Rightarrow>
               let tombstone = pair_tombstone (pa_EffectKey pair) (snd cr) run (snd rr) now
               in case EncodeTombstone tombstone of
                    Inl _ \<Rightarrow> skipLedger pair SkipLedgerIdentityMismatch plan
                  | Inr body \<Rightarrow>
                      if (case pa_Tombstone pair of None \<Rightarrow> False | Some (tx, t) \<Rightarrow> \<not> sameTombstoneIdentity t tombstone)
                      then skipLedger pair SkipLedgerTombstone plan
                      else add_pair (planned_pair p run now pair cr rr body) plan)
      | _ \<Rightarrow> skipLedger pair SkipLedgerIncomplete plan)"

section \<open>The plan\<close>

definition resourceKey :: "cluster_resource \<Rightarrow> string" where
  "resourceKey r = rs_Kind r @ [CHR 0x00] @ rs_Namespace r @ [CHR 0x00] @ rs_Name r"

definition occurrences :: "string list \<Rightarrow> string \<Rightarrow> nat" where
  "occurrences xs x = length (filter (\<lambda>y. y = x) xs)"

definition duplicateResourceKeys :: "cluster_resource list \<Rightarrow> string \<Rightarrow> bool" where
  "duplicateResourceKeys resources key \<longleftrightarrow> occurrences (map resourceKey resources) key > 1"

definition duplicateArtifactKeys :: "stored_artifact list \<Rightarrow> string \<Rightarrow> bool" where
  "duplicateArtifactKeys artifacts key \<longleftrightarrow> occurrences (filter (\<lambda>k. k \<noteq> []) (map af_Key artifacts)) key > 1"

definition actionLess :: "retention_action \<Rightarrow> retention_action \<Rightarrow> bool" where
  "actionLess left right =
     (let l = ra_Target left; r = ra_Target right
      in if at_ObjectKey l \<noteq> at_ObjectKey r then at_ObjectKey l < at_ObjectKey r
         else if at_Kind l \<noteq> at_Kind r then at_Kind l < at_Kind r
         else if at_Namespace l \<noteq> at_Namespace r then at_Namespace l < at_Namespace r
         else if at_Name l \<noteq> at_Name r then at_Name l < at_Name r
         else if at_UID l \<noteq> at_UID r then at_UID l < at_UID r
         else if ra_RunUID left \<noteq> ra_RunUID right then ra_RunUID left < ra_RunUID right
         else if ra_Role left \<noteq> ra_Role right then ra_Role left < ra_Role right
         else if ra_Mode left \<noteq> ra_Mode right then ra_Mode left < ra_Mode right
         else ra_Reason left < ra_Reason right)"

definition skipLess :: "retention_skip \<Rightarrow> retention_skip \<Rightarrow> bool" where
  "skipLess left right =
     (if sk_ObjectKey left \<noteq> sk_ObjectKey right then sk_ObjectKey left < sk_ObjectKey right
      else if sk_Kind left \<noteq> sk_Kind right then sk_Kind left < sk_Kind right
      else if sk_Namespace left \<noteq> sk_Namespace right then sk_Namespace left < sk_Namespace right
      else if sk_Name left \<noteq> sk_Name right then sk_Name left < sk_Name right
      else if sk_UID left \<noteq> sk_UID right then sk_UID left < sk_UID right
      else if sk_RunUID left \<noteq> sk_RunUID right then sk_RunUID left < sk_RunUID right
      else sk_Reason left < sk_Reason right)"

text \<open>What the three loops of \<^verbatim>\<open>Plan\<close> share: the policy, the time, the inventory and its indexes.\<close>

record plan_context =
  pc_Policy :: retention_policy
  pc_Now :: go_time
  pc_Inventory :: inventory
  pc_Runs :: "(string \<times> retention_run) list"
  pc_DuplicateRuns :: "string list"
  pc_ObjectKeys :: "string list"

definition plan_resource :: "(string \<Rightarrow> bool) \<Rightarrow> plan_context \<Rightarrow> cluster_resource \<Rightarrow> retention_plan \<Rightarrow> retention_plan" where
  "plan_resource dns k r plan =
     (let runUID = map_get (rs_Labels r) RunUIDLabelKey
      in if runUID = [] then skipResource r [] SkipMissingRunLabel plan
         else case map_of (pc_Runs k) runUID of None \<Rightarrow> skipResource r runUID SkipRunNotFound plan | Some run \<Rightarrow>
           if List.member (pc_DuplicateRuns k) runUID then skipResource r runUID SkipDuplicateRun plan
           else if duplicateResourceKeys (iv_Resources (pc_Inventory k)) (resourceKey r) then skipResource r runUID SkipDuplicateResource plan
           else if rs_Deleting r then skipResource r runUID SkipDeletingResource plan
           else if rs_Kind r = SecretKind then secret dns r run (pc_Now k) plan
           else if rs_Kind r = PersistentVolumeKind then
             workspacePVC dns r run (pc_Now k) (rp_ObjectPrefix (pc_Policy k)) (rp_LedgerPrefix (pc_Policy k)) (pc_ObjectKeys k) plan
           else skipResource r runUID SkipUnsupportedResource plan)"

definition plan_artifact :: "plan_context \<Rightarrow> stored_artifact \<Rightarrow> retention_plan \<Rightarrow> retention_plan" where
  "plan_artifact k a plan =
     (let runUID = af_RunUID a
      in if runUID = [] then skipArtifact a SkipArtifactRunMismatch plan
         else case map_of (pc_Runs k) runUID of None \<Rightarrow> skipArtifact a SkipRunNotFound plan | Some run \<Rightarrow>
           if List.member (pc_DuplicateRuns k) runUID then skipArtifact a SkipDuplicateRun plan
           else if duplicateArtifactKeys (iv_Artifacts (pc_Inventory k)) (af_Key a) then skipArtifact a SkipDuplicateArtifact plan
           else artifact a run (rp_ObjectPrefix (pc_Policy k)) (rp_LedgerPrefix (pc_Policy k)) (pc_ObjectKeys k) (pc_Now k) plan)"

definition plan_pair :: "plan_context \<Rightarrow> ledger_pair \<Rightarrow> retention_plan \<Rightarrow> retention_plan" where
  "plan_pair k pair plan =
     (case pa_Claim pair of
        None \<Rightarrow> skipLedger pair SkipLedgerIncomplete plan
      | Some (cx, c) \<Rightarrow>
          (case map_of (pc_Runs k) (cl_RunUID c) of
             None \<Rightarrow> skipLedger pair SkipRunNotFound plan
           | Some run \<Rightarrow>
               if List.member (pc_DuplicateRuns k) (cl_RunUID c) then skipLedger pair SkipDuplicateRun plan
               else ledgerPair pair run (pc_Policy k) (pc_Inventory k) (pc_Now k) plan))"

definition empty_plan :: "retention_policy \<Rightarrow> go_time \<Rightarrow> retention_plan" where
  "empty_plan p now =
     \<lparr>pl_DryRun = rp_DryRun p, pl_ArtifactCutoff = instant now - days (rp_ArtifactRetentionDays p),
      pl_WorktreeCutoff = instant now - days (rp_WorktreeRetentionDays p),
      pl_LedgerCutoff = instant now - days (rp_LedgerRetentionDays p), pl_Actions = [], pl_LedgerPairs = [], pl_Skipped = []\<rparr>"

definition Plan :: "(string \<Rightarrow> bool) \<Rightarrow> retention_policy \<Rightarrow> go_time \<Rightarrow> inventory \<Rightarrow> retention_error + retention_plan" where
  "Plan dns policy now iv =
     (case normalized_policy policy of Inl err \<Rightarrow> Inl err | Inr p \<Rightarrow>
      if IsZero now then Inl ErrInvalidNow
      else case indexRuns dns (iv_Runs iv) [] [] (empty_plan p now) of (runs, dups, plan) \<Rightarrow>
        (case indexLedger p (iv_Ledger iv) of Inl err \<Rightarrow> Inl err | Inr pairs \<Rightarrow>
          let k = \<lparr>pc_Policy = p, pc_Now = now, pc_Inventory = iv, pc_Runs = runs, pc_DuplicateRuns = dups,
                   pc_ObjectKeys = inventoryKeySet (iv_Artifacts iv) (iv_Ledger iv)\<rparr>;
              plan = fold (plan_resource dns k) (iv_Resources iv) plan;
              plan = fold (plan_artifact k) (iv_Artifacts iv) plan;
              plan = fold (plan_pair k) pairs plan;
              plan = plan\<lparr>pl_Actions := sort_slice actionLess (pl_Actions plan), pl_Skipped := sort_slice skipLess (pl_Skipped plan)\<rparr>
          in if int (length (pl_Actions plan)) > rp_MaxActionsPerPlan p then Inl ErrActionLimit else Inr plan))"

end
