(* ===== verification/Retention_Steps.thy ===== *)
theory Retention_Steps
  imports Retention_Plan
begin

text \<open>
  The loops of the planner are sums: each resource, artifact and pair adds its own actions, pairs and
  skips to the plan, whatever the plan holds already. So what a plan holds comes from the
  elements of the inventory one by one.
\<close>

section \<open>Steps that accumulate\<close>

definition cleared :: "retention_plan \<Rightarrow> retention_plan" where
  "cleared plan = plan\<lparr>pl_Actions := [], pl_LedgerPairs := [], pl_Skipped := []\<rparr>"

definition extend :: "retention_plan \<Rightarrow> retention_plan \<Rightarrow> retention_plan" where
  "extend plan d = plan\<lparr>pl_Actions := pl_Actions plan @ pl_Actions d, pl_LedgerPairs := pl_LedgerPairs plan @ pl_LedgerPairs d,
     pl_Skipped := pl_Skipped plan @ pl_Skipped d\<rparr>"

definition accumulates :: "(retention_plan \<Rightarrow> retention_plan) \<Rightarrow> bool" where
  "accumulates f \<longleftrightarrow> (\<forall>plan. f plan = extend plan (f (cleared plan)))"

lemma cleared_simps [simp]:
  "pl_DryRun (cleared plan) = pl_DryRun plan" "pl_ArtifactCutoff (cleared plan) = pl_ArtifactCutoff plan"
  "pl_WorktreeCutoff (cleared plan) = pl_WorktreeCutoff plan" "pl_LedgerCutoff (cleared plan) = pl_LedgerCutoff plan"
  "pl_Actions (cleared plan) = []" "pl_LedgerPairs (cleared plan) = []" "pl_Skipped (cleared plan) = []"
  "actionMode (cleared plan) = actionMode plan" "pair_actions (cleared plan) = pair_actions plan"
  by (auto simp: cleared_def actionMode_def pair_actions_def)

lemma extend_simps [simp]:
  "pl_Actions (extend plan d) = pl_Actions plan @ pl_Actions d" "pl_LedgerPairs (extend plan d) = pl_LedgerPairs plan @ pl_LedgerPairs d"
  "pl_Skipped (extend plan d) = pl_Skipped plan @ pl_Skipped d" "cleared (extend plan d) = cleared plan" "extend plan (cleared plan') = plan"
  by (simp_all add: extend_def cleared_def)

lemma additive_adds:
  "skipResource r uid why plan = extend plan (skipResource r uid why (cleared plan))"
  "skipArtifact a why plan = extend plan (skipArtifact a why (cleared plan))"
  "skipLedger pair why plan = extend plan (skipLedger pair why (cleared plan))"
  "add_action x plan = extend plan (add_action x (cleared plan))"
  "add_pair planned plan = extend plan (add_pair planned (cleared plan))"
  by (simp_all add: extend_def add_pair_def skipResource_def skipArtifact_def skipLedger_def add_action_def)

lemmas collect = additive_adds [symmetric] if_distrib [of "extend plan" for plan] option.case_distrib [of "extend plan" for plan]
  sum.case_distrib [of "extend plan" for plan]

lemma additive_secret: "accumulates (secret dns r run now)"
  by (simp add: accumulates_def secret_def Let_def collect cong: if_cong option.case_cong)

lemma additive_workspacePVC: "accumulates (workspacePVC dns r run now op lp keys)"
  by (simp add: accumulates_def workspacePVC_def Let_def collect cong: if_cong option.case_cong)

lemma additive_artifact: "accumulates (artifact a run op lp keys now)"
  by (simp add: accumulates_def artifact_def Let_def collect cong: if_cong option.case_cong)

lemma additive_ledgerPair: "accumulates (ledgerPair pair run p iv now)"
  unfolding accumulates_def ledgerPair_def
  by (simp add: Let_def collect prod.case_distrib [of "extend plan" for plan] cong: if_cong option.case_cong sum.case_cong prod.case_cong)

lemma accumulated: "accumulates f \<Longrightarrow> extend plan (f (cleared plan)) = f plan"
  unfolding accumulates_def by metis

lemma additive_plan_resource: "accumulates (plan_resource dns k r)"
  by (simp add: accumulates_def plan_resource_def Let_def collect accumulated [OF additive_secret] accumulated [OF additive_workspacePVC]
      cong: if_cong option.case_cong)

lemma additive_plan_artifact: "accumulates (plan_artifact k a)"
  by (simp add: accumulates_def plan_artifact_def Let_def collect accumulated [OF additive_artifact] cong: if_cong option.case_cong)

lemma additive_plan_pair: "accumulates (plan_pair k pair)"
  by (simp add: accumulates_def plan_pair_def collect prod.case_distrib [of "extend plan" for plan] accumulated [OF additive_ledgerPair]
      cong: if_cong option.case_cong prod.case_cong)

text \<open>The sum of a loop.\<close>

lemma fold_additive:
  assumes "\<And>x. accumulates (f x)"
  shows "fold f xs plan = plan\<lparr>pl_Actions := pl_Actions plan @ concat (map (\<lambda>x. pl_Actions (f x (cleared plan))) xs),
    pl_LedgerPairs := pl_LedgerPairs plan @ concat (map (\<lambda>x. pl_LedgerPairs (f x (cleared plan))) xs),
    pl_Skipped := pl_Skipped plan @ concat (map (\<lambda>x. pl_Skipped (f x (cleared plan))) xs)\<rparr>"
proof (induction xs arbitrary: plan)
  case (Cons x xs)
  have "fold f (x # xs) plan = fold f xs (extend plan (f x (cleared plan)))" by (simp add: accumulated [OF assms])
  also have "\<dots> = plan\<lparr>pl_Actions := pl_Actions plan @ concat (map (\<lambda>x. pl_Actions (f x (cleared plan))) (x # xs)),
    pl_LedgerPairs := pl_LedgerPairs plan @ concat (map (\<lambda>x. pl_LedgerPairs (f x (cleared plan))) (x # xs)),
    pl_Skipped := pl_Skipped plan @ concat (map (\<lambda>x. pl_Skipped (f x (cleared plan))) (x # xs))\<rparr>"
    unfolding Cons.IH by (simp add: extend_def cleared_def)
  finally show ?case .
qed simp

section \<open>The run of a UID\<close>

definition valid_runs :: "(string \<Rightarrow> bool) \<Rightarrow> inventory \<Rightarrow> string \<Rightarrow> retention_run list" where
  "valid_runs dns iv uid = filter (\<lambda>run. validateRunIdentity dns run \<and> rr_UID run = uid) (iv_Runs iv)"

text \<open>What the lookup in the index and the test for duplicates amount to.\<close>

definition runs_by_uid :: "(string \<Rightarrow> bool) \<Rightarrow> retention_run list \<Rightarrow> (string \<times> retention_run) list \<Rightarrow> string list \<Rightarrow> bool" where
  "runs_by_uid dns rs runs dups \<longleftrightarrow> (\<forall>uid. case filter (\<lambda>run. validateRunIdentity dns run \<and> rr_UID run = uid) rs of
     [] \<Rightarrow> map_of runs uid = None \<and> uid \<notin> set dups
   | [run] \<Rightarrow> map_of runs uid = Some run \<and> uid \<notin> set dups
   | _ \<Rightarrow> map_of runs uid \<noteq> None \<and> uid \<in> set dups)"

lemma runs_by_uid_snoc:
  assumes "runs_by_uid dns rs runs dups"
  shows "\<not> validateRunIdentity dns run \<Longrightarrow> runs_by_uid dns (rs @ [run]) runs dups"
    and "validateRunIdentity dns run \<Longrightarrow> map_of runs (rr_UID run) \<noteq> None \<Longrightarrow> runs_by_uid dns (rs @ [run]) runs (rr_UID run # dups)"
    and "validateRunIdentity dns run \<Longrightarrow> map_of runs (rr_UID run) = None \<Longrightarrow>
      runs_by_uid dns (rs @ [run]) ((rr_UID run, run) # runs) dups"
  using assms by (auto simp: runs_by_uid_def split: list.splits) (metis+)?

lemma indexRuns_result:
  assumes "runs_by_uid dns rs runs dups" and "indexRuns dns xs runs dups plan = (runs', dups', plan')"
  shows "runs_by_uid dns (rs @ xs) runs' dups' \<and> cleared plan' = cleared plan \<and> pl_Actions plan' = pl_Actions plan \<and>
    pl_LedgerPairs plan' = pl_LedgerPairs plan \<and>
    pl_Skipped plan' = pl_Skipped plan @ map (\<lambda>run. \<lparr>sk_RunUID = rr_UID run, sk_Kind = AgentRunKind, sk_Namespace = rr_Namespace run,
      sk_Name = rr_Name run, sk_UID = [], sk_ObjectKey = [], sk_Reason = SkipInvalidRun\<rparr>) (filter (\<lambda>run. \<not> validateRunIdentity dns run) xs)"
  using assms
proof (induction xs arbitrary: rs runs dups plan)
  case (Cons run xs)
  show ?case
  proof (cases "validateRunIdentity dns run")
    case False
    note r = runs_by_uid_snoc(1) [OF Cons.prems(1) False]
    show ?thesis using Cons.IH [OF r] Cons.prems(2) False by (auto simp: cleared_def)
  next
    case True
    then show ?thesis
      using Cons.IH [OF runs_by_uid_snoc(2) [OF Cons.prems(1) True]] Cons.IH [OF runs_by_uid_snoc(3) [OF Cons.prems(1) True]] Cons.prems(2)
      by (cases "map_of runs (rr_UID run)") auto
  qed
qed simp

section \<open>The plan as a sum\<close>

definition invalid_run_skips :: "(string \<Rightarrow> bool) \<Rightarrow> inventory \<Rightarrow> retention_skip list" where
  "invalid_run_skips dns iv = map (\<lambda>run. \<lparr>sk_RunUID = rr_UID run, sk_Kind = AgentRunKind, sk_Namespace = rr_Namespace run,
     sk_Name = rr_Name run, sk_UID = [], sk_ObjectKey = [], sk_Reason = SkipInvalidRun\<rparr>)
     (filter (\<lambda>run. \<not> validateRunIdentity dns run) (iv_Runs iv))"

definition gathered :: "(string \<Rightarrow> bool) \<Rightarrow> plan_context \<Rightarrow> ledger_pair list \<Rightarrow> (retention_plan \<Rightarrow> 'a list) \<Rightarrow> 'a list" where
  "gathered dns k pairs sel =
     (let b = empty_plan (pc_Policy k) (pc_Now k); iv = pc_Inventory k
      in concat (map (\<lambda>r. sel (plan_resource dns k r b)) (iv_Resources iv)) @
         concat (map (\<lambda>a. sel (plan_artifact k a b)) (iv_Artifacts iv)) @
         concat (map (\<lambda>pair. sel (plan_pair k pair b)) pairs))"

definition summed_plan :: "(string \<Rightarrow> bool) \<Rightarrow> plan_context \<Rightarrow> ledger_pair list \<Rightarrow> retention_plan" where
  "summed_plan dns k pairs =
     (empty_plan (pc_Policy k) (pc_Now k))\<lparr>pl_Actions := sort_slice actionLess (gathered dns k pairs pl_Actions),
        pl_LedgerPairs := gathered dns k pairs pl_LedgerPairs,
        pl_Skipped := sort_slice skipLess (invalid_run_skips dns (pc_Inventory k) @ gathered dns k pairs pl_Skipped)\<rparr>"

abbreviation planner_context :: "retention_policy \<Rightarrow> go_time \<Rightarrow> inventory \<Rightarrow> (string \<times> retention_run) list \<Rightarrow> string list \<Rightarrow> plan_context" where
  "planner_context p now iv runs dups \<equiv> \<lparr>pc_Policy = p, pc_Now = now, pc_Inventory = iv, pc_Runs = runs, pc_DuplicateRuns = dups,
     pc_ObjectKeys = inventoryKeySet (iv_Artifacts iv) (iv_Ledger iv)\<rparr>"

lemma empty_plan_simps [simp]:
  "cleared (empty_plan p now) = empty_plan p now" "pl_Actions (empty_plan p now) = []" "pl_LedgerPairs (empty_plan p now) = []"
  "pl_Skipped (empty_plan p now) = []" "pl_DryRun (empty_plan p now) = rp_DryRun p"
  by (simp_all add: empty_plan_def cleared_def)

lemma fold_from_empty:
  assumes "\<And>x. accumulates (f x)"
  shows "fold f xs ((empty_plan p now)\<lparr>pl_Actions := A, pl_LedgerPairs := L, pl_Skipped := S\<rparr>) =
    (empty_plan p now)\<lparr>pl_Actions := A @ concat (map (\<lambda>x. pl_Actions (f x (empty_plan p now))) xs),
      pl_LedgerPairs := L @ concat (map (\<lambda>x. pl_LedgerPairs (f x (empty_plan p now))) xs),
      pl_Skipped := S @ concat (map (\<lambda>x. pl_Skipped (f x (empty_plan p now))) xs)\<rparr>"
proof -
  have c: "cleared ((empty_plan p now)\<lparr>pl_Actions := A, pl_LedgerPairs := L, pl_Skipped := S\<rparr>) = empty_plan p now"
    by (simp add: cleared_def empty_plan_def)
  show ?thesis unfolding fold_additive [OF assms] c by simp
qed

lemma Plan_sum:
  assumes "normalized_policy policy = Inr p" and "\<not> IsZero now"
  shows "\<exists>runs dups. runs_by_uid dns (iv_Runs iv) runs dups \<and>
    Plan dns policy now iv = (case indexLedger p (iv_Ledger iv) of Inl err \<Rightarrow> Inl err | Inr pairs \<Rightarrow>
      let plan = summed_plan dns (planner_context p now iv runs dups) pairs
      in if int (length (pl_Actions plan)) > rp_MaxActionsPerPlan p then Inl ErrActionLimit else Inr plan)"
proof -
  obtain runs dups plan where i: "indexRuns dns (iv_Runs iv) [] [] (empty_plan p now) = (runs, dups, plan)" by (cases rule: prod_cases3)
  have "runs_by_uid dns [] [] []" by (simp add: runs_by_uid_def)
  note r = indexRuns_result [OF this i]
  have plan: "plan = (empty_plan p now)\<lparr>pl_Actions := [], pl_LedgerPairs := [], pl_Skipped := invalid_run_skips dns iv\<rparr>"
    using r by (cases plan) (auto simp: cleared_def empty_plan_def invalid_run_skips_def)
  let ?k = "planner_context p now iv runs dups"
  let ?sum = "\<lambda>pairs. fold (plan_pair ?k) pairs (fold (plan_artifact ?k) (iv_Artifacts iv) (fold (plan_resource dns ?k) (iv_Resources iv) plan))"
  have sum: "(?sum pairs)\<lparr>pl_Actions := sort_slice actionLess (pl_Actions (?sum pairs)),
      pl_Skipped := sort_slice skipLess (pl_Skipped (?sum pairs))\<rparr> = summed_plan dns ?k pairs" for pairs
    unfolding plan fold_from_empty [OF additive_plan_resource] fold_from_empty [OF additive_plan_artifact]
      fold_from_empty [OF additive_plan_pair] summed_plan_def gathered_def
    by (simp add: Let_def)
  have "Plan dns policy now iv = (case indexLedger p (iv_Ledger iv) of Inl err \<Rightarrow> Inl err | Inr pairs \<Rightarrow>
      let plan = summed_plan dns ?k pairs
      in if int (length (pl_Actions plan)) > rp_MaxActionsPerPlan p then Inl ErrActionLimit else Inr plan)"
    unfolding Plan_def assms(1) i sum.case Let_def prod.case sum if_not_P [OF assms(2)] ..
  then show ?thesis using r by auto
qed

end
