(* ===== verification/Retention_Index.thy ===== *)
theory Retention_Index
  imports Retention_Steps
begin

text \<open>
  The index of the ledger. It exists when every object has a readable record under its key and no record
  repeats, and then it has the pairs of the effects in order, which do not depend on the order of the
  objects.
\<close>

definition ledger_entry :: "string \<Rightarrow> (string \<Rightarrow> ledger_error + 'v) \<Rightarrow> retention_policy \<Rightarrow> ledger_object \<Rightarrow> (string \<times> ledger_object \<times> 'v) option" where
  "ledger_entry segment decode p x =
     (case parseLedgerObjectKey (rp_ObjectPrefix p) (rp_LedgerPrefix p) (lo_Key x) of
        None \<Rightarrow> None
      | Some (s, e) \<Rightarrow> if s \<noteq> segment then None else (case decode (lo_Body x) of Inl _ \<Rightarrow> None | Inr v \<Rightarrow> Some (e, x, v)))"

definition ledger_entries :: "string \<Rightarrow> (string \<Rightarrow> ledger_error + 'v) \<Rightarrow> retention_policy \<Rightarrow> ledger_object list \<Rightarrow> (string \<times> ledger_object \<times> 'v) list" where
  "ledger_entries segment decode p xs = List.map_filter (ledger_entry segment decode p) xs"

abbreviation claim_entries :: "retention_policy \<Rightarrow> ledger_object list \<Rightarrow> (string \<times> ledger_object \<times> effect_claim) list" where
  "claim_entries \<equiv> ledger_entries ''claims'' DecodeClaim"

abbreviation outcome_entries :: "retention_policy \<Rightarrow> ledger_object list \<Rightarrow> (string \<times> ledger_object \<times> effect_outcome) list" where
  "outcome_entries \<equiv> ledger_entries ''outcomes'' DecodeOutcome"

abbreviation tombstone_entries :: "retention_policy \<Rightarrow> ledger_object list \<Rightarrow> (string \<times> ledger_object \<times> effect_tombstone) list" where
  "tombstone_entries \<equiv> ledger_entries TombstonesSegment DecodeTombstone"

definition reads_as :: "ledger_error + 'v \<Rightarrow> ('v \<Rightarrow> string) \<Rightarrow> string \<Rightarrow> bool" where
  "reads_as decoded effect_of e = (case decoded of Inl _ \<Rightarrow> False | Inr v \<Rightarrow> effect_of v = e)"

definition object_ok :: "retention_policy \<Rightarrow> ledger_object \<Rightarrow> bool" where
  "object_ok p x \<longleftrightarrow> lo_Body x \<noteq> [] \<and> length (lo_Body x) \<le> MaxLedgerBodyBytes \<and>
     (case parseLedgerObjectKey (rp_ObjectPrefix p) (rp_LedgerPrefix p) (lo_Key x) of
        None \<Rightarrow> False
      | Some (s, e) \<Rightarrow>
          if s = ''claims'' then reads_as (DecodeClaim (lo_Body x)) cl_EffectKey e
          else if s = ''outcomes'' then reads_as (DecodeOutcome (lo_Body x)) oc_EffectKey e
          else reads_as (DecodeTombstone (lo_Body x)) tb_EffectKey e)"

definition fits :: "retention_policy \<Rightarrow> ledger_object list \<Rightarrow> ledger_tables \<Rightarrow> bool" where
  "fits p xs t \<longleftrightarrow> list_all (object_ok p) xs \<and> distinct (map fst (claim_entries p xs @ tb_claims t)) \<and>
     distinct (map fst (outcome_entries p xs @ tb_outcomes t)) \<and> distinct (map fst (tombstone_entries p xs @ tb_tombstones t))"

lemma entries_Cons [simp]:
  "ledger_entries segment decode p [] = []"
  "ledger_entries segment decode p (x # xs) =
     (case ledger_entry segment decode p x of None \<Rightarrow> ledger_entries segment decode p xs | Some y \<Rightarrow> y # ledger_entries segment decode p xs)"
  by (simp_all add: ledger_entries_def List.map_filter_simps split: option.split)

lemma parsed_segment:
  "parseLedgerObjectKey op lp key = Some (s, e) \<Longrightarrow> s = ''claims'' \<or> s = ''outcomes'' \<or> s = TombstonesSegment"
  by (auto simp: parseLedgerObjectKey_def Let_def split: list.splits if_splits)

lemma entries_append: "ledger_entries segment decode p (xs @ ys) = ledger_entries segment decode p xs @ ledger_entries segment decode p ys"
  by (induction xs) (simp_all split: option.split)

lemma entry_fresh:
  "distinct (map fst t) \<Longrightarrow> map_of t ` (fst ` set (ledger_entries segment decode p [x])) \<subseteq> {None} \<longleftrightarrow>
     distinct (map fst (ledger_entries segment decode p [x] @ t))"
  by (auto simp: map_of_eq_None_iff split: option.splits)

lemma distinct_rotated: "distinct (map f (xs @ ys @ zs)) \<longleftrightarrow> distinct (map f (ys @ xs @ zs))"
  by auto

lemma index_object_eq:
  "index_object p x t = (if object_ok p x \<and>
      map_of (tb_claims t) `  (fst ` set (claim_entries p [x])) \<subseteq> {None} \<and>
      map_of (tb_outcomes t) ` (fst ` set (outcome_entries p [x])) \<subseteq> {None} \<and>
      map_of (tb_tombstones t) ` (fst ` set (tombstone_entries p [x])) \<subseteq> {None}
    then Inr \<lparr>tb_claims = claim_entries p [x] @ tb_claims t, tb_outcomes = outcome_entries p [x] @ tb_outcomes t,
      tb_tombstones = tombstone_entries p [x] @ tb_tombstones t\<rparr> else Inl ErrLedgerInventory)"
proof (cases "parseLedgerObjectKey (rp_ObjectPrefix p) (rp_LedgerPrefix p) (lo_Key x)")
  case None
  then show ?thesis by (simp add: index_object_def object_ok_def)
next
  case (Some se)
  obtain s e where se: "se = (s, e)" by (cases se)
  note parsed = Some [unfolded se]
  consider "s = ''claims''" | "s = ''outcomes''" | "s = TombstonesSegment" using parsed_segment [OF parsed] by blast
  then show ?thesis
    by cases (cases t; auto simp: index_object_def object_ok_def parsed ledger_entry_def record_entry_def reads_as_def split: sum.split)+
qed

lemma index_objects_eq:
  "distinct (map fst (tb_claims t)) \<Longrightarrow> distinct (map fst (tb_outcomes t)) \<Longrightarrow> distinct (map fst (tb_tombstones t)) \<Longrightarrow>
    index_objects p xs t = (if fits p xs t then Inr \<lparr>tb_claims = rev (claim_entries p xs) @ tb_claims t,
      tb_outcomes = rev (outcome_entries p xs) @ tb_outcomes t, tb_tombstones = rev (tombstone_entries p xs) @ tb_tombstones t\<rparr>
     else Inl ErrLedgerInventory)"
proof (induction xs arbitrary: t)
  case Nil
  then show ?case by (cases t) (simp add: fits_def)
next
  case (Cons x xs)
  let ?t = "\<lparr>tb_claims = claim_entries p [x] @ tb_claims t, tb_outcomes = outcome_entries p [x] @ tb_outcomes t,
      tb_tombstones = tombstone_entries p [x] @ tb_tombstones t\<rparr>"
  let ?fresh = "distinct (map fst (tb_claims ?t)) \<and> distinct (map fst (tb_outcomes ?t)) \<and> distinct (map fst (tb_tombstones ?t))"
  note parts = entries_append [of _ _ p "[x]" xs, simplified append_Cons append_Nil]
  have step: "index_object p x t = (if object_ok p x \<and> ?fresh then Inr ?t else Inl ErrLedgerInventory)"
    unfolding index_object_eq entry_fresh [OF Cons.prems(1)] entry_fresh [OF Cons.prems(2)] entry_fresh [OF Cons.prems(3)] by simp
  have fits: "fits p (x # xs) t \<longleftrightarrow> object_ok p x \<and> fits p xs ?t"
    unfolding fits_def parts append.assoc ledger_tables.simps list.pred_inject
      distinct_rotated [of fst "claim_entries p xs"] distinct_rotated [of fst "outcome_entries p xs"] distinct_rotated [of fst "tombstone_entries p xs"]
    by (simp only: conj_assoc)
  have rest: "?fresh \<Longrightarrow> index_objects p xs ?t = (if fits p xs ?t then Inr \<lparr>tb_claims = rev (claim_entries p xs) @ tb_claims ?t,
      tb_outcomes = rev (outcome_entries p xs) @ tb_outcomes ?t, tb_tombstones = rev (tombstone_entries p xs) @ tb_tombstones ?t\<rparr>
     else Inl ErrLedgerInventory)" by (rule Cons.IH) simp_all
  have fresh: "fits p xs ?t \<Longrightarrow> ?fresh" unfolding fits_def by simp
  have one: "rev (ledger_entries segment decode p [x]) = ledger_entries segment decode p [x]" for segment and decode :: "string \<Rightarrow> ledger_error + 'v"
    by (simp split: option.split)
  show ?case
    unfolding index_objects.simps step fits using rest fresh
    by (auto simp: parts one simp del: entries_Cons)
qed

section \<open>The pairs\<close>

abbreviation no_tables :: ledger_tables where
  "no_tables \<equiv> \<lparr>tb_claims = [], tb_outcomes = [], tb_tombstones = []\<rparr>"

definition pair_of :: "retention_policy \<Rightarrow> ledger_object list \<Rightarrow> string \<Rightarrow> ledger_pair" where
  "pair_of p xs e = \<lparr>pa_EffectKey = e, pa_Claim = map_of (claim_entries p xs) e, pa_Outcome = map_of (outcome_entries p xs) e,
     pa_Tombstone = map_of (tombstone_entries p xs) e\<rparr>"

definition pair_keys_of :: "retention_policy \<Rightarrow> ledger_object list \<Rightarrow> string set" where
  "pair_keys_of p xs = fst ` set (claim_entries p xs) \<union> fst ` set (outcome_entries p xs)"

lemma map_of_reversed: "distinct (map fst xs) \<Longrightarrow> map_of (rev xs) = map_of xs"
  by (subst map_of_inject_set) (simp_all add: rev_map [symmetric])

lemma indexLedger_eq:
  "indexLedger p xs = (if fits p xs no_tables then Inr (map (pair_of p xs) (sorted_list_of_set (pair_keys_of p xs))) else Inl ErrLedgerInventory)"
proof (cases "fits p xs no_tables")
  case True
  then have "map_of (rev (claim_entries p xs)) = map_of (claim_entries p xs)" "map_of (rev (outcome_entries p xs)) = map_of (outcome_entries p xs)"
    "map_of (rev (tombstone_entries p xs)) = map_of (tombstone_entries p xs)"
    by (simp_all add: fits_def map_of_reversed)
  then show ?thesis
    using True index_objects_eq [of no_tables p xs]
    by (simp add: indexLedger_def table_pairs_def pair_of_def [abs_def] pair_keys_of_def flip: sorted_list_of_set_sort_remdups)
qed (use index_objects_eq [of no_tables p xs] in \<open>simp add: indexLedger_def\<close>)

lemma entry_iff:
  "(e, x, v) \<in> set (ledger_entries segment decode p xs) \<longleftrightarrow> x \<in> set xs \<and>
     parseLedgerObjectKey (rp_ObjectPrefix p) (rp_LedgerPrefix p) (lo_Key x) = Some (segment, e) \<and> decode (lo_Body x) = Inr v"
  by (induction xs) (auto simp: ledger_entry_def split: option.splits sum.splits if_splits)

lemma entries_permuted: "mset xs = mset ys \<Longrightarrow> mset (ledger_entries segment decode p xs) = mset (ledger_entries segment decode p ys)"
  by (simp add: ledger_entries_def List.map_filter_def)

lemma entries_keys: "mset xs = mset ys \<Longrightarrow> distinct (map fst (ledger_entries segment decode p xs)) \<longleftrightarrow> distinct (map fst (ledger_entries segment decode p ys))"
  by (metis entries_permuted mset_map mset_eq_imp_distinct_iff)

lemma fits_permuted: "mset xs = mset ys \<Longrightarrow> fits p xs no_tables \<longleftrightarrow> fits p ys no_tables"
  by (simp add: fits_def list_all_iff entries_keys [of xs ys] mset_eq_setD [of xs ys])

lemma map_of_permuted:
  assumes "mset xs = mset ys" and "distinct (map fst (ledger_entries segment decode p xs))"
  shows "map_of (ledger_entries segment decode p xs) = map_of (ledger_entries segment decode p ys)"
  by (subst map_of_inject_set)
    (use assms(2) in \<open>simp_all add: entries_keys [OF assms(1)] mset_eq_setD [OF entries_permuted [OF assms(1)]]\<close>)

lemma indexLedger_permuted: "mset xs = mset ys \<Longrightarrow> indexLedger p xs = indexLedger p ys"
proof -
  assume p: "mset xs = mset ys"
  have "pair_keys_of p xs = pair_keys_of p ys" by (simp add: pair_keys_of_def mset_eq_setD [OF entries_permuted [OF p]])
  moreover have "fits p xs no_tables \<Longrightarrow> pair_of p xs = pair_of p ys" by (auto simp: fits_def pair_of_def map_of_permuted [OF p])
  ultimately show ?thesis using fits_permuted [OF p] by (simp add: indexLedger_eq)
qed

text \<open>What a pair of the index says of the stored objects.\<close>

lemma indexed_pair:
  assumes "indexLedger p xs = Inr pairs" and "pair \<in> set pairs"
  shows "pa_Claim pair = Some (x, c) \<Longrightarrow> x \<in> set xs \<and> object_ok p x \<and> DecodeClaim (lo_Body x) = Inr c \<and> cl_EffectKey c = pa_EffectKey pair \<and>
      parseLedgerObjectKey (rp_ObjectPrefix p) (rp_LedgerPrefix p) (lo_Key x) = Some (''claims'', pa_EffectKey pair)"
    and "pa_Outcome pair = Some (x, r) \<Longrightarrow> x \<in> set xs \<and> object_ok p x \<and> DecodeOutcome (lo_Body x) = Inr r \<and> oc_EffectKey r = pa_EffectKey pair \<and>
      parseLedgerObjectKey (rp_ObjectPrefix p) (rp_LedgerPrefix p) (lo_Key x) = Some (''outcomes'', pa_EffectKey pair)"
    and "x \<in> set xs \<Longrightarrow> parseLedgerObjectKey (rp_ObjectPrefix p) (rp_LedgerPrefix p) (lo_Key x) = Some (TombstonesSegment, pa_EffectKey pair) \<Longrightarrow>
      \<exists>t. DecodeTombstone (lo_Body x) = Inr t \<and> pa_Tombstone pair = Some (x, t)"
    and "distinct (map pa_EffectKey pairs)"
proof -
  have f: "fits p xs no_tables" and pairs: "pairs = map (pair_of p xs) (sorted_list_of_set (pair_keys_of p xs))"
    using assms(1) by (auto simp: indexLedger_eq split: if_splits)
  obtain e where e: "pair = pair_of p xs e" using assms(2) unfolding pairs by auto
  have ok: "object_ok p x" if "x \<in> set xs" for x using f that by (auto simp: fits_def list_all_iff)
  show "x \<in> set xs \<and> object_ok p x \<and> DecodeClaim (lo_Body x) = Inr c \<and> cl_EffectKey c = pa_EffectKey pair \<and>
      parseLedgerObjectKey (rp_ObjectPrefix p) (rp_LedgerPrefix p) (lo_Key x) = Some (''claims'', pa_EffectKey pair)" if "pa_Claim pair = Some (x, c)"
    using map_of_SomeD [of "claim_entries p xs" e "(x, c)"] that ok [of x] by (auto simp: e pair_of_def entry_iff object_ok_def reads_as_def)
  show "x \<in> set xs \<and> object_ok p x \<and> DecodeOutcome (lo_Body x) = Inr r \<and> oc_EffectKey r = pa_EffectKey pair \<and>
      parseLedgerObjectKey (rp_ObjectPrefix p) (rp_LedgerPrefix p) (lo_Key x) = Some (''outcomes'', pa_EffectKey pair)" if "pa_Outcome pair = Some (x, r)"
    using map_of_SomeD [of "outcome_entries p xs" e "(x, r)"] that ok [of x] by (auto simp: e pair_of_def entry_iff object_ok_def reads_as_def)
  show "\<exists>t. DecodeTombstone (lo_Body x) = Inr t \<and> pa_Tombstone pair = Some (x, t)"
    if m: "x \<in> set xs" and k: "parseLedgerObjectKey (rp_ObjectPrefix p) (rp_LedgerPrefix p) (lo_Key x) = Some (TombstonesSegment, pa_EffectKey pair)"
  proof -
    obtain t where t: "DecodeTombstone (lo_Body x) = Inr t" using ok [OF m] k by (auto simp: object_ok_def reads_as_def split: sum.splits)
    have "(e, x, t) \<in> set (tombstone_entries p xs)" using m k t by (simp add: entry_iff e pair_of_def)
    then have "map_of (tombstone_entries p xs) e = Some (x, t)" using f by (intro map_of_is_SomeI) (simp_all add: fits_def)
    then show ?thesis using t by (simp add: e pair_of_def)
  qed
  show "distinct (map pa_EffectKey pairs)" unfolding pairs by (simp add: comp_def pair_of_def)
qed

end
