(* ===== verification/Retention_Safety.thy ===== *)
theory Retention_Safety
  imports Retention_Index Retention_Apply
begin

text \<open>
  What the planner may put in a plan, stated of the inventory alone, and that it puts nothing else in.
  The applier deletes nothing that is not in the plan.
\<close>

section \<open>What may be deleted\<close>

definition finished :: "retention_run \<Rightarrow> go_time \<Rightarrow> bool" where
  "finished run now \<longleftrightarrow> IsTerminal (rr_Phase run) \<and> rr_Phase run \<noteq> UnknownEffect \<and> \<not> IsZero (rr_CompletedAt run) \<and>
     instant (rr_CompletedAt run) \<le> instant now"

definition inventory_keys :: "inventory \<Rightarrow> string set" where
  "inventory_keys iv = af_Key ` set (iv_Artifacts iv) \<union> lo_Key ` set (iv_Ledger iv)"

text \<open>The run's evidence is complete and still there, and so are the records of its effect.\<close>

definition evidence_kept :: "retention_policy \<Rightarrow> inventory \<Rightarrow> retention_run \<Rightarrow> bool" where
  "evidence_kept p iv run \<longleftrightarrow> rr_EvidenceFlushed run \<and> rr_LedgerFlushed run \<and>
     (\<forall>key\<in>set (rr_RequiredObjectKeys run). validateArtifactKey (rp_ObjectPrefix p) (rr_UID run) key = None \<and> key \<in> inventory_keys iv) \<and>
     (rr_EffectKey run \<noteq> [] \<longrightarrow> ValidDigest (rr_EffectKey run) \<and>
       (\<forall>segment\<in>{''claims'', ''outcomes''}. rp_ObjectPrefix p @ ''/'' @ rp_LedgerPrefix p @ ''/'' @ segment @ ''/'' @
          trim_prefix (rr_EffectKey run) DigestPrefix @ ''.json'' \<in> inventory_keys iv))"

definition controlled_by :: "cluster_resource \<Rightarrow> string \<Rightarrow> string \<Rightarrow> string \<Rightarrow> string \<Rightarrow> bool" where
  "controlled_by r api kind name uid \<longleftrightarrow> (\<exists>w. filter (\<lambda>w. ow_Controller w = Some True) (rs_OwnerReferences r) = [w] \<and>
     ow_APIVersion w = api \<and> ow_Kind w = kind \<and> ow_Name w = name \<and> ow_UID w = uid \<and> ow_BlockOwnerDeletion w = Some True)"

text \<open>A resource of the run: the only one of its kind and name, not being deleted, labelled with the run and with its digest.\<close>

definition run_resource :: "(string \<Rightarrow> bool) \<Rightarrow> inventory \<Rightarrow> retention_run \<Rightarrow> cluster_resource \<Rightarrow> bool" where
  "run_resource dns iv run r \<longleftrightarrow>
     filter (\<lambda>s. rs_Kind s = rs_Kind r \<and> rs_Namespace s = rs_Namespace r \<and> rs_Name s = rs_Name r) (iv_Resources iv) = [r] \<and>
     \<not> rs_Deleting r \<and> rs_Namespace r = rr_Namespace run \<and> map_get (rs_Labels r) RunUIDLabelKey = rr_UID run \<and>
     (if rs_SpecDigest r = [] then map_get (rs_Annotations r) SpecDigestAnnotation else rs_SpecDigest r) = rr_SpecDigest run \<and>
     validateResourceIdentity dns r"

definition secret_deletable :: "(string \<Rightarrow> bool) \<Rightarrow> inventory \<Rightarrow> retention_run \<Rightarrow> cluster_resource \<Rightarrow> bool" where
  "secret_deletable dns iv run r \<longleftrightarrow> rs_Kind r = SecretKind \<and> run_resource dns iv run r \<and>
     map_get (rs_Labels r) ManagedByLabelKey = RunSecretManagedBy \<and>
     controlled_by r AgentRunAPIVersion AgentRunKind (rr_Name run) (rr_UID run)"

definition workspace_deletable :: "(string \<Rightarrow> bool) \<Rightarrow> retention_policy \<Rightarrow> go_time \<Rightarrow> inventory \<Rightarrow> retention_run \<Rightarrow> cluster_resource \<Rightarrow> bool" where
  "workspace_deletable dns p now iv run r \<longleftrightarrow> rs_Kind r = PersistentVolumeKind \<and> run_resource dns iv run r \<and>
     map_get (rs_Labels r) RoleLabelKey = WorkRole \<and> evidence_kept p iv run \<and>
     instant (rr_CompletedAt run) + days (rp_WorktreeRetentionDays p) \<le> instant now \<and>
     (\<exists>child. filter (\<lambda>c. ch_Role c = WorkRole) (rr_Children run) = [child] \<and>
        (ch_Kind child = JobKind \<and> controlled_by r AgentRunAPIVersion AgentRunKind (rr_Name run) (rr_UID run) \<or>
         ch_Kind child = SandboxKind \<and> controlled_by r SandboxAPIVersion SandboxKind (ch_Name child) (ch_UID child)))"

definition artifact_deletable :: "retention_policy \<Rightarrow> go_time \<Rightarrow> inventory \<Rightarrow> retention_run \<Rightarrow> stored_artifact \<Rightarrow> bool" where
  "artifact_deletable p now iv run a \<longleftrightarrow> filter (\<lambda>b. af_Key b = af_Key a) (iv_Artifacts iv) = [a] \<and> af_RunUID a = rr_UID run \<and>
     validateArtifactKey (rp_ObjectPrefix p) (rr_UID run) (af_Key a) = None \<and> evidence_kept p iv run \<and> \<not> IsZero (af_CreatedAt a) \<and>
     instant (af_CreatedAt a) + days (rp_ArtifactRetentionDays p) \<le> instant now \<and> af_ETag a \<noteq> []"

text \<open>
  A pair: its two records are stored under their keys, agree and are decided; they and the run are older than the window; the effect key
  is that of the run; nothing else of the run is left; and a tombstone that is there already is the right one.
\<close>

definition pair_deletable :: "retention_policy \<Rightarrow> go_time \<Rightarrow> inventory \<Rightarrow> retention_run \<Rightarrow> string \<Rightarrow> ledger_object \<Rightarrow> ledger_object \<Rightarrow> bool" where
  "pair_deletable p now iv run e cx ox \<longleftrightarrow> cx \<in> set (iv_Ledger iv) \<and> ox \<in> set (iv_Ledger iv) \<and> lo_ETag cx \<noteq> [] \<and> lo_ETag ox \<noteq> [] \<and>
     parseLedgerObjectKey (rp_ObjectPrefix p) (rp_LedgerPrefix p) (lo_Key cx) = Some (''claims'', e) \<and>
     parseLedgerObjectKey (rp_ObjectPrefix p) (rp_LedgerPrefix p) (lo_Key ox) = Some (''outcomes'', e) \<and>
     (\<exists>c r. DecodeClaim (lo_Body cx) = Inr c \<and> DecodeOutcome (lo_Body ox) = Inr r \<and> cl_EffectKey c = e \<and> oc_EffectKey r = e \<and>
        cl_RunUID c = rr_UID run \<and> oc_RunUID r = rr_UID run \<and> cl_RequestDigest c = oc_RequestDigest r \<and>
        (oc_State r = OutcomeSucceeded \<or> oc_State r = OutcomeFailed) \<and> ledgerEffectKeyMatches run c \<and>
        instant (cl_CreatedAt c) \<le> instant (oc_RecordedAt r) \<and> instant (oc_RecordedAt r) + days (rp_LedgerRetentionDays p) \<le> instant now \<and>
        (\<forall>tx\<in>set (iv_Ledger iv). parseLedgerObjectKey (rp_ObjectPrefix p) (rp_LedgerPrefix p) (lo_Key tx) = Some (TombstonesSegment, e) \<longrightarrow>
          (\<exists>t. DecodeTombstone (lo_Body tx) = Inr t \<and> tb_EffectKey t = e \<and> tb_RequestDigest t = cl_RequestDigest c \<and>
             tb_RunUID t = rr_UID run \<and> tb_State t = oc_State r))) \<and>
     instant (rr_CompletedAt run) + days (rp_LedgerRetentionDays p) \<le> instant now \<and> rr_LedgerFlushed run \<and> rr_EvidenceFlushed run \<and>
     (rr_EffectKey run = [] \<or> rr_EffectKey run = e) \<and> ValidBaseSHA (rr_BaseSHA run) \<and>
     (\<forall>a\<in>set (iv_Artifacts iv). af_RunUID a \<noteq> rr_UID run \<and> \<not> has_prefix (af_Key a) (runPrefix (rp_ObjectPrefix p) (rr_UID run))) \<and>
     (\<forall>r\<in>set (iv_Resources iv). rs_Kind r = PersistentVolumeKind \<longrightarrow> map_get (rs_Labels r) RunUIDLabelKey \<noteq> rr_UID run)"

definition justified :: "(string \<Rightarrow> bool) \<Rightarrow> retention_policy \<Rightarrow> go_time \<Rightarrow> inventory \<Rightarrow> retention_action \<Rightarrow> bool" where
  "justified dns p now iv a \<longleftrightarrow> ra_Mode a = (if rp_DryRun p then ActionWouldDelete else ActionDelete) \<and>
     (\<exists>run. valid_runs dns iv (ra_RunUID a) = [run] \<and> finished run now \<and>
       ((\<exists>r. secret_deletable dns iv run r \<and> ra_Role a = ''credentials'' \<and> ra_PairKey a = [] \<and> ra_Target a = resource_target SecretKind r) \<or>
        (\<exists>r. workspace_deletable dns p now iv run r \<and> ra_Role a = WorkRole \<and> ra_PairKey a = [] \<and> ra_Target a = resource_target PersistentVolumeKind r) \<or>
        (\<exists>x. artifact_deletable p now iv run x \<and> ra_Role a = [] \<and> ra_PairKey a = [] \<and> ra_Target a = object_target (af_Key x) (af_ETag x)) \<or>
        (\<exists>cx ox. pair_deletable p now iv run (ra_PairKey a) cx ox \<and>
           (ra_Role a = ''ledger-claim'' \<and> ra_Target a = object_target (lo_Key cx) (lo_ETag cx) \<or>
            ra_Role a = ''ledger-outcome'' \<and> ra_Target a = object_target (lo_Key ox) (lo_ETag ox)))))"

section \<open>The checks of the planner\<close>

lemma terminalEligible_iff: "terminalEligible run now 0 = None \<longleftrightarrow> finished run now"
  by (auto simp: terminalEligible_def finished_def After_def)

lemma required_keys_check_None:
  "required_keys_check op uid present keys = None \<longleftrightarrow>
     (\<forall>key\<in>set keys. key \<noteq> [] \<and> validateArtifactKey op uid key = None \<and> present key)"
  by (induction keys) auto

lemma set_inventoryKeySet: "set (inventoryKeySet (iv_Artifacts iv) (iv_Ledger iv)) = inventory_keys iv - {[]}"
  by (auto simp: inventoryKeySet_def inventory_keys_def)

lemma evidenceEligible_kept:
  assumes "evidenceEligible run (rp_ObjectPrefix p) (rp_LedgerPrefix p) (inventoryKeySet (iv_Artifacts iv) (iv_Ledger iv)) = None"
  shows "evidence_kept p iv run"
  using assms
  by (auto simp: evidenceEligible_def evidence_kept_def required_keys_check_None set_inventoryKeySet Let_def
      split: if_splits option.splits)

lemma controllerOwner_Inr: "controllerOwner ws = Inr w \<longleftrightarrow> filter (\<lambda>w. ow_Controller w = Some True) ws = [w]"
  by (auto simp: controllerOwner_def boolValue_def split: list.split)

lemma requireRunOwner_None:
  "requireRunOwner (rs_OwnerReferences r) run = None \<longleftrightarrow> controlled_by r AgentRunAPIVersion AgentRunKind (rr_Name run) (rr_UID run)"
  by (auto simp: requireRunOwner_def controlled_by_def boolValue_def simp flip: controllerOwner_Inr split: sum.splits)

lemma requireWorkspaceOwner_None:
  "requireWorkspaceOwner (rs_OwnerReferences r) child run = None \<longleftrightarrow>
     ch_Kind child = JobKind \<and> controlled_by r AgentRunAPIVersion AgentRunKind (rr_Name run) (rr_UID run) \<or>
     ch_Kind child = SandboxKind \<and> controlled_by r SandboxAPIVersion SandboxKind (ch_Name child) (ch_UID child)"
  using requireRunOwner_None [of r run]
  by (auto simp: requireWorkspaceOwner_def controlled_by_def boolValue_def simp flip: controllerOwner_Inr split: sum.splits)

lemma work_sandbox_loop_Some:
  "work_sandbox_loop found cs = Some c \<Longrightarrow> (case found of None \<Rightarrow> [] | Some d \<Rightarrow> [d]) @ filter (\<lambda>c. ch_Role c = WorkRole) cs = [c]"
  by (induction found cs rule: work_sandbox_loop.induct) (auto split: if_splits)

lemma workSandbox_Some: "workSandbox run = Some c \<Longrightarrow> filter (\<lambda>c. ch_Role c = WorkRole) (rr_Children run) = [c]"
  using work_sandbox_loop_Some [of None] by (simp add: workSandbox_def)

lemma requireSpecDigest_None:
  "requireSpecDigest r run = None \<Longrightarrow>
     (if rs_SpecDigest r = [] then map_get (rs_Annotations r) SpecDigestAnnotation else rs_SpecDigest r) = rr_SpecDigest run"
  by (auto simp: requireSpecDigest_def Let_def split: if_splits)

text \<open>An element whose key does not repeat is the only one with its key.\<close>

lemma filter_once: "x \<in> set xs \<Longrightarrow> length (filter P xs) \<le> 1 \<Longrightarrow> P x \<Longrightarrow> filter P xs = [x]"
proof -
  assume "x \<in> set xs" "length (filter P xs) \<le> 1" "P x"
  then have "x \<in> set (filter P xs)" by simp
  then show ?thesis using \<open>length (filter P xs) \<le> 1\<close> by (cases "filter P xs") auto
qed

lemma length_filter_mono: "(\<And>x. P x \<Longrightarrow> Q x) \<Longrightarrow> length (filter P xs) \<le> length (filter Q xs)"
  by (induction xs) (auto simp: le_SucI)

lemma occurrences_map: "occurrences (map f xs) y = length (filter (\<lambda>x. f x = y) xs)"
  by (simp add: occurrences_def filter_map comp_def)

lemma sole_resource:
  assumes "r \<in> set rs" and "\<not> duplicateResourceKeys rs (resourceKey r)"
  shows "filter (\<lambda>s. rs_Kind s = rs_Kind r \<and> rs_Namespace s = rs_Namespace r \<and> rs_Name s = rs_Name r) rs = [r]"
proof (rule filter_once [OF assms(1)])
  have "length (filter (\<lambda>s. rs_Kind s = rs_Kind r \<and> rs_Namespace s = rs_Namespace r \<and> rs_Name s = rs_Name r) rs) \<le>
      length (filter (\<lambda>s. resourceKey s = resourceKey r) rs)" by (rule length_filter_mono) (simp add: resourceKey_def)
  then show "length (filter (\<lambda>s. rs_Kind s = rs_Kind r \<and> rs_Namespace s = rs_Namespace r \<and> rs_Name s = rs_Name r) rs) \<le> 1"
    using assms(2) by (simp add: duplicateResourceKeys_def occurrences_map)
qed simp

lemma sole_artifact:
  assumes "a \<in> set as" and "\<not> duplicateArtifactKeys as (af_Key a)" and "af_Key a \<noteq> []"
  shows "filter (\<lambda>b. af_Key b = af_Key a) as = [a]"
proof (rule filter_once [OF assms(1)])
  have "filter (\<lambda>k. k = af_Key a) (filter (\<lambda>k. k \<noteq> []) (map af_Key as)) = filter (\<lambda>k. k = af_Key a) (map af_Key as)"
    using assms(3) by (induction as) auto
  then have "occurrences (filter (\<lambda>k. k \<noteq> []) (map af_Key as)) (af_Key a) = occurrences (map af_Key as) (af_Key a)"
    by (simp only: occurrences_def)
  then show "length (filter (\<lambda>b. af_Key b = af_Key a) as) \<le> 1"
    using assms(2) by (simp add: duplicateArtifactKeys_def occurrences_map)
qed simp

section \<open>What each element adds\<close>

lemma plan_effects [simp]:
  "pl_Actions (skipResource r uid why plan) = pl_Actions plan" "pl_LedgerPairs (skipResource r uid why plan) = pl_LedgerPairs plan"
  "pl_Actions (skipArtifact x why plan) = pl_Actions plan" "pl_LedgerPairs (skipArtifact x why plan) = pl_LedgerPairs plan"
  "pl_Actions (skipLedger pair why plan) = pl_Actions plan" "pl_LedgerPairs (skipLedger pair why plan) = pl_LedgerPairs plan"
  "pl_Actions (add_action a plan) = pl_Actions plan @ [a]" "pl_LedgerPairs (add_action a plan) = pl_LedgerPairs plan"
  "pl_Actions (add_pair q plan) = pl_Actions plan @ [fst (pair_actions plan q), snd (pair_actions plan q)]"
  "pl_LedgerPairs (add_pair q plan) = pl_LedgerPairs plan @ [q]"
  by (simp_all add: skipResource_def skipArtifact_def skipLedger_def add_action_def add_pair_def)

lemma looked_up:
  assumes "runs_by_uid dns (iv_Runs iv) runs dups" and "map_of runs uid = Some run" and "uid \<notin> set dups"
  shows "valid_runs dns iv uid = [run]" "rr_UID run = uid" "validateRunIdentity dns run"
proof -
  have "case valid_runs dns iv uid of [] \<Rightarrow> False | [r] \<Rightarrow> r = run | _ \<Rightarrow> False"
    using assms by (fastforce simp: runs_by_uid_def valid_runs_def split: list.splits dest: spec [of _ uid])
  then show v: "valid_runs dns iv uid = [run]" by (simp split: list.splits)
  have "run \<in> set (valid_runs dns iv uid)" unfolding v by simp
  then show "rr_UID run = uid" "validateRunIdentity dns run" by (auto simp: valid_runs_def)
qed

lemma secret_adds:
  assumes "a \<in> set (pl_Actions (secret dns r run now (empty_plan p now)))"
  shows "finished run now \<and> rs_Namespace r = rr_Namespace run \<and> map_get (rs_Labels r) RunUIDLabelKey = rr_UID run \<and>
    map_get (rs_Labels r) ManagedByLabelKey = RunSecretManagedBy \<and> requireSpecDigest r run = None \<and>
    requireRunOwner (rs_OwnerReferences r) run = None \<and> validateResourceIdentity dns r \<and>
    a = \<lparr>ra_Mode = actionMode (empty_plan p now), ra_RunUID = rr_UID run, ra_Role = ''credentials'', ra_PairKey = [],
      ra_Reason = ''terminal per-run credentials are no longer needed'', ra_Target = resource_target SecretKind r\<rparr>"
  using assms by (simp add: secret_def Let_def terminalEligible_iff [symmetric] split: option.splits if_splits)

lemma workspacePVC_adds:
  assumes "a \<in> set (pl_Actions (workspacePVC dns r run now op lp keys (empty_plan p now)))"
  shows "finished run now \<and> evidenceEligible run op lp keys = None \<and> instant (rr_CompletedAt run) \<le> pl_WorktreeCutoff (empty_plan p now) \<and>
    rs_Namespace r = rr_Namespace run \<and> map_get (rs_Labels r) RunUIDLabelKey = rr_UID run \<and>
    map_get (rs_Labels r) RoleLabelKey = WorkRole \<and>
    (\<exists>child. workSandbox run = Some child \<and> requireWorkspaceOwner (rs_OwnerReferences r) child run = None) \<and>
    requireSpecDigest r run = None \<and> validateResourceIdentity dns r \<and>
    a = \<lparr>ra_Mode = actionMode (empty_plan p now), ra_RunUID = rr_UID run, ra_Role = WorkRole, ra_PairKey = [],
      ra_Reason = ''terminal worktree PVC exceeded retention window'', ra_Target = resource_target PersistentVolumeKind r\<rparr>"
  using assms by (simp add: workspacePVC_def Let_def terminalEligible_iff [symmetric] split: option.splits if_splits)

lemma artifact_adds:
  assumes "a \<in> set (pl_Actions (artifact x run op lp keys now (empty_plan p now)))"
  shows "finished run now \<and> evidenceEligible run op lp keys = None \<and> \<not> IsZero (af_CreatedAt x) \<and>
    instant (af_CreatedAt x) \<le> pl_ArtifactCutoff (empty_plan p now) \<and> af_RunUID x = rr_UID run \<and>
    validateArtifactKey op (rr_UID run) (af_Key x) = None \<and> af_ETag x \<noteq> [] \<and>
    a = \<lparr>ra_Mode = actionMode (empty_plan p now), ra_RunUID = rr_UID run, ra_Role = [], ra_PairKey = [],
      ra_Reason = ''terminal artifact exceeded retention window'', ra_Target = object_target (af_Key x) (af_ETag x)\<rparr>"
  using assms by (simp add: artifact_def Let_def terminalEligible_iff [symmetric] split: option.splits if_splits)

lemma empty_plan_mode: "actionMode (empty_plan p now) = (if rp_DryRun p then ActionWouldDelete else ActionDelete)"
  by (simp add: actionMode_def)

lemma resource_justified:
  assumes "runs_by_uid dns (iv_Runs iv) runs dups" and "r \<in> set (iv_Resources iv)"
    and "a \<in> set (pl_Actions (plan_resource dns (planner_context p now iv runs dups) r (empty_plan p now)))"
  shows "justified dns p now iv a"
proof -
  let ?uid = "map_get (rs_Labels r) RunUIDLabelKey"
  obtain run where run: "map_of runs ?uid = Some run" "?uid \<notin> set dups" "\<not> duplicateResourceKeys (iv_Resources iv) (resourceKey r)"
      "\<not> rs_Deleting r"
    and a: "rs_Kind r = SecretKind \<and> a \<in> set (pl_Actions (secret dns r run now (empty_plan p now))) \<or>
      rs_Kind r = PersistentVolumeKind \<and> a \<in> set (pl_Actions (workspacePVC dns r run now (rp_ObjectPrefix p) (rp_LedgerPrefix p)
        (inventoryKeySet (iv_Artifacts iv) (iv_Ledger iv)) (empty_plan p now)))"
    using assms(3) by (auto simp: plan_resource_def Let_def split: if_splits option.splits)
  note found = looked_up [OF assms(1) run(1,2)]
  note sole = sole_resource [OF assms(2) run(3)]
  from a show ?thesis
  proof
    assume "rs_Kind r = SecretKind \<and> a \<in> set (pl_Actions (secret dns r run now (empty_plan p now)))"
    then have kind: "rs_Kind r = SecretKind" and add: "a \<in> set (pl_Actions (secret dns r run now (empty_plan p now)))" by simp_all
    note add = secret_adds [OF add]
    have "secret_deletable dns iv run r"
      using add kind sole run(4) requireSpecDigest_None [of r run] requireRunOwner_None [of r run]
      by (simp add: secret_deletable_def run_resource_def)
    then show ?thesis using add found unfolding justified_def by (auto simp: empty_plan_mode)
  next
    assume "rs_Kind r = PersistentVolumeKind \<and> a \<in> set (pl_Actions (workspacePVC dns r run now (rp_ObjectPrefix p) (rp_LedgerPrefix p)
        (inventoryKeySet (iv_Artifacts iv) (iv_Ledger iv)) (empty_plan p now)))"
    then have kind: "rs_Kind r = PersistentVolumeKind" and add: "a \<in> set (pl_Actions (workspacePVC dns r run now (rp_ObjectPrefix p)
        (rp_LedgerPrefix p) (inventoryKeySet (iv_Artifacts iv) (iv_Ledger iv)) (empty_plan p now)))" by simp_all
    note add = workspacePVC_adds [OF add]
    have "run_resource dns iv run r" using add sole run(4) requireSpecDigest_None [of r run] by (simp add: run_resource_def)
    moreover have "evidence_kept p iv run" using add evidenceEligible_kept by blast
    moreover have "instant (rr_CompletedAt run) + days (rp_WorktreeRetentionDays p) \<le> instant now" using add by (simp add: empty_plan_def)
    ultimately have "workspace_deletable dns p now iv run r"
      using add kind workSandbox_Some requireWorkspaceOwner_None [of r _ run] unfolding workspace_deletable_def by blast
    then show ?thesis using add found unfolding justified_def by (auto simp: empty_plan_mode)
  qed
qed

lemma artifact_justified:
  assumes "runs_by_uid dns (iv_Runs iv) runs dups" and "x \<in> set (iv_Artifacts iv)"
    and "a \<in> set (pl_Actions (plan_artifact (planner_context p now iv runs dups) x (empty_plan p now)))"
  shows "justified dns p now iv a"
proof -
  obtain run where run: "map_of runs (af_RunUID x) = Some run" "af_RunUID x \<notin> set dups" "\<not> duplicateArtifactKeys (iv_Artifacts iv) (af_Key x)"
    and a: "a \<in> set (pl_Actions (artifact x run (rp_ObjectPrefix p) (rp_LedgerPrefix p)
        (inventoryKeySet (iv_Artifacts iv) (iv_Ledger iv)) now (empty_plan p now)))"
    using assms(3) by (auto simp: plan_artifact_def Let_def split: if_splits option.splits)
  note found = looked_up [OF assms(1) run(1,2)] and add = artifact_adds [OF a]
  have "validateArtifactKey (rp_ObjectPrefix p) (rr_UID run) (af_Key x) = None" using add by blast
  then have "af_Key x \<noteq> []" by (auto simp: validateArtifactKey_def validateObjectKey_def)
  note sole = sole_artifact [OF assms(2) run(3) this]
  have "evidence_kept p iv run" using add evidenceEligible_kept by blast
  moreover have "instant (af_CreatedAt x) + days (rp_ArtifactRetentionDays p) \<le> instant now" using add by (simp add: empty_plan_def)
  ultimately have "artifact_deletable p now iv run x" using add sole by (simp add: artifact_deletable_def)
  then show ?thesis using add found unfolding justified_def by (auto simp: empty_plan_mode)
qed

lemma ledger_pair_check_None:
  assumes "ledger_pair_check p iv now cutoff run e (cx, c) (ox, r) = None"
  shows "(oc_State r = OutcomeSucceeded \<or> oc_State r = OutcomeFailed) \<and> cl_RunUID c = rr_UID run \<and> oc_RunUID r = rr_UID run \<and>
    cl_EffectKey c = e \<and> oc_EffectKey r = e \<and> cl_RequestDigest c = oc_RequestDigest r \<and> (rr_EffectKey run = [] \<or> rr_EffectKey run = e) \<and>
    finished run now \<and> rr_LedgerFlushed run \<and> evidenceReferencesBound run (rp_ObjectPrefix p) = None \<and>
    instant (rr_CompletedAt run) \<le> cutoff \<and> instant (oc_RecordedAt r) \<le> cutoff \<and> instant (cl_CreatedAt c) \<le> instant (oc_RecordedAt r) \<and>
    ValidBaseSHA (rr_BaseSHA run) \<and> ledgerEffectKeyMatches run c \<and> \<not> hasRetainedArtifact (rp_ObjectPrefix p) (rr_UID run) (iv_Artifacts iv) \<and>
    \<not> hasRetainedWorkspace run (iv_Resources iv) \<and> lo_ETag cx \<noteq> [] \<and> lo_ETag ox \<noteq> []"
  using assms by (auto simp: ledger_pair_check_def terminalEligible_iff [symmetric] After_def split: if_splits option.splits)

definition planned_from :: "retention_policy \<Rightarrow> go_time \<Rightarrow> inventory \<Rightarrow> (string \<times> retention_run) list \<Rightarrow> string list \<Rightarrow> ledger_pair \<Rightarrow> ledger_pair_plan \<Rightarrow> bool" where
  "planned_from p now iv runs dups pair q \<longleftrightarrow> (\<exists>run cx c ox r body. pa_Claim pair = Some (cx, c) \<and> pa_Outcome pair = Some (ox, r) \<and>
     map_of runs (cl_RunUID c) = Some run \<and> cl_RunUID c \<notin> set dups \<and>
     ledger_pair_check p iv now (pl_LedgerCutoff (empty_plan p now)) run (pa_EffectKey pair) (cx, c) (ox, r) = None \<and>
     EncodeTombstone (pair_tombstone (pa_EffectKey pair) c run r now) = Inr body \<and>
     (\<forall>tx t. pa_Tombstone pair = Some (tx, t) \<longrightarrow> sameTombstoneIdentity t (pair_tombstone (pa_EffectKey pair) c run r now)) \<and>
     q = planned_pair p run now pair (cx, c) (ox, r) body)"

lemma plan_pair_adds:
  fixes p now pair iv runs dups
  defines "out \<equiv> plan_pair (planner_context p now iv runs dups) pair (empty_plan p now)"
  shows "pl_Actions out = [] \<and> pl_LedgerPairs out = [] \<or> (\<exists>q. planned_from p now iv runs dups pair q \<and> pl_LedgerPairs out = [q] \<and>
    pl_Actions out = [fst (pair_actions (empty_plan p now) q), snd (pair_actions (empty_plan p now) q)])"
  unfolding out_def plan_pair_def ledgerPair_def planned_from_def
  by (auto simp: Let_def split: option.split sum.split prod.split)

lemma pair_justified:
  assumes "runs_by_uid dns (iv_Runs iv) runs dups" and index: "indexLedger p (iv_Ledger iv) = Inr pairs" "pair \<in> set pairs"
    and "planned_from p now iv runs dups pair q"
    and a: "a = fst (pair_actions (empty_plan p now) q) \<or> a = snd (pair_actions (empty_plan p now) q)"
  shows "justified dns p now iv a"
proof -
  let ?e = "pa_EffectKey pair"
  obtain run cx c ox r body where q: "pa_Claim pair = Some (cx, c)" "pa_Outcome pair = Some (ox, r)"
      "map_of runs (cl_RunUID c) = Some run" "cl_RunUID c \<notin> set dups"
      "ledger_pair_check p iv now (pl_LedgerCutoff (empty_plan p now)) run ?e (cx, c) (ox, r) = None"
      "\<forall>tx t. pa_Tombstone pair = Some (tx, t) \<longrightarrow> sameTombstoneIdentity t (pair_tombstone ?e c run r now)"
      "q = planned_pair p run now pair (cx, c) (ox, r) body" using assms(4) unfolding planned_from_def by blast
  note found = looked_up [OF assms(1) q(3,4)] and check = ledger_pair_check_None [OF q(5)]
  have cutoff: "instant (rr_CompletedAt run) + days (rp_LedgerRetentionDays p) \<le> instant now"
    "instant (oc_RecordedAt r) + days (rp_LedgerRetentionDays p) \<le> instant now" using check by (simp_all add: empty_plan_def)
  have tomb: "\<exists>t. DecodeTombstone (lo_Body tx) = Inr t \<and> tb_EffectKey t = ?e \<and> tb_RequestDigest t = cl_RequestDigest c \<and>
      tb_RunUID t = rr_UID run \<and> tb_State t = oc_State r" if "tx \<in> set (iv_Ledger iv)"
      "parseLedgerObjectKey (rp_ObjectPrefix p) (rp_LedgerPrefix p) (lo_Key tx) = Some (TombstonesSegment, ?e)" for tx
    using indexed_pair(3) [OF index that] q(6) by (auto simp: sameTombstoneIdentity_def pair_tombstone_def)
  have rest: "\<forall>a\<in>set (iv_Artifacts iv). af_RunUID a \<noteq> rr_UID run \<and> \<not> has_prefix (af_Key a) (runPrefix (rp_ObjectPrefix p) (rr_UID run))"
    "\<forall>r\<in>set (iv_Resources iv). rs_Kind r = PersistentVolumeKind \<longrightarrow> map_get (rs_Labels r) RunUIDLabelKey \<noteq> rr_UID run" "rr_EvidenceFlushed run"
    using check by (auto simp: hasRetainedArtifact_def hasRetainedWorkspace_def evidenceReferencesBound_def list_ex_iff Let_def split: if_splits)
  have d: "pair_deletable p now iv run ?e cx ox"
    unfolding pair_deletable_def using indexed_pair(1) [OF index q(1)] indexed_pair(2) [OF index q(2)] check cutoff rest tomb by auto
  have "ra_Mode a = actionMode (empty_plan p now)" "ra_RunUID a = rr_UID run" "ra_PairKey a = ?e"
      "ra_Role a = ''ledger-claim'' \<and> ra_Target a = object_target (lo_Key cx) (lo_ETag cx) \<or>
       ra_Role a = ''ledger-outcome'' \<and> ra_Target a = object_target (lo_Key ox) (lo_ETag ox)"
    using a unfolding q(7) by (auto simp: pair_actions_def planned_pair_def)
  then show ?thesis unfolding justified_def empty_plan_mode using d found(1) check unfolding found(2) by metis
qed

text \<open>Resources and artifacts add no pairs.\<close>

lemma no_pairs:
  "pl_LedgerPairs (plan_resource dns k r (empty_plan p now)) = []" "pl_LedgerPairs (plan_artifact k x (empty_plan p now)) = []"
  by (auto simp: plan_resource_def plan_artifact_def secret_def workspacePVC_def artifact_def Let_def split: option.split)

lemma Plan_parts:
  assumes "Plan dns policy now iv = Inr plan"
  obtains p runs dups pairs where "normalized_policy policy = Inr p" "runs_by_uid dns (iv_Runs iv) runs dups"
    "indexLedger p (iv_Ledger iv) = Inr pairs" "plan = summed_plan dns (planner_context p now iv runs dups) pairs" "\<not> IsZero now"
proof -
  obtain p where p: "normalized_policy policy = Inr p" "\<not> IsZero now" using assms by (auto simp: Plan_def split: sum.splits if_splits)
  from Plan_sum [OF p, of dns iv] obtain runs dups where runs: "runs_by_uid dns (iv_Runs iv) runs dups"
    and eq: "Plan dns policy now iv = (case indexLedger p (iv_Ledger iv) of Inl err \<Rightarrow> Inl err | Inr pairs \<Rightarrow>
      let plan = summed_plan dns (planner_context p now iv runs dups) pairs
      in if int (length (pl_Actions plan)) > rp_MaxActionsPerPlan p then Inl ErrActionLimit else Inr plan)" by blast
  show ?thesis
  proof (cases "indexLedger p (iv_Ledger iv)")
    case (Inr pairs)
    then have "plan = summed_plan dns (planner_context p now iv runs dups) pairs" using eq assms by (simp add: Let_def split: if_splits)
    then show ?thesis by (rule that [OF p(1) runs Inr _ p(2)])
  qed (use eq assms in simp)
qed

lemma plan_justified:
  assumes "runs_by_uid dns (iv_Runs iv) runs dups" and "indexLedger p (iv_Ledger iv) = Inr pairs"
    and "a \<in> set (pl_Actions (summed_plan dns (planner_context p now iv runs dups) pairs))"
  shows "justified dns p now iv a"
proof -
  let ?k = "planner_context p now iv runs dups" and ?b = "empty_plan p now"
  have "(\<exists>r\<in>set (iv_Resources iv). a \<in> set (pl_Actions (plan_resource dns ?k r ?b))) \<or>
      (\<exists>x\<in>set (iv_Artifacts iv). a \<in> set (pl_Actions (plan_artifact ?k x ?b))) \<or> (\<exists>pair\<in>set pairs. a \<in> set (pl_Actions (plan_pair ?k pair ?b)))"
    using assms(3) by (simp add: summed_plan_def gathered_def Let_def)
  moreover have "justified dns p now iv a" if pair: "pair \<in> set pairs" and add: "a \<in> set (pl_Actions (plan_pair ?k pair ?b))" for pair
  proof -
    obtain q where "planned_from p now iv runs dups pair q" "a = fst (pair_actions ?b q) \<or> a = snd (pair_actions ?b q)"
      using plan_pair_adds [of p now iv runs dups pair] add by auto
    then show ?thesis by (rule pair_justified [OF assms(1,2) pair])
  qed
  ultimately show ?thesis using resource_justified [OF assms(1)] artifact_justified [OF assms(1)] by blast
qed

end
