(* ===== verification/Retention_Run.thy ===== *)
theory Retention_Run
  imports Retention_Safety Ledger_Safety
begin

text \<open>
  Runs of the applier on the plans of the planner: every operation that deletes something has the target of an
  action of the plan, and there is none at all unless deletion is enabled on both sides.
\<close>

section \<open>Operations of a program\<close>

primrec confined :: "(store_action \<Rightarrow> bool) \<Rightarrow> 'a program \<Rightarrow> bool" where
  "confined A (Done x) \<longleftrightarrow> True"
| "confined A (Get k f) \<longleftrightarrow> (\<forall>r. A (AGet k r) \<and> confined A (f r))"
| "confined A (Create k b f) \<longleftrightarrow> (\<forall>r. A (ACreate k b r) \<and> confined A (f r))"
| "confined A (Delete k t f) \<longleftrightarrow> (\<forall>r. A (ADelete k t r) \<and> confined A (f r))"
| "confined A (KubeDelete y f) \<longleftrightarrow> (\<forall>r. A (AKubeDelete y r) \<and> confined A (f r))"

lemma confined_followed_by: "confined A p \<Longrightarrow> (\<And>x. confined A (g x)) \<Longrightarrow> confined A (followed_by p g)"
  by (induction p) auto

lemma confined_advance: "confined A p \<Longrightarrow> advance p a = Some q \<Longrightarrow> A a \<and> confined A q"
  by (cases "(p, a)" rule: advance.cases) (auto split: if_splits)

lemma confined_run: "confined A p \<Longrightarrow> resume p as = Some q \<Longrightarrow> x \<in> set as \<Longrightarrow> A x"
proof (induction as arbitrary: p)
  case (Cons a as)
  then obtain p' where p': "advance p a = Some p'" "resume p' as = Some q" by (auto split: option.splits)
  have "A a" "confined A p'" using confined_advance [OF Cons.prems(1) p'(1)] by simp_all
  then show ?case using Cons.IH [OF _ p'(2)] Cons.prems(3) by auto
qed simp

fun is_deletion :: "store_action \<Rightarrow> bool" where
  "is_deletion (ADelete k t r) \<longleftrightarrow> True"
| "is_deletion (AKubeDelete y r) \<longleftrightarrow> True"
| "is_deletion _ \<longleftrightarrow> False"

text \<open>The operation deletes the target, with its UID or entity tag as the condition.\<close>

fun hits :: "store_action \<Rightarrow> action_target \<Rightarrow> bool" where
  "hits (ADelete k t r) x \<longleftrightarrow> at_Kind x = ObjectStoreKind \<and> at_ObjectKey x = k \<and> at_ETag x = t"
| "hits (AKubeDelete y r) x \<longleftrightarrow> at_Kind x \<noteq> ObjectStoreKind \<and> y = (at_Kind x, at_Namespace x, at_Name x, at_UID x)"
| "hits _ x \<longleftrightarrow> False"

section \<open>The applier\<close>

definition enabled :: "retention_plan \<Rightarrow> applier_config \<Rightarrow> bool" where
  "enabled plan c \<longleftrightarrow> \<not> pl_DryRun plan \<and> \<not> ac_DryRun c \<and> ac_Enforce c \<and> ac_LifecycleAttested c"

definition of_plan :: "retention_plan \<Rightarrow> applier_config \<Rightarrow> store_action \<Rightarrow> bool" where
  "of_plan plan c x \<longleftrightarrow> enabled plan c \<and> (is_deletion x \<longrightarrow>
     (\<exists>a\<in>set (pl_Actions plan). ra_Mode a = ActionDelete \<and> (hits x (ra_Target a) \<or>
        ra_PairKey a \<noteq> [] \<and> (\<exists>r. x = ADelete (at_ObjectKey (ra_Target a)) (at_ETag (ra_Target a)) r))))"

lemma confined_applyAction:
  assumes "a \<in> set (pl_Actions plan)" and "enabled plan c" and "ra_Mode a = ActionDelete"
  shows "confined (of_plan plan c) (applyAction a c)"
  using assms by (auto simp: applyAction_def Let_def of_plan_def intro!: bexI [of _ a])

lemma confined_apply_actions: "set as \<subseteq> set (pl_Actions plan) \<Longrightarrow> confined (of_plan plan c) (apply_actions plan c as st)"
proof (induction as arbitrary: st)
  case (Cons a as)
  then have "confined (of_plan plan c) (apply_one plan c a st)"
    using confined_applyAction [of a plan c] by (auto simp: apply_one_def enabled_def intro: confined_followed_by)
  then show ?case using Cons by (auto intro: confined_followed_by)
qed simp

lemma index_actions_from:
  "index_actions table as = Inr table' \<Longrightarrow> (key, a) \<in> set table' \<Longrightarrow> (key, a) \<in> set table \<or> a \<in> set as"
  by (induction table as rule: index_actions.induct) (auto split: if_splits)

lemma checked_pair: "check_pairs c mode table keys pairs = None \<Longrightarrow> pair \<in> set pairs \<Longrightarrow> pair_well_formed pair \<and> pair_actions_ok mode table pair"
  by (induction c mode table keys pairs rule: check_pairs.induct) (auto split: if_splits)

lemma pair_in_plan:
  assumes "validateLedgerPlan plan c = None" and "pair \<in> set (pl_LedgerPairs plan)"
  shows "\<exists>a\<in>set (pl_Actions plan). ra_Mode a = actionMode plan \<and> ra_PairKey a \<noteq> [] \<and>
      at_ObjectKey (ra_Target a) = lp_ClaimKey pair \<and> at_ETag (ra_Target a) = lp_ClaimETag pair"
    and "\<exists>a\<in>set (pl_Actions plan). ra_Mode a = actionMode plan \<and> ra_PairKey a \<noteq> [] \<and>
      at_ObjectKey (ra_Target a) = lp_OutcomeKey pair \<and> at_ETag (ra_Target a) = lp_OutcomeETag pair"
proof -
  obtain table where t: "index_actions [] (pl_Actions plan) = Inr table" "check_pairs c (actionMode plan) table [] (pl_LedgerPairs plan) = None"
    using assms by (auto simp: validateLedgerPlan_def split: if_splits sum.splits option.splits)
  note ok = checked_pair [OF t(2) assms(2)]
  then have "lp_EffectKey pair \<noteq> []" by (auto simp: pair_well_formed_def ValidDigest_def)
  moreover obtain ca oa where "map_of table (lp_EffectKey pair, ''ledger-claim'') = Some ca" "map_of table (lp_EffectKey pair, ''ledger-outcome'') = Some oa"
    and "ra_Mode ca = actionMode plan" "ra_Mode oa = actionMode plan" "ra_PairKey ca = lp_EffectKey pair" "ra_PairKey oa = lp_EffectKey pair"
      "at_ObjectKey (ra_Target ca) = lp_ClaimKey pair" "at_ETag (ra_Target ca) = lp_ClaimETag pair"
      "at_ObjectKey (ra_Target oa) = lp_OutcomeKey pair" "at_ETag (ra_Target oa) = lp_OutcomeETag pair"
    using ok by (auto simp: pair_actions_ok_def split: option.splits)
  moreover from this have "ca \<in> set (pl_Actions plan)" "oa \<in> set (pl_Actions plan)"
    using index_actions_from [OF t(1)] by (auto dest!: map_of_SomeD)
  ultimately show "\<exists>a\<in>set (pl_Actions plan). ra_Mode a = actionMode plan \<and> ra_PairKey a \<noteq> [] \<and>
      at_ObjectKey (ra_Target a) = lp_ClaimKey pair \<and> at_ETag (ra_Target a) = lp_ClaimETag pair"
    "\<exists>a\<in>set (pl_Actions plan). ra_Mode a = actionMode plan \<and> ra_PairKey a \<noteq> [] \<and>
      at_ObjectKey (ra_Target a) = lp_OutcomeKey pair \<and> at_ETag (ra_Target a) = lp_OutcomeETag pair" by auto
qed

lemma confined_pair:
  assumes "validateLedgerPlan plan c = None" and "pair \<in> set (pl_LedgerPairs plan)"
  shows "confined (of_plan plan c) (applyLedgerPair writes pair plan c)"
proof (cases "enabled plan c \<and> actionMode plan = ActionDelete")
  case True
  have c: "of_plan plan c (ADelete (lp_ClaimKey pair) (lp_ClaimETag pair) r)" for r
    using pair_in_plan(1) [OF assms] True unfolding of_plan_def by fastforce
  have o: "of_plan plan c (ADelete (lp_OutcomeKey pair) (lp_OutcomeETag pair) r)" for r
    using pair_in_plan(2) [OF assms] True unfolding of_plan_def by fastforce
  have "confined (of_plan plan c) (delete_pair pair (pair_actions plan pair))" using c o by (simp add: delete_pair_def delete_pair_claim_def)
  moreover have "confined (of_plan plan c) (ensureLedgerTombstone pair)"
    using True by (auto simp: ensureLedgerTombstone_def Let_def of_plan_def split: create_answer.split)
  ultimately show ?thesis using True
    by (auto simp: applyLedgerPair_def Let_def intro!: confined_followed_by split: option.split)
qed (auto simp: applyLedgerPair_def Let_def enabled_def)

lemma confined_apply_pairs:
  "validateLedgerPlan plan c = None \<Longrightarrow> set pairs \<subseteq> set (pl_LedgerPairs plan) \<Longrightarrow> confined (of_plan plan c) (apply_pairs writes plan c pairs st)"
proof (induction pairs arbitrary: st)
  case (Cons pair pairs)
  then have "confined (of_plan plan c) (applyLedgerPair writes pair plan c)" by (intro confined_pair) simp_all
  then show ?case using Cons by (simp add: confined_followed_by)
qed simp

lemma confined_Apply:
  assumes "normalized_config config = Inr c"
  shows "confined (of_plan plan c) (Apply_plan writes plan config)"
  using assms confined_apply_actions [of "pl_Actions plan" plan c] confined_apply_pairs [of plan c "pl_LedgerPairs plan"]
  by (auto simp: Apply_plan_def Let_def intro!: confined_followed_by split: option.split)

lemma normalized_config_flags:
  "normalized_config config = Inr c \<Longrightarrow> enabled plan c \<longleftrightarrow> enabled plan config"
  by (auto simp: normalized_config_def Let_def enabled_def split: if_splits)

lemma Apply_run:
  assumes "resume (Apply_plan writes plan config) as = Some q" and "x \<in> set as"
  shows "of_plan plan config x"
proof (cases "normalized_config config")
  case (Inl err)
  then have "as = []" using assms(1) by (simp add: Apply_plan_def resume_Done)
  then show ?thesis using assms(2) by simp
next
  case (Inr c)
  from confined_run [OF confined_Apply [OF Inr] assms] show ?thesis
    using normalized_config_flags [OF Inr] by (simp add: of_plan_def)
qed

lemma justified_normalized:
  assumes "normalized_policy policy = Inr p"
  shows "justified dns p now iv a = justified dns policy now iv a"
proof -
  obtain n where "p = policy\<lparr>rp_MaxActionsPerPlan := n\<rparr>"
    using assms by (cases policy) (auto simp: normalized_policy_def Let_def split: if_splits)
  then show ?thesis
    by (simp add: justified_def workspace_deletable_def artifact_deletable_def pair_deletable_def evidence_kept_def)
qed

end
