(* ===== verification/Retention_Order.thy ===== *)
theory Retention_Order
  imports Retention_Run
begin

text \<open>
  The order of the inventory does not matter: listing it in another order gives the same plan, although the
  comparison of actions ignores some of their fields and duplicate runs are told by position.
\<close>

section \<open>The orders of a plan\<close>

abbreviation action_key :: "retention_action \<Rightarrow> string \<times> string \<times> string \<times> string \<times> string \<times> string \<times> string \<times> string \<times> string" where
  "action_key a \<equiv> (at_ObjectKey (ra_Target a), at_Kind (ra_Target a), at_Namespace (ra_Target a), at_Name (ra_Target a), at_UID (ra_Target a),
     ra_RunUID a, ra_Role a, ra_Mode a, ra_Reason a)"

abbreviation skip_key :: "retention_skip \<Rightarrow> string \<times> string \<times> string \<times> string \<times> string \<times> string \<times> string" where
  "skip_key s \<equiv> (sk_ObjectKey s, sk_Kind s, sk_Namespace s, sk_Name s, sk_UID s, sk_RunUID s, sk_Reason s)"

lemma actionLess_key: "actionLess = (\<lambda>a b. action_key a < action_key b)"
  unfolding actionLess_def pair_less Let_def ..

lemma skipLess_key: "skipLess = (\<lambda>s t. skip_key s < skip_key t)"
  unfolding skipLess_def pair_less ..

interpretation action_order: slice_order actionLess
  unfolding actionLess_key by (rule key_slice_order)

interpretation skip_order: total_slice_order skipLess
  unfolding skipLess_key by (rule key_total_slice_order) (simp add: inj_def)

lemma sort_actions: "mset as = mset bs \<Longrightarrow> inj_on action_key (set as) \<Longrightarrow> sort_slice actionLess as = sort_slice actionLess bs"
  unfolding actionLess_key sort_slice_key by (rule sort_key_inj_key_eq) simp_all

section \<open>Inventories in another order\<close>

definition permuted :: "inventory \<Rightarrow> inventory \<Rightarrow> bool" where
  "permuted iv iv' \<longleftrightarrow> mset (iv_Runs iv) = mset (iv_Runs iv') \<and> mset (iv_Resources iv) = mset (iv_Resources iv') \<and>
     mset (iv_Artifacts iv) = mset (iv_Artifacts iv') \<and> mset (iv_Ledger iv) = mset (iv_Ledger iv')"

lemma runs_by_uid_permuted:
  assumes "mset rs = mset rs'" and "runs_by_uid dns rs runs dups" and "runs_by_uid dns rs' runs' dups'"
  shows "uid \<in> set dups \<longleftrightarrow> uid \<in> set dups'" and "map_of runs uid = None \<longleftrightarrow> map_of runs' uid = None"
    and "uid \<notin> set dups \<Longrightarrow> map_of runs uid = map_of runs' uid"
proof -
  let ?F = "filter (\<lambda>run. validateRunIdentity dns run \<and> rr_UID run = uid)"
  have "mset (?F rs) = mset (?F rs')" using assms(1) by simp
  moreover have "case ?F rs of [] \<Rightarrow> map_of runs uid = None \<and> uid \<notin> set dups | [run] \<Rightarrow> map_of runs uid = Some run \<and> uid \<notin> set dups
      | _ \<Rightarrow> map_of runs uid \<noteq> None \<and> uid \<in> set dups"
    and "case ?F rs' of [] \<Rightarrow> map_of runs' uid = None \<and> uid \<notin> set dups' | [run] \<Rightarrow> map_of runs' uid = Some run \<and> uid \<notin> set dups'
      | _ \<Rightarrow> map_of runs' uid \<noteq> None \<and> uid \<in> set dups'" using assms(2,3) unfolding runs_by_uid_def by blast+
  ultimately have "(uid \<in> set dups \<longleftrightarrow> uid \<in> set dups') \<and> (map_of runs uid = None \<longleftrightarrow> map_of runs' uid = None) \<and>
      (uid \<notin> set dups \<longrightarrow> map_of runs uid = map_of runs' uid)"
    by (cases "?F rs"; cases "?F rs'"; cases "tl (?F rs)"; cases "tl (?F rs')") auto
  then show "uid \<in> set dups \<longleftrightarrow> uid \<in> set dups'" "map_of runs uid = None \<longleftrightarrow> map_of runs' uid = None"
    "uid \<notin> set dups \<Longrightarrow> map_of runs uid = map_of runs' uid" by blast+
qed

lemma occurrences_permuted: "mset xs = mset ys \<Longrightarrow> occurrences xs k = occurrences ys k"
  unfolding occurrences_def by (metis mset_filter size_mset)

lemma duplicates_permuted:
  "mset rs = mset rs' \<Longrightarrow> duplicateResourceKeys rs = duplicateResourceKeys rs'"
  "mset as = mset as' \<Longrightarrow> duplicateArtifactKeys as = duplicateArtifactKeys as'"
  by (auto simp: duplicateResourceKeys_def duplicateArtifactKeys_def fun_eq_iff intro!: arg_cong2 [where f = "(<)"] occurrences_permuted)

lemma evidence_permuted:
  assumes "set keys = set keys'"
  shows "evidenceEligible run op lp keys = evidenceEligible run op lp keys'"
proof -
  have same: "List.member keys = List.member keys'" using assms by (simp add: fun_eq_iff)
  show ?thesis unfolding evidenceEligible_def same ..
qed

lemma retained_permuted:
  "set as = set as' \<Longrightarrow> hasRetainedArtifact op uid as = hasRetainedArtifact op uid as'"
  "set rs = set rs' \<Longrightarrow> hasRetainedWorkspace run rs = hasRetainedWorkspace run rs'"
  by (simp_all add: hasRetainedArtifact_def hasRetainedWorkspace_def list_ex_iff)

lemma permuted_keys:
  "permuted iv iv' \<Longrightarrow> set (inventoryKeySet (iv_Artifacts iv) (iv_Ledger iv)) = set (inventoryKeySet (iv_Artifacts iv') (iv_Ledger iv'))"
  unfolding set_inventoryKeySet inventory_keys_def permuted_def by (metis mset_eq_setD)

text \<open>Each element adds the same, whichever way the inventory is listed.\<close>

lemma elements_permuted:
  assumes iv: "permuted iv iv'" and "runs_by_uid dns (iv_Runs iv) runs dups" and "runs_by_uid dns (iv_Runs iv') runs' dups'"
  shows "plan_resource dns (planner_context p now iv runs dups) r plan = plan_resource dns (planner_context p now iv' runs' dups') r plan" (is ?R)
    and "plan_artifact (planner_context p now iv runs dups) x plan = plan_artifact (planner_context p now iv' runs' dups') x plan" (is ?A)
    and "plan_pair (planner_context p now iv runs dups) pair plan = plan_pair (planner_context p now iv' runs' dups') pair plan" (is ?P)
proof -
  have "mset (iv_Runs iv) = mset (iv_Runs iv')" using iv by (simp add: permuted_def)
  note runs = runs_by_uid_permuted [OF this assms(2,3)]
  have lookup: "map_of runs uid = None \<and> map_of runs' uid = None \<or> uid \<in> set dups \<and> uid \<in> set dups' \<and> (\<exists>r r'. map_of runs uid = Some r \<and> map_of runs' uid = Some r')
      \<or> uid \<notin> set dups \<and> uid \<notin> set dups' \<and> map_of runs uid = map_of runs' uid" for uid
    using runs [of uid] by (cases "map_of runs uid"; cases "map_of runs' uid"; cases "uid \<in> set dups") auto
  have d: "duplicateResourceKeys (iv_Resources iv) = duplicateResourceKeys (iv_Resources iv')"
    "duplicateArtifactKeys (iv_Artifacts iv) = duplicateArtifactKeys (iv_Artifacts iv')"
    using iv unfolding permuted_def by (blast intro: duplicates_permuted)+
  note ev = evidence_permuted [OF permuted_keys [OF iv]]
  have w: "workspacePVC dns r run now op lp (inventoryKeySet (iv_Artifacts iv) (iv_Ledger iv)) plan =
      workspacePVC dns r run now op lp (inventoryKeySet (iv_Artifacts iv') (iv_Ledger iv')) plan" for run op lp
    unfolding workspacePVC_def ev ..
  have a: "artifact x run op lp (inventoryKeySet (iv_Artifacts iv) (iv_Ledger iv)) now plan =
      artifact x run op lp (inventoryKeySet (iv_Artifacts iv') (iv_Ledger iv')) now plan" for run op lp
    unfolding artifact_def ev ..
  have "set (iv_Artifacts iv) = set (iv_Artifacts iv')" "set (iv_Resources iv) = set (iv_Resources iv')"
    using iv unfolding permuted_def by (blast dest: mset_eq_setD)+
  note kept = retained_permuted(1) [OF this(1)] retained_permuted(2) [OF this(2)]
  have c: "ledger_pair_check p iv = ledger_pair_check p iv'" unfolding ledger_pair_check_def [abs_def] kept ..
  have l: "ledgerPair pair run p iv now plan = ledgerPair pair run p iv' now plan" for run unfolding ledgerPair_def c ..
  show ?R using lookup [of "map_get (rs_Labels r) RunUIDLabelKey"] 
    by (elim disjE conjE exE) (simp_all add: plan_resource_def Let_def d w cong: option.case_cong if_cong)
  show ?A using lookup [of "af_RunUID x"] 
    by (elim disjE conjE exE) (simp_all add: plan_artifact_def Let_def d a cong: option.case_cong if_cong)
  show ?P
  proof (cases "pa_Claim pair")
    case (Some y)
    then show ?thesis using lookup [of "cl_RunUID (snd y)"] 
      by (cases y, elim disjE conjE exE) (simp_all add: plan_pair_def l cong: option.case_cong if_cong)
  qed (simp add: plan_pair_def)
qed

lemma mset_concat_map: "mset xs = mset ys \<Longrightarrow> mset (concat (map h xs)) = mset (concat (map h ys))"
  by (simp add: mset_concat flip: sum_mset_sum_list)

lemma gathered_permuted:
  assumes iv: "permuted iv iv'" and runs: "runs_by_uid dns (iv_Runs iv) runs dups" "runs_by_uid dns (iv_Runs iv') runs' dups'"
  shows "mset (gathered dns (planner_context p now iv runs dups) pairs sel) = mset (gathered dns (planner_context p now iv' runs' dups') pairs sel)"
proof -
  note same = elements_permuted [OF iv runs]
  have lists: "mset (iv_Resources iv) = mset (iv_Resources iv')" "mset (iv_Artifacts iv) = mset (iv_Artifacts iv')"
    using iv by (simp_all add: permuted_def)
  show ?thesis by (simp add: gathered_def Let_def same mset_concat_map [OF lists(1)] mset_concat_map [OF lists(2)])
qed

lemma concat_nothing [simp]: "concat (map (\<lambda>x. []) xs) = []"
  by simp

lemma pairs_permuted:
  assumes iv: "permuted iv iv'" and runs: "runs_by_uid dns (iv_Runs iv) runs dups" "runs_by_uid dns (iv_Runs iv') runs' dups'"
  shows "gathered dns (planner_context p now iv runs dups) pairs pl_LedgerPairs = gathered dns (planner_context p now iv' runs' dups') pairs pl_LedgerPairs"
  using elements_permuted(3) [OF iv runs] by (simp add: gathered_def Let_def no_pairs)

lemma skips_permuted: "permuted iv iv' \<Longrightarrow> mset (invalid_run_skips dns iv) = mset (invalid_run_skips dns iv')"
  by (simp add: permuted_def invalid_run_skips_def)

section \<open>Ties are equal\<close>

lemma entry_unique:
  assumes "indexLedger p xs = Inr pairs" and "x \<in> set xs" "y \<in> set xs"
    and "parseLedgerObjectKey (rp_ObjectPrefix p) (rp_LedgerPrefix p) (lo_Key x) = Some (segment, e)"
      "parseLedgerObjectKey (rp_ObjectPrefix p) (rp_LedgerPrefix p) (lo_Key y) = Some (segment, e)"
    and "decode (lo_Body x) = Inr v" "decode (lo_Body y) = Inr w" and "distinct (map fst (ledger_entries segment decode p xs))"
  shows "x = y"
proof -
  have "(e, x, v) \<in> set (ledger_entries segment decode p xs)" "(e, y, w) \<in> set (ledger_entries segment decode p xs)"
    using assms by (simp_all add: entry_iff)
  then show ?thesis using assms(8) by (metis Pair_inject map_of_is_SomeI option.inject)
qed

lemma pair_records:
  assumes "pair_deletable p now iv run e cx ox"
  shows "cx \<in> set (iv_Ledger iv)" "ox \<in> set (iv_Ledger iv)"
    "parseLedgerObjectKey (rp_ObjectPrefix p) (rp_LedgerPrefix p) (lo_Key cx) = Some (''claims'', e)"
    "parseLedgerObjectKey (rp_ObjectPrefix p) (rp_LedgerPrefix p) (lo_Key ox) = Some (''outcomes'', e)"
    "\<exists>c. DecodeClaim (lo_Body cx) = Inr c" "\<exists>r. DecodeOutcome (lo_Body ox) = Inr r"
  using assms unfolding pair_deletable_def by blast+

lemma deletable_once:
  assumes index: "indexLedger p (iv_Ledger iv) = Inr pairs"
  shows "run_resource dns iv run r \<Longrightarrow> run_resource dns iv run' r' \<Longrightarrow> rs_Kind r = rs_Kind r' \<Longrightarrow> rs_Namespace r = rs_Namespace r' \<Longrightarrow>
      rs_Name r = rs_Name r' \<Longrightarrow> r = r'"
    and "artifact_deletable p now iv run x \<Longrightarrow> artifact_deletable p now iv run' x' \<Longrightarrow> af_Key x = af_Key x' \<Longrightarrow> x = x'"
    and "pair_deletable p now iv run e cx ox \<Longrightarrow> pair_deletable p now iv run' e' cx' ox' \<Longrightarrow> lo_Key cx = lo_Key cx' \<Longrightarrow> e = e' \<and> cx = cx'"
    and "pair_deletable p now iv run e cx ox \<Longrightarrow> pair_deletable p now iv run' e' cx' ox' \<Longrightarrow> lo_Key ox = lo_Key ox' \<Longrightarrow> e = e' \<and> ox = ox'"
proof -
  show "r = r'" if a: "run_resource dns iv run r" "run_resource dns iv run' r'"
    and same: "rs_Kind r = rs_Kind r'" "rs_Namespace r = rs_Namespace r'" "rs_Name r = rs_Name r'"
  proof -
    have "filter (\<lambda>s. rs_Kind s = rs_Kind r' \<and> rs_Namespace s = rs_Namespace r' \<and> rs_Name s = rs_Name r') (iv_Resources iv) = [r]"
      using a(1) unfolding run_resource_def same by blast
    moreover have "filter (\<lambda>s. rs_Kind s = rs_Kind r' \<and> rs_Namespace s = rs_Namespace r' \<and> rs_Name s = rs_Name r') (iv_Resources iv) = [r']"
      using a(2) unfolding run_resource_def by blast
    ultimately show ?thesis by simp
  qed
  show "x = x'" if a: "artifact_deletable p now iv run x" "artifact_deletable p now iv run' x'" and same: "af_Key x = af_Key x'"
  proof -
    have "filter (\<lambda>b. af_Key b = af_Key x') (iv_Artifacts iv) = [x]" using a(1) unfolding artifact_deletable_def same by blast
    moreover have "filter (\<lambda>b. af_Key b = af_Key x') (iv_Artifacts iv) = [x']" using a(2) unfolding artifact_deletable_def by blast
    ultimately show ?thesis by simp
  qed
  have fits: "distinct (map fst (claim_entries p (iv_Ledger iv)))" "distinct (map fst (outcome_entries p (iv_Ledger iv)))"
    using index by (auto simp: indexLedger_eq fits_def split: if_splits)
  show "e = e' \<and> cx = cx'" if d: "pair_deletable p now iv run e cx ox" "pair_deletable p now iv run' e' cx' ox'" and k: "lo_Key cx = lo_Key cx'"
  proof -
    note one = pair_records [OF d(1)] and two = pair_records [OF d(2)]
    have e: "e' = e" using one(3) two(3) k by simp
    obtain v w where "DecodeClaim (lo_Body cx) = Inr v" "DecodeClaim (lo_Body cx') = Inr w" using one(5) two(5) by blast
    then show ?thesis using entry_unique [OF index one(1) two(1) one(3) two(3) [unfolded e] _ _ fits(1)] e by simp
  qed
  show "e = e' \<and> ox = ox'" if d: "pair_deletable p now iv run e cx ox" "pair_deletable p now iv run' e' cx' ox'" and k: "lo_Key ox = lo_Key ox'"
  proof -
    note one = pair_records [OF d(1)] and two = pair_records [OF d(2)]
    have e: "e' = e" using one(4) two(4) k by simp
    obtain v w where "DecodeOutcome (lo_Body ox) = Inr v" "DecodeOutcome (lo_Body ox') = Inr w" using one(6) two(6) by blast
    then show ?thesis using entry_unique [OF index one(2) two(2) one(4) two(4) [unfolded e] _ _ fits(2)] e by simp
  qed
qed

text \<open>The kind and the role of a justified action say which of the four it is.\<close>

lemma action_kind:
  assumes "justified dns p now iv a"
  obtains (resource) run r where "run_resource dns iv run r" "ra_PairKey a = []" "ra_Target a = resource_target (rs_Kind r) r"
      "ra_Role a = ''credentials'' \<or> ra_Role a = WorkRole"
  | (artifact) run x where "artifact_deletable p now iv run x" "ra_Role a = []" "ra_PairKey a = []" "ra_Target a = object_target (af_Key x) (af_ETag x)"
  | (claim) run cx ox where "pair_deletable p now iv run (ra_PairKey a) cx ox" "ra_Role a = ''ledger-claim''" "ra_Target a = object_target (lo_Key cx) (lo_ETag cx)"
  | (outcome) run cx ox where "pair_deletable p now iv run (ra_PairKey a) cx ox" "ra_Role a = ''ledger-outcome''" "ra_Target a = object_target (lo_Key ox) (lo_ETag ox)"
proof -
  have s: "run_resource dns iv run r \<and> rs_Kind r = SecretKind" if "secret_deletable dns iv run r" for run r
    using that unfolding secret_deletable_def by blast
  have w: "run_resource dns iv run r \<and> rs_Kind r = PersistentVolumeKind" if "workspace_deletable dns p now iv run r" for run r
    using that unfolding workspace_deletable_def by blast
  from assms show ?thesis unfolding justified_def
  proof (elim conjE exE disjE)
    fix r run assume "secret_deletable dns iv run r" "ra_Role a = ''credentials''" "ra_PairKey a = []" "ra_Target a = resource_target SecretKind r"
    then show ?thesis using s resource by metis
  next
    fix r run assume "workspace_deletable dns p now iv run r" "ra_Role a = WorkRole" "ra_PairKey a = []"
      "ra_Target a = resource_target PersistentVolumeKind r"
    then show ?thesis using w resource by metis
  qed (rule artifact claim outcome; assumption)+
qed

lemma action_key_inj:
  assumes index: "indexLedger p (iv_Ledger iv) = Inr pairs" and a: "justified dns p now iv a" and b: "justified dns p now iv b"
    and key: "action_key a = action_key b"
  shows "a = b"
proof -
  have same: "ra_Mode a = ra_Mode b" "ra_RunUID a = ra_RunUID b" "ra_Role a = ra_Role b" "ra_Reason a = ra_Reason b"
    and t: "at_ObjectKey (ra_Target a) = at_ObjectKey (ra_Target b)" "at_Kind (ra_Target a) = at_Kind (ra_Target b)"
      "at_Namespace (ra_Target a) = at_Namespace (ra_Target b)" "at_Name (ra_Target a) = at_Name (ra_Target b)"
    using key by simp_all
  have "ra_PairKey a = ra_PairKey b \<and> ra_Target a = ra_Target b"
    using a
  proof (cases rule: action_kind)
    case resource: (resource run r)
    from b show ?thesis
    proof (cases rule: action_kind)
      case two: (resource run' r')
      have "r = r'" by (rule deletable_once(1) [OF index resource(1) two(1)]) (use t resource two in simp_all)
      then show ?thesis using resource two by simp
    qed (use resource same in auto)
  next
    case artifact: (artifact run x)
    from b show ?thesis
    proof (cases rule: action_kind)
      case two: (artifact run' x')
      have "x = x'" by (rule deletable_once(2) [OF index artifact(1) two(1)]) (use t artifact two in simp_all)
      then show ?thesis using artifact two by simp
    qed (use artifact same in auto)
  next
    case claim: (claim run cx ox)
    from b show ?thesis
    proof (cases rule: action_kind)
      case two: (claim run' cx' ox')
      have "ra_PairKey a = ra_PairKey b \<and> cx = cx'" by (rule deletable_once(3) [OF index claim(1) two(1)]) (use t claim two in simp_all)
      then show ?thesis using claim two by simp
    qed (use claim same in auto)
  next
    case outcome: (outcome run cx ox)
    from b show ?thesis
    proof (cases rule: action_kind)
      case two: (outcome run' cx' ox')
      have "ra_PairKey a = ra_PairKey b \<and> ox = ox'" by (rule deletable_once(4) [OF index outcome(1) two(1)]) (use t outcome two in simp_all)
      then show ?thesis using outcome two by simp
    qed (use outcome same in auto)
  qed
  then show ?thesis using same by (cases a; cases b) simp
qed

lemma summed_plan_permuted:
  assumes iv: "permuted iv iv'" and runs: "runs_by_uid dns (iv_Runs iv) runs dups" "runs_by_uid dns (iv_Runs iv') runs' dups'"
    and index: "indexLedger p (iv_Ledger iv) = Inr pairs"
  shows "summed_plan dns (planner_context p now iv runs dups) pairs = summed_plan dns (planner_context p now iv' runs' dups') pairs"
proof -
  have "set (gathered dns (planner_context p now iv runs dups) pairs pl_Actions) \<subseteq> {a. justified dns p now iv a}"
    using plan_justified [OF runs(1) index] by (auto simp: summed_plan_def)
  then have "inj_on action_key (set (gathered dns (planner_context p now iv runs dups) pairs pl_Actions))"
    using action_key_inj [OF index] by (blast intro: inj_onI)
  note actions = sort_actions [OF gathered_permuted [OF iv runs] this]
  have "sort_slice skipLess (invalid_run_skips dns iv @ gathered dns (planner_context p now iv runs dups) pairs pl_Skipped) =
      sort_slice skipLess (invalid_run_skips dns iv' @ gathered dns (planner_context p now iv' runs' dups') pairs pl_Skipped)"
    by (rule skip_order.sort_permutation) (simp add: gathered_permuted [OF iv runs] skips_permuted [OF iv])
  then show ?thesis by (simp add: summed_plan_def actions pairs_permuted [OF iv runs])
qed

end
