(* ===== verification/Spec2Isabelle.thy ===== *)
theory Spec2Isabelle
  imports Agent_Run_FSM Report_Building Ledger_Replay Retention_Order
begin

text \<open>
  A verification library for the control plane of Agents Gateway, version 3 (\<^verbatim>\<open>src/v3\<close>).

  \<^bold>\<open>The program.\<close> An operator drives an \<^verbatim>\<open>AgentRun\<close> through its phases: a sandbox works on a repository, the
  change is captured and verified, a gate decides on it, and an accepted change is published. The gate reads
  observations only and decides by a fixed policy; findings of a critic count only as far as deterministic
  evidence corroborates them; the decision is bound into a signed report. An effect on the outside
  world, such as a pull request, is claimed in a ledger in an object store before it happens, so that it happens
  at most once, and its outcome is recorded there. A retention controller plans what may be deleted from an
  inventory of the cluster and of the store, and an applier carries the plan out. Everything that is addressed by content
  is JSON in one canonical form.

  \<^bold>\<open>Theories and sources.\<close>

  \<^item> \<^verbatim>\<open>Gateway_Prelude\<close>, \<^verbatim>\<open>Go_Sort\<close>, \<^verbatim>\<open>Go_Time\<close>, \<^verbatim>\<open>Base64_Text\<close>, \<^verbatim>\<open>Content_Digest\<close>: what the sources use of the Go
    library. A string is its bytes; \<^verbatim>\<open>sort.Slice\<close> is an insertion sort under the laws of the locale
    \<^verbatim>\<open>slice_order\<close>, interpreted on every comparison the sources pass; SHA-256 works on 32-bit words and takes
    its constants from integer roots; a time is a civil date with its instant.
  \<^item> \<^verbatim>\<open>Agent_Run_FSM\<close>: \<^verbatim>\<open>internal/fsm\<close>. The transition table, \<^const>\<open>Apply\<close> and the machine.
  \<^item> \<^verbatim>\<open>Scope_Glob\<close>, \<^verbatim>\<open>Coverage_Policy\<close>, \<^verbatim>\<open>Gate_Engine\<close>, \<^verbatim>\<open>Gate_Decision\<close>: \<^verbatim>\<open>glob.go\<close>, \<^verbatim>\<open>coverage.go\<close> and \<^verbatim>\<open>engine.go\<close> of
    \<^verbatim>\<open>internal/gate\<close>. The closures of \<^verbatim>\<open>Evaluate\<close> thread the record \<^verbatim>\<open>gate_state\<close>; the tables of the matcher are explicit state.
  \<^item> \<^verbatim>\<open>Finding_Corroboration\<close>, \<^verbatim>\<open>Finding_Routing\<close>: \<^verbatim>\<open>internal/findingcorroboration\<close>. \<^verbatim>\<open>Gate_Scoring\<close>, \<^verbatim>\<open>Gate_Scores\<close>: \<^verbatim>\<open>internal/gatescoring\<close>.
  \<^item> \<^verbatim>\<open>Gate_Report\<close>, \<^verbatim>\<open>Report_Canonical\<close>, \<^verbatim>\<open>Report_Building\<close>: \<^verbatim>\<open>internal/gate/report.go\<close>. The two Ed25519 functions are arguments.
  \<^item> \<^verbatim>\<open>Strict_JSON\<close> with \<^verbatim>\<open>JSON_Strings\<close>, \<^verbatim>\<open>JSON_Numbers\<close>, \<^verbatim>\<open>JSON_Values\<close>, \<^verbatim>\<open>JSON_Normalize\<close>: \<^verbatim>\<open>pkg/strictjson\<close>.
    \<^verbatim>\<open>Canonical_Spec\<close>: \<^verbatim>\<open>internal/canonical\<close>.
  \<^item> \<^verbatim>\<open>Effect_Ledger\<close>, \<^verbatim>\<open>Ledger_Records\<close>: \<^verbatim>\<open>internal/effects/ledger.go\<close>. A call is a program, a tree of store operations with
    a branch for every answer, failures included.
  \<^item> \<^verbatim>\<open>Retention_Policy\<close>, \<^verbatim>\<open>Retention_Plan\<close>, \<^verbatim>\<open>Retention_Steps\<close>: the planner of \<^verbatim>\<open>internal/retention\<close>
    (\<^verbatim>\<open>retention.go\<close>, \<^verbatim>\<open>ledger.go\<close>). \<^verbatim>\<open>Ledger_Retention\<close>, \<^verbatim>\<open>Retention_Apply\<close>: the applier (\<^verbatim>\<open>applier.go\<close>), again as a program.
  \<^item> \<^verbatim>\<open>Ledger_Safety\<close>, \<^verbatim>\<open>Ledger_Replay\<close>: clients of the ledger and of the applier on one store. The locale
    \<^verbatim>\<open>conditional_store\<close> states what the store promises; it is interpreted on a store of objects with entity tags.
\<close>

text \<open>
  \<^bold>\<open>What the lemmas show.\<close>

  \<^item> State machine: which histories end in success, terminal phases are final, runs are bounded, the two ways to ask for a transition agree.
  \<^item> Gate: the memoised matcher equals the plain one and matches what a pattern denotes; \<^verbatim>\<open>Evaluate\<close> accepts exactly what a
    declarative policy accepts, whatever the order of the evidence.
  \<^item> Critic: a blocking route needs validated evidence, routing is total on valid input, sealed results read back,
    and the verdict of the scorer is the declarative one.
  \<^item> Report: every decision made without a critic has a report, signing and verification fit, and a verified acceptance goes back to
    passed checks.
  \<^item> JSON: the parser terminates, comparison is equality of values, the canonical text reads back; the one way in which it
    does not is a lemma too. Resolved specifications are canonical and hold no credential material.
  \<^item> Ledger: for any interleaving of clients and any failures, an effect executes at most once, also after its records were
    retired; records are not overwritten and tombstones are permanent; one effect followed from claim to replay and retirement.
  \<^item> Planner: a plan is the sum of what each element of the inventory adds, and the run an element belongs to is the only valid run with its UID.

  \<^bold>\<open>Fuel.\<close> Only the recursion of the JSON parser has fuel: twice the length of the text and one more, since of two nested calls at
  least one consumes a byte. That it never runs out is proved. All other recursion is structural or has a termination proof.

  \<^bold>\<open>Parameters.\<close> Ed25519, and whether a name is a DNS subdomain in the sense of Kubernetes. The clock is an argument of each call.

  \<^bold>\<open>Not modelled.\<close> The parsers of findings, scores and reports that use \<^verbatim>\<open>encoding/json\<close>
  (\<^verbatim>\<open>ParseCanonicalInput\<close>, \<^verbatim>\<open>ParseCanonicalResult\<close>, \<^verbatim>\<open>ParseSignedReport\<close>); the listing of the inventory, the reconcile loop and the S3 client of
  retention; the Kubernetes controllers, workloads and sandboxes, the broker, publishing, capture, context and attestation packages, the
  commands and the runtime adapters, which are mostly I/O through libraries that are not in the sources; charts, scripts and manifests; and
  versions 1 and 2 of the gateway, which version 3 supersedes.
\<close>

end
